(* ===== verification/Prelude.thy ===== *)
theory Prelude
  imports Complex_Main "HOL-Library.Sublist"
begin

text \<open>
  Shared vocabulary of the brick-breaker development: the Python exceptions the
  program can raise (as values of \<open>error\<close>), Python's list indexing and
  \<open>range\<close>, and generic lemmas on lists and reals that the component theories
  use. The collections \<open>geom_simps\<close> and \<open>scene_simps\<close> gather the evaluation
  rules of the geometry and of the scene model, so that component proofs and
  witnesses can say \<open>simp add: geom_simps\<close>.
\<close>

named_theorems geom_simps "evaluation rules of vectors and sprite extents"
named_theorems scene_simps "evaluation rules of the scene and engine model"

subsection \<open>Python exceptions\<close>

text \<open>
  \<open>StopIteration\<close>: \<open>next\<close> on an exhausted generator (the paddle lookup);
  \<open>TypeError\<close>: arithmetic on \<open>None\<close> (the paddle's mouse target);
  \<open>IndexError\<close>: a list index out of range or a pop from an empty list;
  \<open>ZeroDivisionError\<close>: a float division by zero.
\<close>

datatype error = StopIteration | TypeError | IndexError | ZeroDivisionError

type_synonym 'a result = "error + 'a"

subsection \<open>Python list operations\<close>

text \<open>Reading \<open>xs[i]\<close>: indices \<open>-len(xs) .. len(xs)-1\<close> are valid, a negative
  one counting back from the end; any other raises \<open>IndexError\<close>.\<close>

definition py_get :: "'a list \<Rightarrow> int \<Rightarrow> 'a result" where
  "py_get xs i =
     (if - int (length xs) \<le> i \<and> i < int (length xs)
      then Inr (xs ! nat (i mod int (length xs))) else Inl IndexError)"

text \<open>
  \<open>range(start, stop, step)\<close> for \<open>step > 0\<close>: \<open>start, start + step, \<dots>\<close>
  while below \<open>stop\<close>. The program only calls it with positive steps; for
  \<open>step \<le> 0\<close> the model returns the empty list (Python raises for 0 and counts
  down for negative steps, neither of which the program does).
\<close>

function py_range :: "int \<Rightarrow> int \<Rightarrow> int \<Rightarrow> int list" where
  "py_range start stop step =
     (if 0 < step \<and> start < stop then start # py_range (start + step) stop step else [])"
  by pat_completeness auto
termination
  by (relation "measure (\<lambda>(start, stop, step). nat (stop - start))") auto

declare py_range.simps [simp del]

text \<open>Applying a handler that may raise to every element in order: the first
  exception stops the loop, as it would in Python.\<close>

fun map_result :: "('a \<Rightarrow> 'b result) \<Rightarrow> 'a list \<Rightarrow> 'b list result" where
  "map_result f [] = Inr []"
| "map_result f (x # xs) =
     (case f x of
        Inl e \<Rightarrow> Inl e
      | Inr y \<Rightarrow> (case map_result f xs of Inl e \<Rightarrow> Inl e | Inr ys \<Rightarrow> Inr (y # ys)))"

subsection \<open>Python list indexing\<close>

lemma py_get_nonneg [simp]:
  "0 \<le> i \<Longrightarrow> i < int (length xs) \<Longrightarrow> py_get xs i = Inr (xs ! nat i)"
  by (simp add: py_get_def)

lemma py_get_in_set:
  assumes "py_get xs i = Inr y"
  shows "y \<in> set xs"
proof -
  have i: "- int (length xs) \<le> i" "i < int (length xs)" and y: "y = xs ! nat (i mod int (length xs))"
    using assms by (auto simp: py_get_def split: if_splits)
  then have n: "0 < int (length xs)" by linarith
  then have "0 \<le> i mod int (length xs)" "i mod int (length xs) < int (length xs)"
    by (simp_all add: pos_mod_sign pos_mod_bound)
  then show ?thesis using y by (simp add: nat_less_iff)
qed

subsection \<open>Python \<open>range\<close> with a positive step\<close>

lemma py_range_empty [simp]: "stop \<le> start \<Longrightarrow> py_range start stop step = []"
  by (subst py_range.simps) simp

lemma py_range_cons:
  "0 < step \<Longrightarrow> start < stop \<Longrightarrow>
   py_range start stop step = start # py_range (start + step) stop step"
  by (subst py_range.simps) simp

lemma dvd_shift_step: "(s dvd (x - (a + s))) = (s dvd (x - (a::int)))"
proof -
  have "x - a = (x - (a + s)) + s" by simp
  then show ?thesis by (metis dvd_add_triv_right_iff)
qed

lemma dvd_next_multiple:
  "0 < (s::int) \<Longrightarrow> a \<le> x \<Longrightarrow> x \<noteq> a \<Longrightarrow> s dvd (x - a) \<Longrightarrow> a + s \<le> x"
  using zdvd_imp_le by force

lemma mem_py_range:
  "0 < step \<Longrightarrow>
   x \<in> set (py_range start stop step) \<longleftrightarrow> start \<le> x \<and> x < stop \<and> step dvd (x - start)"
proof (induction start stop step rule: py_range.induct)
  case (1 start stop step)
  show ?case
  proof (cases "start < stop")
    case False
    then show ?thesis by simp
  next
    case True
    then have "x \<in> set (py_range start stop step) \<longleftrightarrow>
               x = start \<or> (start + step \<le> x \<and> x < stop \<and> step dvd (x - start))"
      using "1.IH" "1.prems" by (simp add: py_range_cons dvd_shift_step)
    also have "\<dots> \<longleftrightarrow> start \<le> x \<and> x < stop \<and> step dvd (x - start)"
      using True "1.prems" dvd_next_multiple [of step start x] by auto
    finally show ?thesis .
  qed
qed

lemma set_py_range:
  "0 < step \<Longrightarrow>
   set (py_range start stop step) = {x. start \<le> x \<and> x < stop \<and> step dvd (x - start)}"
  using mem_py_range by blast

lemma nth_py_range:
  "k < length (py_range start stop step) \<Longrightarrow> py_range start stop step ! k = start + int k * step"
proof (induction start stop step arbitrary: k rule: py_range.induct)
  case (1 start stop step)
  show ?case
  proof (cases "0 < step \<and> start < stop")
    case True
    then show ?thesis using 1 by (cases k) (simp_all add: py_range_cons algebra_simps)
  next
    case False
    then have "py_range start stop step = []" by (subst py_range.simps) simp
    then show ?thesis using 1(2) by simp
  qed
qed

lemma sorted_py_range: "sorted_wrt (<) (py_range start stop step)"
proof (induction start stop step rule: py_range.induct)
  case (1 start stop step)
  show ?case
  proof (cases "0 < step \<and> start < stop")
    case True
    have "\<forall>x \<in> set (py_range (start + step) stop step). start < x"
      using True set_py_range [of step "start + step" stop] by auto
    with "1.IH" True show ?thesis by (simp add: py_range_cons)
  next
    case False
    then have "py_range start stop step = []" by (subst py_range.simps) simp
    then show ?thesis by simp
  qed
qed

lemma distinct_py_range: "distinct (py_range start stop step)"
  using sorted_py_range strict_sorted_iff by blast

subsection \<open>Running a fallible handler over a list\<close>

lemma map_result_Inr:
  assumes "\<forall>x \<in> set xs. \<exists>y. f x = Inr y \<and> P y"
  shows "\<exists>ys. map_result f xs = Inr ys \<and> length ys = length xs \<and> (\<forall>y \<in> set ys. P y)"
  using assms by (induction xs) auto

lemma map_result_map: "map_result (\<lambda>x. Inr (g x)) xs = Inr (map g xs)"
  by (induction xs) simp_all

text \<open>A comprehension with one guarded element per item, as the signal lists of
  the handlers are written.\<close>

lemma concat_map_if_singleton [simp]:
  "concat (map (\<lambda>x. if P x then [f x] else []) xs) = map f (filter P xs)"
  by (induction xs) simp_all

lemma map_result_list_all:
  assumes "map_result f xs = Inr ys" and "\<And>x y. f x = Inr y \<Longrightarrow> P x \<Longrightarrow> P y" and "list_all P xs"
  shows "list_all P ys"
  using assms(1,3)
proof (induction xs arbitrary: ys)
  case (Cons x xs)
  then show ?case using assms(2) by (auto split: sum.splits)
qed simp

lemma map_result_list_all2:
  assumes "map_result f xs = Inr ys" and "\<And>x y. f x = Inr y \<Longrightarrow> P y x"
  shows "list_all2 P ys xs"
  using assms(1)
proof (induction xs arbitrary: ys)
  case (Cons x xs)
  then show ?case using assms(2) by (auto split: sum.splits)
qed simp

text \<open>A list related element by element to another embeds in it.\<close>

lemma list_all2_list_emb: "list_all2 P xs ys \<Longrightarrow> list_emb P xs ys"
  by (induction rule: list_all2_induct) auto

subsection \<open>Reals\<close>

lemma sqrt_sum_squares_pos [simp]:
  "(x::real) \<noteq> 0 \<or> y \<noteq> 0 \<Longrightarrow> 0 < sqrt (x * x + y * y)"
  by (simp add: sum_squares_gt_zero_iff)

lemma int_close:
  "2 * \<bar>real_of_int x - real_of_int x'\<bar> < real_of_int c \<Longrightarrow> 2 * \<bar>x - x'\<bar> < c"
proof -
  assume a: "2 * \<bar>real_of_int x - real_of_int x'\<bar> < real_of_int c"
  have "real_of_int (2 * \<bar>x - x'\<bar>) = 2 * \<bar>real_of_int x - real_of_int x'\<bar>" by simp
  with a have "real_of_int (2 * \<bar>x - x'\<bar>) < real_of_int c" by simp
  then show ?thesis by (simp only: of_int_less_iff)
qed

lemma sqrt_square_nonneg [simp]: "0 \<le> (a::real) \<Longrightarrow> sqrt (a * a) = a"
  by (metis abs_of_nonneg real_sqrt_abs2)

end
