(* ===== verification/Vector.thy ===== *)
theory Vector
  imports Prelude
begin

text \<open>
  The two-dimensional vectors of the game engine (\<open>ppb.Vector\<close>, with the
  constants of \<open>ppb.directions\<close>). The engine is a library the program only
  calls, so these definitions follow spec section 4.1: addition, scaling,
  dot product, length, normalisation with \<open>normalize 0 = 0\<close>, and reflection
  \<open>v - 2 (v \<cdot> n) n\<close>. Coordinates are reals: the model abstracts from the
  rounding of Python's 64-bit floats. Vectors form an additive group
  (\<open>instantiation\<close> below), so \<open>v + w\<close> and \<open>v - w\<close> read as in the source.
\<close>

datatype vector = Vector (vx: real) (vy: real)

instantiation vector :: ab_group_add
begin

definition zero_vector :: vector where
  "zero_vector = Vector 0 0"

definition plus_vector :: "vector \<Rightarrow> vector \<Rightarrow> vector" where
  "plus_vector v w = Vector (vx v + vx w) (vy v + vy w)"

definition minus_vector :: "vector \<Rightarrow> vector \<Rightarrow> vector" where
  "minus_vector v w = Vector (vx v - vx w) (vy v - vy w)"

definition uminus_vector :: "vector \<Rightarrow> vector" where
  "uminus_vector v = Vector (- vx v) (- vy v)"

instance
proof
  fix a b c :: vector
  show "a + b + c = a + (b + c)" by (simp add: plus_vector_def)
  show "a + b = b + a" by (simp add: plus_vector_def)
  show "0 + a = a" by (simp add: plus_vector_def zero_vector_def)
  show "- a + a = 0" by (simp add: plus_vector_def uminus_vector_def zero_vector_def)
  show "a - b = a + - b" by (simp add: plus_vector_def uminus_vector_def minus_vector_def)
qed

end

text \<open>\<open>v * k\<close> for a number \<open>k\<close> (\<open>Vector.__mul__\<close> with a scalar).\<close>

definition vscale :: "real \<Rightarrow> vector \<Rightarrow> vector" where
  "vscale k v = Vector (k * vx v) (k * vy v)"

text \<open>\<open>v * w\<close> for two vectors: the dot product.\<close>

definition dot :: "vector \<Rightarrow> vector \<Rightarrow> real" where
  "dot v w = vx v * vx w + vy v * vy w"

text \<open>\<open>v.length\<close>.\<close>

definition vlength :: "vector \<Rightarrow> real" where
  "vlength v = sqrt (dot v v)"

text \<open>\<open>v.normalize()\<close>; the zero vector is left as it is (spec 4.1 and 7).\<close>

definition normalize :: "vector \<Rightarrow> vector" where
  "normalize v = (if v = 0 then 0 else vscale (1 / vlength v) v)"

text \<open>\<open>v.reflect(normal)\<close>.\<close>

definition reflect :: "vector \<Rightarrow> vector \<Rightarrow> vector" where
  "reflect v n = v - vscale (2 * dot v n) n"

subsection \<open>\<open>ppb.directions\<close>\<close>

definition Up :: vector where "Up = Vector 0 1"
definition Down :: vector where "Down = Vector 0 (-1)"
definition Left :: vector where "Left = Vector (-1) 0"
definition Right :: vector where "Right = Vector 1 0"
definition UpAndLeft :: vector where "UpAndLeft = normalize (Vector (-1) 1)"
definition UpAndRight :: vector where "UpAndRight = normalize (Vector 1 1)"
definition DownAndRight :: vector where "DownAndRight = normalize (Vector 1 (-1))"

subsection \<open>Evaluation rules\<close>

lemma vector_components [simp, geom_simps]:
  "vx (v + w) = vx v + vx w" "vy (v + w) = vy v + vy w"
  "vx (v - w) = vx v - vx w" "vy (v - w) = vy v - vy w"
  "vx (- v) = - vx v" "vy (- v) = - vy v"
  "vx 0 = 0" "vy 0 = 0"
  "vx (vscale k v) = k * vx v" "vy (vscale k v) = k * vy v"
  by (simp_all add: plus_vector_def minus_vector_def uminus_vector_def zero_vector_def vscale_def)

lemma vector_eq_iff: "v = w \<longleftrightarrow> vx v = vx w \<and> vy v = vy w"
  by (cases v; cases w) simp

lemma vector_zero_iff [geom_simps]: "v = 0 \<longleftrightarrow> vx v = 0 \<and> vy v = 0"
  by (simp add: vector_eq_iff)

lemma Vector_ops [geom_simps]:
  "Vector a b + Vector c d = Vector (a + c) (b + d)"
  "Vector a b - Vector c d = Vector (a - c) (b - d)"
  "vscale k (Vector a b) = Vector (k * a) (k * b)"
  "dot (Vector a b) (Vector c d) = a * c + b * d"
  "Vector a b = 0 \<longleftrightarrow> a = 0 \<and> b = 0"
  by (simp_all add: vector_eq_iff dot_def)

lemma dot_sym: "dot v w = dot w v"
  by (simp add: dot_def mult.commute)

lemma dot_self_nonneg [simp]: "0 \<le> dot v v"
  by (simp add: dot_def)

lemma dot_self_zero_iff: "dot v v = 0 \<longleftrightarrow> v = 0"
  by (simp add: dot_def vector_zero_iff sum_squares_eq_zero_iff)

lemma dot_vscale [simp]: "dot (vscale k v) w = k * dot v w" "dot v (vscale k w) = k * dot v w"
  by (simp_all add: dot_def algebra_simps)

lemma dot_diff [simp]: "dot (v - u) w = dot v w - dot u w" "dot w (v - u) = dot w v - dot w u"
  by (simp_all add: dot_def algebra_simps)

lemma dot_add [simp]: "dot (v + u) w = dot v w + dot u w" "dot w (v + u) = dot w v + dot w u"
  by (simp_all add: dot_def algebra_simps)

lemma vscale_vscale [simp]: "vscale a (vscale b v) = vscale (a * b) v"
  by (simp add: vector_eq_iff)

lemma vscale_one [simp]: "vscale 1 v = v" and vscale_zero [simp]: "vscale 0 v = 0"
  by (simp_all add: vector_eq_iff)

lemma vlength_nonneg [simp]: "0 \<le> vlength v"
  by (simp add: vlength_def)

lemma vlength_sq: "vlength v * vlength v = dot v v"
  by (simp add: vlength_def)

lemma vlength_pos: "v \<noteq> 0 \<Longrightarrow> 0 < vlength v"
  by (simp add: vlength_def dot_self_zero_iff order_less_le)

lemma vlength_vscale [simp]: "vlength (vscale k v) = \<bar>k\<bar> * vlength v"
  by (simp add: vlength_def real_sqrt_mult mult.assoc [symmetric] abs_mult_self_eq)

lemma vlength_zero [simp]: "vlength 0 = 0"
  by (simp add: vlength_def dot_def)

lemma vlength_horizontal [simp]: "vlength (Vector a 0) = \<bar>a\<bar>"
  by (simp add: vlength_def dot_def)

lemma vlength_unit_iff: "vlength n = 1 \<longleftrightarrow> dot n n = 1"
  by (simp add: vlength_def)

subsection \<open>Reflection and normalisation\<close>

lemma reflect_zero_normal [simp]: "reflect v 0 = v"
  by (simp add: reflect_def vector_eq_iff)

lemma dot_reflect: "dot n n = 1 \<Longrightarrow> dot (reflect v n) n = - dot v n"
  by (simp add: reflect_def)

text \<open>Reflecting twice about the same unit normal gives the vector back.\<close>

lemma reflect_reflect: "dot n n = 1 \<Longrightarrow> reflect (reflect v n) n = v"
  by (simp add: reflect_def dot_reflect [unfolded reflect_def] vector_eq_iff algebra_simps)

lemma dot_reflect_self: "dot n n = 1 \<Longrightarrow> dot (reflect v n) (reflect v n) = dot v v"
  by (simp add: reflect_def dot_sym [of n v] algebra_simps)

lemma vlength_reflect: "dot n n = 1 \<Longrightarrow> vlength (reflect v n) = vlength v"
  by (simp add: vlength_def dot_reflect_self)

lemma normalize_zero [simp]: "normalize 0 = 0"
  by (simp add: normalize_def)

lemma dot_normalize: "v \<noteq> 0 \<Longrightarrow> dot (normalize v) (normalize v) = 1"
proof -
  assume v: "v \<noteq> 0"
  then have "vlength v * vlength v \<noteq> 0" using vlength_pos [OF v] by simp
  then show ?thesis using v by (simp add: normalize_def vlength_sq [symmetric])
qed

lemma normalize_unit_or_zero: "dot (normalize v) (normalize v) = 1 \<or> normalize v = 0"
  by (cases "v = 0") (simp_all add: dot_normalize)

lemma vlength_reflect_normalize: "vlength (reflect v (normalize d)) = vlength v"
  using normalize_unit_or_zero [of d] by (auto simp: vlength_reflect)

text \<open>Reflection about a normalised direction, without the square root.\<close>

lemma reflect_normalize:
  "reflect v (normalize d) = (if d = 0 then v else v - vscale (2 * dot v d / dot d d) d)"
proof (cases "d = 0")
  case False
  then have "vlength d \<noteq> 0" using vlength_pos by force
  then show ?thesis using False
    by (simp add: reflect_def normalize_def vlength_sq [symmetric] field_simps)
qed simp

lemma unit_directions [geom_simps]:
  "dot Up Up = 1" "dot Down Down = 1" "dot Left Left = 1" "dot Right Right = 1"
  by (simp_all add: Up_def Down_def Left_def Right_def dot_def)

lemma diagonal_directions [geom_simps]:
  "UpAndLeft = Vector (- 1 / sqrt 2) (1 / sqrt 2)"
  "UpAndRight = Vector (1 / sqrt 2) (1 / sqrt 2)"
  "DownAndRight = Vector (1 / sqrt 2) (- 1 / sqrt 2)"
  by (simp_all add: UpAndLeft_def UpAndRight_def DownAndRight_def normalize_def
      vlength_def vscale_def dot_def Vector_ops)

lemma reflect_axis [geom_simps]:
  "reflect v Up = Vector (vx v) (- vy v)" "reflect v Down = Vector (vx v) (- vy v)"
  "reflect v Left = Vector (- vx v) (vy v)" "reflect v Right = Vector (- vx v) (vy v)"
  by (simp_all add: reflect_def Up_def Down_def Left_def Right_def dot_def vector_eq_iff)

end
