(* ===== verification/Sprite.thy ===== *)
theory Sprite
  imports Vector
begin

text \<open>
  Sprites and their collision test. Every entity of the game (ball, wall,
  paddle, brick) is a \<open>ppb.Sprite\<close>: a centre \<open>position\<close> and an extent
  \<open>width \<times> height\<close>, from which the engine derives \<open>top\<close>, \<open>bottom\<close>,
  \<open>left\<close> and \<open>right\<close> (spec section 3). The record \<open>sprite\<close> is extended by
  each entity's own record, as the Python classes extend \<open>ppb.Sprite\<close>, so that
  \<open>collides\<close> (\<open>Ball.collides\<close>, src/3.4-the-blocks/bricks.py) applies to any
  two of them. The lemmas show that \<open>collides\<close> is symmetric and that, for
  sprites of positive size, it is exactly the abstract overlap of two
  axis-aligned boxes (\<open>boxes_overlap\<close>): centres closer than half the combined
  extent on both axes.
\<close>

record sprite =
  position :: vector
  width :: real
  height :: real

definition sprite_top :: "'a sprite_scheme \<Rightarrow> real" where
  "sprite_top s = vy (position s) + height s / 2"

definition sprite_bottom :: "'a sprite_scheme \<Rightarrow> real" where
  "sprite_bottom s = vy (position s) - height s / 2"

definition sprite_left :: "'a sprite_scheme \<Rightarrow> real" where
  "sprite_left s = vx (position s) - width s / 2"

definition sprite_right :: "'a sprite_scheme \<Rightarrow> real" where
  "sprite_right s = vx (position s) + width s / 2"

text \<open>\<open>Ball.collides(self, other)\<close>.\<close>

definition collides :: "'a sprite_scheme \<Rightarrow> 'b sprite_scheme \<Rightarrow> bool" where
  "collides self other =
     (let combined_width = width self + width other;
          combined_height = height self + height other;
          max_vertical = max (sprite_top self) (sprite_top other)
                         - min (sprite_bottom self) (sprite_bottom other);
          max_horizontal = max (sprite_right self) (sprite_right other)
                           - min (sprite_left self) (sprite_left other)
      in max_vertical < combined_height \<and> max_horizontal < combined_width)"

text \<open>The abstract contract: two boxes overlap when their centres are closer than
  half their combined extent on both axes.\<close>

definition boxes_overlap :: "'a sprite_scheme \<Rightarrow> 'b sprite_scheme \<Rightarrow> bool" where
  "boxes_overlap a b \<longleftrightarrow>
     2 * \<bar>vx (position a) - vx (position b)\<bar> < width a + width b \<and>
     2 * \<bar>vy (position a) - vy (position b)\<bar> < height a + height b"

text \<open>Both conjuncts of \<open>collides\<close> are the same test on one axis: the span of
  two intervals with centres \<open>c, d\<close> and lengths \<open>p, q\<close>.\<close>

definition span_below :: "real \<Rightarrow> real \<Rightarrow> real \<Rightarrow> real \<Rightarrow> bool" where
  "span_below c p d q \<longleftrightarrow> max (c + p / 2) (d + q / 2) - min (c - p / 2) (d - q / 2) < p + q"

lemmas sprite_extents [geom_simps] = sprite_top_def sprite_bottom_def sprite_left_def sprite_right_def

subsection \<open>One axis of the test\<close>

lemma span_below_iff:
  "0 < p \<Longrightarrow> 0 < q \<Longrightarrow> span_below c p d q \<longleftrightarrow> 2 * \<bar>c - d\<bar> < p + q"
  by (simp add: span_below_def max_def min_def abs_if) linarith

lemma span_below_sym: "span_below c p d q = span_below d q c p"
  by (simp add: span_below_def max.commute min.commute add.commute)

lemma span_below_far: "p + q \<le> 2 * \<bar>c - d\<bar> \<Longrightarrow> \<not> span_below c p d q"
  by (cases "c < d") (auto simp: span_below_def max_def min_def)

lemma span_below_degenerate: "p = 0 \<Longrightarrow> \<not> span_below c p d q"
  by (simp add: span_below_def max_def min_def)

lemma collides_axes:
  "collides a b \<longleftrightarrow>
     span_below (vy (position a)) (height a) (vy (position b)) (height b) \<and>
     span_below (vx (position a)) (width a) (vx (position b)) (width b)"
  by (simp add: collides_def span_below_def sprite_extents Let_def)

lemma no_collision_far_x:
  "width a + width b \<le> 2 * \<bar>vx (position a) - vx (position b)\<bar> \<Longrightarrow> \<not> collides a b"
  using span_below_far by (simp add: collides_axes)

lemma no_collision_far_y:
  "height a + height b \<le> 2 * \<bar>vy (position a) - vy (position b)\<bar> \<Longrightarrow> \<not> collides a b"
  using span_below_far by (simp add: collides_axes)

lemma collides_close:
  "0 < width a \<Longrightarrow> 0 < width b \<Longrightarrow> 0 < height a \<Longrightarrow> 0 < height b \<Longrightarrow> collides a b \<Longrightarrow>
   2 * \<bar>vx (position a) - vx (position b)\<bar> < width a + width b \<and>
   2 * \<bar>vy (position a) - vy (position b)\<bar> < height a + height b"
  by (simp add: collides_axes span_below_iff)

subsection \<open>Properties of the collision test\<close>

text \<open>\<open>collides\<close> is symmetric: whether the ball hits a wall does not depend on
  which of the two is \<open>self\<close> (spec section 8).\<close>

lemma collides_sym: "collides a b = collides b a"
  by (simp add: collides_axes span_below_sym)

text \<open>C8: for sprites of positive width and height, the union-span test of
  \<open>Ball.collides\<close> implements the abstract overlap of two axis-aligned boxes:
  the centres are closer than half the combined width and half the combined
  height.\<close>

theorem collides_refines_overlap:
  assumes "0 < width a" "0 < width b" "0 < height a" "0 < height b"
  shows "collides a b \<longleftrightarrow> boxes_overlap a b"
  using assms by (auto simp: collides_axes span_below_iff boxes_overlap_def)

theorem collides_refines_overlap_witness:
  "collides \<lparr>position = Vector 0 0, width = 1, height = 1\<rparr>
            \<lparr>position = Vector 0 (1 / 2), width = 26, height = 1\<rparr> \<and>
   boxes_overlap \<lparr>position = Vector 0 0, width = 1, height = 1\<rparr>
            \<lparr>position = Vector 0 (1 / 2), width = 26, height = 1\<rparr>"
proof -
  have "collides \<lparr>position = Vector 0 0, width = 1, height = 1\<rparr>
            \<lparr>position = Vector 0 (1 / 2), width = 26, height = 1\<rparr> \<longleftrightarrow>
        boxes_overlap \<lparr>position = Vector 0 0, width = 1, height = 1\<rparr>
            \<lparr>position = Vector 0 (1 / 2), width = 26, height = 1\<rparr>"
    by (rule collides_refines_overlap) simp_all
  moreover have "boxes_overlap \<lparr>position = Vector 0 0, width = 1, height = 1\<rparr>
            \<lparr>position = Vector 0 (1 / 2), width = 26, height = 1\<rparr>"
    by (simp add: boxes_overlap_def)
  ultimately show ?thesis by simp
qed


end
