(* ===== verification/Events.thy ===== *)
theory Events
  imports Vector
begin

text \<open>
  The interface between the program's components and the engine: the events
  ppb delivers to scenes and sprites (\<open>ppb.events\<close>) and the signals they send
  back. A handler of the program returns the list of events it \<open>signal\<close>s, in
  the order it signals them; the engine (theory \<open>Engine\<close>) appends them to its
  queue. \<open>PreRender\<close> is sent by the engine before each frame is drawn. Keys are \<open>ppb.keycodes\<close>: the program only tests \<open>Left\<close> and
  \<open>Right\<close>, every other key is \<open>KeyOther\<close>. Scene classes are the arguments of
  \<open>StartScene\<close>/\<open>ReplaceScene\<close>; \<open>BrickStruck\<close> carries its target brick
  (\<open>targets=[brick]\<close>) as that brick's identity.
\<close>

datatype key = KeyLeft | KeyRight | KeyOther nat

datatype scene_class = TitleScreen | Game | EndScreen

datatype event =
    Update real
  | PreRender
  | KeyPressed key
  | KeyReleased key
  | ButtonReleased
  | MouseMotion vector
  | StartScene scene_class
  | ReplaceScene scene_class
  | StopScene
  | BrickStruck nat

text \<open>Input events come from the host (the timer and the input devices); the
  others are signals sent by handlers.\<close>

fun is_input :: "event \<Rightarrow> bool" where
  "is_input (Update _) = True"
| "is_input PreRender = True"
| "is_input (KeyPressed _) = True"
| "is_input (KeyReleased _) = True"
| "is_input ButtonReleased = True"
| "is_input (MouseMotion _) = True"
| "is_input _ = False"

end
