(* ===== verification/Brick.thy ===== *)
theory Brick
  imports Sprite Events
begin

text \<open>
  The brick damage state machine (\<open>class Brick\<close>, src/3.4-the-blocks/bricks.py
  lines 111-127). A brick is a sprite with a hit counter \<open>hits\<close> (3 when
  created), its current image (one of three colours) and its identity
  \<open>brick_id\<close>, which stands for Python's object identity: the ball's
  \<open>BrickStruck\<close> signal targets one brick object. \<open>brick_struck\<close> is
  \<open>on_brick_struck\<close> on one brick (\<open>None\<close>: the brick removed itself from the
  scene); \<open>deliver_brick_struck\<close> is the delivery of a targeted \<open>BrickStruck\<close> to
  the scene's list of bricks; \<open>on_pre_render\<close> picks the image from
  \<open>colors[hits - 1]\<close> with Python's indexing, so an index out of range is the
  error \<open>IndexError\<close>.

  The lemmas show: a brick with \<open>h > 0\<close> hits is removed by exactly its
  \<open>h\<close>-th strike and is unchanged in identity before; a signal to a brick no
  longer in the scene does nothing; the invariant \<open>bricks_ok\<close> (distinct
  identities, \<open>1 \<le> hits \<le> 3\<close>) is kept by every strike, and under it
  \<open>on_pre_render\<close> never fails and shows the colour of the hit count. Every strike and every
  \<open>on_pre_render\<close> only wears the bricks (\<open>brick_wears\<close>: same identity, place
  and extent, no more hits), in order, so \<open>remaining_hits\<close> never grows.
\<close>

type_synonym rgb = "nat \<times> nat \<times> nat"

record brick = sprite +
  hits :: int
  image :: rgb
  brick_id :: nat

text \<open>\<open>Brick.colors\<close>: the images \<open>ppb.Rectangle(r, g, b)\<close>, by their colour.\<close>

definition brick_colors :: "rgb list" where
  "brick_colors = [(200, 20, 20), (50, 150, 70), (10, 10, 100)]"

text \<open>\<open>Brick(position=p)\<close>: class attributes \<open>hits = 3\<close>, \<open>width = 2\<close>, the default
  height 1, and \<open>image = colors[hits - 1]\<close>.\<close>

definition new_brick :: "nat \<Rightarrow> vector \<Rightarrow> brick" where
  "new_brick i p =
     \<lparr>position = p, width = 2, height = 1, hits = 3, image = brick_colors ! 2, brick_id = i\<rparr>"

text \<open>\<open>on_brick_struck\<close>: \<open>self.hits -= 1\<close>; if \<open>self.hits <= 0\<close> the brick removes
  itself (\<open>None\<close>).\<close>

definition brick_struck :: "brick \<Rightarrow> brick option" where
  "brick_struck b =
     (let b' = b\<lparr>hits := hits b - 1\<rparr> in if hits b' \<le> 0 then None else Some b')"

text \<open>A \<open>BrickStruck\<close> event targeted at the brick with identity \<open>bid\<close>, delivered
  to the scene's bricks; a target that is no longer in the scene receives
  nothing.\<close>

fun deliver_brick_struck :: "nat \<Rightarrow> brick list \<Rightarrow> brick list" where
  "deliver_brick_struck bid [] = []"
| "deliver_brick_struck bid (b # bs) =
     (if brick_id b = bid
      then (case brick_struck b of None \<Rightarrow> bs | Some b' \<Rightarrow> b' # bs)
      else b # deliver_brick_struck bid bs)"

text \<open>\<open>on_pre_render\<close>: \<open>self.image = self.colors[self.hits - 1]\<close>.\<close>

definition on_pre_render :: "brick \<Rightarrow> brick result" where
  "on_pre_render b =
     (case py_get brick_colors (hits b - 1) of
        Inl e \<Rightarrow> Inl e
      | Inr c \<Rightarrow> Inr (b\<lparr>image := c\<rparr>))"

definition find_brick :: "nat \<Rightarrow> brick list \<Rightarrow> brick option" where
  "find_brick bid bs = find (\<lambda>b. brick_id b = bid) bs"

definition bricks_ok :: "brick list \<Rightarrow> bool" where
  "bricks_ok bs \<longleftrightarrow> distinct (map brick_id bs) \<and> (\<forall>b \<in> set bs. 0 < hits b \<and> hits b \<le> 3)"

text \<open>How a brick may change in the scene: its identity, place and extent stay, its
  hits may only go down. A scene's bricks wear when they embed, in order, in
  those before (\<open>list_emb brick_wears\<close>): no brick is added, none comes back,
  and the insertion order the update loops follow is kept.\<close>

definition brick_wears :: "brick \<Rightarrow> brick \<Rightarrow> bool" where
  "brick_wears b' b \<longleftrightarrow>
     brick_id b' = brick_id b \<and> position b' = position b \<and> width b' = width b \<and>
     height b' = height b \<and> hits b' \<le> hits b"

text \<open>The hits left in a scene's bricks: the strikes still needed to clear it.\<close>

definition remaining_hits :: "brick list \<Rightarrow> int" where
  "remaining_hits bs = sum_list (map hits bs)"

subsection \<open>Delivering a strike\<close>

lemma brick_struck_Some_iff:
  "brick_struck b = Some b' \<longleftrightarrow> 1 < hits b \<and> b' = b\<lparr>hits := hits b - 1\<rparr>"
  by (auto simp: brick_struck_def Let_def)

lemma brick_struck_None_iff: "brick_struck b = None \<longleftrightarrow> hits b \<le> 1"
  by (simp add: brick_struck_def Let_def)

lemma deliver_absent: "bid \<notin> brick_id ` set bs \<Longrightarrow> deliver_brick_struck bid bs = bs"
  by (induction bs) auto

lemma set_ids_deliver: "brick_id ` set (deliver_brick_struck bid bs) \<subseteq> brick_id ` set bs"
  by (induction bs) (auto simp: brick_struck_Some_iff split: option.splits)

lemma distinct_deliver:
  "distinct (map brick_id bs) \<Longrightarrow> distinct (map brick_id (deliver_brick_struck bid bs))"
proof (induction bs)
  case (Cons b bs)
  then show ?case
    using set_ids_deliver [of bid bs]
    by (auto simp: brick_struck_Some_iff split: option.splits)
qed simp

lemma on_pre_render_Inr:
  "on_pre_render b = Inr b' \<Longrightarrow> b' = b\<lparr>image := image b'\<rparr> \<and> image b' \<in> set brick_colors"
  by (auto simp: on_pre_render_def dest: py_get_in_set split: sum.splits)

lemma set_deliver:
  "set (deliver_brick_struck bid bs) \<subseteq> set bs \<union> {b\<lparr>hits := hits b - 1\<rparr> | b. b \<in> set bs \<and> 1 < hits b}"
  by (induction bs) (auto simp: brick_struck_Some_iff split: option.splits)

lemma find_brick_deliver_other:
  "i \<noteq> bid \<Longrightarrow> find_brick i (deliver_brick_struck bid bs) = find_brick i bs"
  by (induction bs) (auto simp: find_brick_def brick_struck_Some_iff split: option.splits)

lemma find_brick_None_iff: "find_brick i bs = None \<longleftrightarrow> i \<notin> brick_id ` set bs"
  by (auto simp: find_brick_def find_None_iff)

lemma find_brick_deliver_self:
  "distinct (map brick_id bs) \<Longrightarrow>
   find_brick bid (deliver_brick_struck bid bs) =
     (case find_brick bid bs of None \<Rightarrow> None | Some b \<Rightarrow> brick_struck b)"
proof (induction bs)
  case (Cons b bs)
  show ?case
  proof (cases "brick_id b = bid")
    case True
    with Cons.prems have "bid \<notin> brick_id ` set bs" by auto
    then have "find_brick bid bs = None" by (simp add: find_brick_None_iff)
    with True show ?thesis
      by (auto simp: find_brick_def brick_struck_def Let_def)
  next
    case False
    with Cons show ?thesis by (simp add: find_brick_def)
  qed
qed (simp add: find_brick_def)

lemma distinct_deliver_iter:
  "distinct (map brick_id bs) \<Longrightarrow> distinct (map brick_id ((deliver_brick_struck bid ^^ k) bs))"
  by (induction k) (simp_all add: distinct_deliver)

lemma bricks_ok_deliver: "bricks_ok bs \<Longrightarrow> bricks_ok (deliver_brick_struck bid bs)"
  using set_deliver [of bid bs] distinct_deliver [of bs bid]
  by (fastforce simp: bricks_ok_def)

subsection \<open>Bricks only wear\<close>

lemma brick_wears_refl [simp]: "brick_wears b b"
  by (simp add: brick_wears_def)

lemma bricks_wear_refl [simp]: "list_emb brick_wears bs bs"
  by (rule list_emb_refl) simp

lemma bricks_wear_trans:
  "list_emb brick_wears xs ys \<Longrightarrow> list_emb brick_wears ys zs \<Longrightarrow> list_emb brick_wears xs zs"
  by (rule list_emb_trans [where ys = ys]) (auto simp: brick_wears_def)

lemma deliver_wears: "list_emb brick_wears (deliver_brick_struck bid bs) bs"
proof (induction bs)
  case (Cons b bs)
  have "brick_wears b' b" if "brick_struck b = Some b'" for b'
    using that by (auto simp: brick_struck_Some_iff brick_wears_def)
  then show ?case using Cons.IH by (auto split: option.splits)
qed simp

lemma fold_deliver_wears: "list_emb brick_wears (fold deliver_brick_struck ids bs) bs"
proof (induction ids arbitrary: bs)
  case (Cons bid ids)
  then show ?case using deliver_wears bricks_wear_trans by fastforce
qed simp

lemma pre_render_wears:
  "map_result on_pre_render bs = Inr bs' \<Longrightarrow> list_emb brick_wears bs' bs"
  by (rule list_all2_list_emb, erule map_result_list_all2)
     (auto simp: brick_wears_def on_pre_render_def split: sum.splits)

lemma wears_remaining_hits:
  assumes "list_emb brick_wears bs' bs" and "\<forall>b \<in> set bs. 0 \<le> hits b"
  shows "remaining_hits bs' \<le> remaining_hits bs"
  using assms
proof (induction rule: list_emb.induct)
  case (list_emb_Nil ys)
  then show ?case by (auto simp: remaining_hits_def intro!: sum_list_nonneg)
qed (auto simp: remaining_hits_def brick_wears_def)

text \<open>Each strike at a brick of the scene takes exactly one of the hits left.\<close>

lemma ids_deliver: "brick_id ` set bs - {bid} \<subseteq> brick_id ` set (deliver_brick_struck bid bs)"
  by (induction bs) (auto simp: brick_struck_Some_iff split: option.splits)

lemma remaining_hits_deliver:
  assumes "bricks_ok bs" and "bid \<in> brick_id ` set bs"
  shows "remaining_hits (deliver_brick_struck bid bs) = remaining_hits bs - 1"
  using assms
proof (induction bs)
  case (Cons b bs)
  have ok: "bricks_ok bs" and h: "0 < hits b" using Cons.prems(1) by (auto simp: bricks_ok_def)
  show ?case
  proof (cases "brick_id b = bid")
    case True
    then show ?thesis using h
      by (auto simp: remaining_hits_def brick_struck_def Let_def)
  next
    case False
    then show ?thesis using Cons.IH [OF ok] Cons.prems(2) by (simp add: remaining_hits_def)
  qed
qed simp

lemma remaining_hits_fold_deliver:
  assumes "bricks_ok bs" and "distinct ids" and "set ids \<subseteq> brick_id ` set bs"
  shows "remaining_hits (fold deliver_brick_struck ids bs) = remaining_hits bs - int (length ids)"
  using assms
proof (induction ids arbitrary: bs)
  case (Cons bid ids)
  have "set ids \<subseteq> brick_id ` set (deliver_brick_struck bid bs)"
    using Cons.prems(2,3) ids_deliver [of bs bid] by auto
  then show ?case
    using Cons.IH [OF bricks_ok_deliver [OF Cons.prems(1)]] Cons.prems
      remaining_hits_deliver [OF Cons.prems(1), of bid] by simp
qed simp

subsection \<open>Properties of the damage state machine\<close>

lemma bricks_ok_fold_deliver: "bricks_ok bs \<Longrightarrow> bricks_ok (fold deliver_brick_struck ids bs)"
  by (induction ids arbitrary: bs) (simp_all add: bricks_ok_deliver)

text \<open>C7: a brick with \<open>h > 0\<close> hits left in a scene of bricks with distinct
  identities survives the first \<open>h - 1\<close> strikes targeted at it, each taking one
  hit, and is gone from the scene after the \<open>h\<close>-th; strikes after its removal
  change nothing (spec sections 4.4 and 8).\<close>

theorem brick_removed_after_exactly_hits:
  assumes "distinct (map brick_id bs)" and "find_brick bid bs = Some b" and "0 < hits b"
  shows "find_brick bid ((deliver_brick_struck bid ^^ k) bs) =
           (if int k < hits b then Some (b\<lparr>hits := hits b - int k\<rparr>) else None)"
proof (induction k)
  case 0
  then show ?case using assms(2,3) by simp
next
  case (Suc k)
  have d: "distinct (map brick_id ((deliver_brick_struck bid ^^ k) bs))"
    using assms(1) by (rule distinct_deliver_iter)
  show ?case
    using find_brick_deliver_self [OF d] Suc.IH
    by (auto simp: brick_struck_def Let_def)
qed

theorem brick_removed_after_exactly_hits_witness:
  "find_brick 0 ((deliver_brick_struck 0 ^^ 2) [new_brick 0 (Vector 0 0)]) =
     Some ((new_brick 0 (Vector 0 0))\<lparr>hits := 1\<rparr>) \<and>
   find_brick 0 ((deliver_brick_struck 0 ^^ 3) [new_brick 0 (Vector 0 0)]) = None"
proof -
  have a: "distinct (map brick_id [new_brick 0 (Vector 0 0)])"
    and b: "find_brick 0 [new_brick 0 (Vector 0 0)] = Some (new_brick 0 (Vector 0 0))"
    and c: "0 < hits (new_brick 0 (Vector 0 0))"
    by (simp_all add: find_brick_def new_brick_def)
  show ?thesis
    using brick_removed_after_exactly_hits [OF a b c, of 2]
          brick_removed_after_exactly_hits [OF a b c, of 3]
    by (simp add: new_brick_def)
qed

text \<open>C27: in a scene whose bricks satisfy \<open>bricks_ok\<close>, \<open>on_pre_render\<close> never
  raises and sets the image to the colour of the hit count: blue with 3 hits
  left, green with 2, red with 1.\<close>

theorem pre_render_tier:
  assumes "bricks_ok bs" and "b \<in> set bs"
  shows "on_pre_render b =
           Inr (b\<lparr>image := (if hits b = 3 then (10, 10, 100)
                             else if hits b = 2 then (50, 150, 70) else (200, 20, 20))\<rparr>)"
proof -
  from assms have h: "0 < hits b" "hits b \<le> 3" by (auto simp: bricks_ok_def)
  then have "hits b = 1 \<or> hits b = 2 \<or> hits b = 3" by linarith
  then show ?thesis by (auto simp: on_pre_render_def brick_colors_def)
qed

theorem pre_render_tier_witness:
  "on_pre_render (new_brick 7 (Vector 3 4)) = Inr (new_brick 7 (Vector 3 4))"
proof -
  have "bricks_ok [new_brick 7 (Vector 3 4)]" by (simp add: bricks_ok_def new_brick_def)
  from pre_render_tier [OF this] show ?thesis by (simp add: new_brick_def brick_colors_def)
qed

text \<open>C28: \<open>on_pre_render\<close> raises \<open>IndexError\<close> exactly when \<open>hits - 1\<close> is no
  valid index of the three colours, i.e. \<open>hits < -2\<close> or \<open>hits > 3\<close>; a brick at 0
  hits would be drawn with \<open>colors[-1]\<close>, the colour of a fresh brick.\<close>

theorem pre_render_error_iff:
  "on_pre_render b = Inl IndexError \<longleftrightarrow> hits b < -2 \<or> 3 < hits b"
  by (auto simp: on_pre_render_def py_get_def brick_colors_def split: sum.splits)

end
