(* ===== verification/Paddle.thy ===== *)
theory Paddle
  imports Sprite Events
begin

text \<open>
  The paddle control model (\<open>class Paddle\<close>, src/3.4-the-blocks/bricks.py
  lines 57-108). The paddle is a sprite with a control scheme (\<open>None\<close> until the
  first input, then keyboard or mouse), two direction flags, the mouse target
  (\<open>None\<close> until the mouse first moves) and a speed. \<open>paddle_on_key_pressed\<close>,
  \<open>paddle_on_key_released\<close> and \<open>paddle_on_mouse_motion\<close> are the input handlers;
  \<open>paddle_on_update\<close> is the per-tick motion. In the mouse scheme the code
  computes \<open>self.mouse_vector - self.position\<close>; with \<open>mouse_vector = None\<close> that
  raises \<open>TypeError\<close>, which the model returns as an error value.

  The lemmas show: the invariant \<open>paddle_ok\<close> (mouse scheme only with a mouse
  target, the target on the paddle's own height) is kept by every handler, so
  the update never raises; the paddle never moves vertically; under the mouse
  scheme it never overshoots its target; under the keyboard scheme it moves by
  exactly \<open>speed * dt\<close> when one direction is held and not at all when both or
  neither are.
\<close>

datatype control = MOUSE_CONTROLS | KEYBOARD_CONTROLS

record paddle = sprite +
  control_scheme :: "control option"
  control_left :: bool
  control_right :: bool
  mouse_vector :: "vector option"
  speed :: real

text \<open>\<open>Paddle(position=p)\<close> with its class attributes: \<open>width = 3\<close>,
  \<open>height = 1\<close>, \<open>speed = 10\<close>, no control scheme, no flag, no mouse target.\<close>

definition new_paddle :: "vector \<Rightarrow> paddle" where
  "new_paddle p =
     \<lparr>position = p, width = 3, height = 1, control_scheme = None,
      control_left = False, control_right = False, mouse_vector = None, speed = 10\<rparr>"

text \<open>\<open>on_update\<close>: the keyboard block, then the mouse block.\<close>

definition keyboard_move :: "real \<Rightarrow> paddle \<Rightarrow> paddle" where
  "keyboard_move dt p =
     (let movement_vector = Vector 0 0;
          movement_vector = (if control_right p then movement_vector + Right else movement_vector);
          movement_vector = (if control_left p then movement_vector + Left else movement_vector)
      in if movement_vector \<noteq> 0
         then p\<lparr>position := position p + vscale dt (vscale (speed p) (normalize movement_vector))\<rparr>
         else p)"

definition mouse_move :: "real \<Rightarrow> paddle \<Rightarrow> paddle result" where
  "mouse_move dt p =
     (case mouse_vector p of
        None \<Rightarrow> Inl TypeError
      | Some target \<Rightarrow>
          (let to_position = target - position p
           in if to_position \<noteq> 0
              then (let movement_delta = vscale dt (vscale (speed p) (normalize to_position));
                        movement_delta = (if vlength movement_delta > vlength to_position
                                          then to_position else movement_delta)
                    in Inr (p\<lparr>position := position p + movement_delta\<rparr>))
              else Inr p))"

definition paddle_on_update :: "real \<Rightarrow> paddle \<Rightarrow> paddle result" where
  "paddle_on_update dt p =
     (let p = (if control_scheme p = Some KEYBOARD_CONTROLS then keyboard_move dt p else p)
      in if control_scheme p = Some MOUSE_CONTROLS then mouse_move dt p else Inr p)"

definition paddle_on_key_pressed :: "key \<Rightarrow> paddle \<Rightarrow> paddle" where
  "paddle_on_key_pressed k p =
     (if k = KeyLeft then p\<lparr>control_left := True, control_scheme := Some KEYBOARD_CONTROLS\<rparr>
      else if k = KeyRight then p\<lparr>control_right := True, control_scheme := Some KEYBOARD_CONTROLS\<rparr>
      else p)"

definition paddle_on_key_released :: "key \<Rightarrow> paddle \<Rightarrow> paddle" where
  "paddle_on_key_released k p =
     (if k = KeyLeft then p\<lparr>control_left := False\<rparr>
      else if k = KeyRight then p\<lparr>control_right := False\<rparr>
      else p)"

definition paddle_on_mouse_motion :: "vector \<Rightarrow> paddle \<Rightarrow> paddle" where
  "paddle_on_mouse_motion pos p =
     p\<lparr>mouse_vector := Some (Vector (vx pos) (vy (position p))),
       control_scheme := Some MOUSE_CONTROLS\<rparr>"

text \<open>What the code relies on between the fields: the mouse scheme is only set
  together with a mouse target, and the target is at the paddle's height.\<close>

definition paddle_ok :: "paddle \<Rightarrow> bool" where
  "paddle_ok p \<longleftrightarrow>
     (control_scheme p = Some MOUSE_CONTROLS \<longrightarrow> mouse_vector p \<noteq> None) \<and>
     (case mouse_vector p of None \<Rightarrow> True | Some t \<Rightarrow> vy t = vy (position p))"

text \<open>The paddle over \<open>n\<close> ticks of the same time step: its \<open>on_update\<close> once per
  frame.\<close>

fun paddle_ticks :: "nat \<Rightarrow> real \<Rightarrow> paddle \<Rightarrow> paddle result" where
  "paddle_ticks 0 dt p = Inr p"
| "paddle_ticks (Suc n) dt p =
     (case paddle_on_update dt p of Inl e \<Rightarrow> Inl e | Inr p' \<Rightarrow> paddle_ticks n dt p')"

subsection \<open>Motion\<close>

lemma normalize_axis [simp]: "normalize Right = Right" "normalize Left = Left"
  by (simp_all add: normalize_def vlength_def Right_def Left_def dot_def vector_eq_iff)

text \<open>The keyboard block moves the paddle along \<open>x\<close> by \<open>speed * dt\<close> towards the
  one held direction.\<close>

lemma keyboard_move_position:
  "position (keyboard_move dt p) =
     position p + Vector ((if control_right p \<and> \<not> control_left p then 1
                           else if control_left p \<and> \<not> control_right p then -1 else 0)
                          * speed p * dt) 0"
  by (auto simp: keyboard_move_def Let_def Right_def Left_def vector_eq_iff normalize_def
      vlength_def dot_def)

lemma keyboard_move_fields [simp]:
  "control_scheme (keyboard_move dt p) = control_scheme p"
  "mouse_vector (keyboard_move dt p) = mouse_vector p"
  "speed (keyboard_move dt p) = speed p"
  "control_left (keyboard_move dt p) = control_left p"
  "control_right (keyboard_move dt p) = control_right p"
  by (simp_all add: keyboard_move_def Let_def)

lemma keyboard_move_vy [simp]: "vy (position (keyboard_move dt p)) = vy (position p)"
  by (simp add: keyboard_move_position)

lemma towards_target: "t - (p + vscale k (t - p)) = vscale (1 - k) (t - p)"
  by (simp add: vector_eq_iff algebra_simps)

text \<open>One mouse step: the paddle lands on the target if it is within reach,
  otherwise it moves \<open>speed * dt\<close> straight towards it.\<close>

lemma mouse_move_Some:
  assumes "mouse_vector p = Some t"
  shows "mouse_move dt p =
           Inr (p\<lparr>position :=
              (if t = position p then position p
               else if \<bar>dt * speed p\<bar> > vlength (t - position p) then t
               else position p + vscale (dt * speed p / vlength (t - position p)) (t - position p))\<rparr>)"
proof (cases "t = position p")
  case False
  then have L: "0 < vlength (t - position p)" using vlength_pos by simp
  then show ?thesis using assms False
    by (simp add: mouse_move_def Let_def normalize_def mult.commute)
qed (simp add: mouse_move_def assms)

lemma mouse_move_fields [simp]:
  "mouse_move dt p = Inr p' \<Longrightarrow> control_scheme p' = control_scheme p \<and> mouse_vector p' = mouse_vector p
     \<and> speed p' = speed p \<and> control_left p' = control_left p \<and> control_right p' = control_right p"
  by (auto simp: mouse_move_def Let_def split: option.splits if_splits)

lemma mouse_move_vy:
  assumes "mouse_vector p = Some t" and "vy t = vy (position p)"
  shows "mouse_move dt p = Inr p' \<Longrightarrow> vy (position p') = vy (position p)"
  using assms by (auto simp: mouse_move_Some)

text \<open>The paddle's motion changes only its position.\<close>

lemma keyboard_move_frame: "keyboard_move dt p = p\<lparr>position := position (keyboard_move dt p)\<rparr>"
  by (simp add: keyboard_move_def Let_def)

lemma mouse_move_frame: "mouse_move dt p = Inr p' \<Longrightarrow> p' = p\<lparr>position := position p'\<rparr>"
proof (cases "mouse_vector p")
  case None
  then show "mouse_move dt p = Inr p' \<Longrightarrow> p' = p\<lparr>position := position p'\<rparr>"
    by (simp add: mouse_move_def)
next
  case (Some t)
  then show "mouse_move dt p = Inr p' \<Longrightarrow> p' = p\<lparr>position := position p'\<rparr>"
    using mouse_move_Some [OF Some, of dt] by auto
qed

lemma paddle_update_frame: "paddle_on_update dt p = Inr p' \<Longrightarrow> p' = p\<lparr>position := position p'\<rparr>"
  unfolding paddle_on_update_def Let_def
  by (auto dest!: mouse_move_frame split: if_splits intro: keyboard_move_frame)

lemma paddle_update_extent:
  "paddle_on_update dt p = Inr p' \<Longrightarrow> width p' = width p \<and> height p' = height p"
  by (drule paddle_update_frame) (metis paddle.simps(1) sprite.ext_inject sprite.update_convs(1)
      paddle.surjective)

text \<open>One step of the paddle under either scheme moves it by at most
  \<open>speed * dt\<close>.\<close>

lemma keyboard_step_bound:
  "0 \<le> dt \<Longrightarrow> 0 \<le> speed p \<Longrightarrow> vlength (position (keyboard_move dt p) - position p) \<le> speed p * dt"
  by (simp add: keyboard_move_position Vector_ops abs_mult)

lemma mouse_move_position:
  assumes "mouse_vector p = Some t" and "mouse_move dt p = Inr p'"
  shows "position p' =
           (if t = position p then position p
            else if \<bar>dt * speed p\<bar> > vlength (t - position p) then t
            else position p + vscale (dt * speed p / vlength (t - position p)) (t - position p))"
proof -
  have "p\<lparr>position := (if t = position p then position p
            else if \<bar>dt * speed p\<bar> > vlength (t - position p) then t
            else position p + vscale (dt * speed p / vlength (t - position p)) (t - position p))\<rparr> = p'"
    using assms(2) mouse_move_Some [OF assms(1), of dt] by simp
  from this [symmetric] show ?thesis by simp
qed

lemma mouse_step_bound:
  assumes "mouse_vector p = Some t" and "0 \<le> dt" and "0 \<le> speed p" and "mouse_move dt p = Inr p'"
  shows "vlength (position p' - position p) \<le> speed p * dt"
proof -
  have s: "\<bar>dt * speed p\<bar> = speed p * dt" using assms(2,3) by (simp add: mult.commute)
  note p' = mouse_move_position [OF assms(1,4)]
  consider "t = position p" | "t \<noteq> position p" "\<bar>dt * speed p\<bar> > vlength (t - position p)"
    | "t \<noteq> position p" "\<not> \<bar>dt * speed p\<bar> > vlength (t - position p)" by blast
  then show ?thesis
  proof cases
    case 1
    then show ?thesis using p' assms(2,3) by simp
  next
    case 2
    then show ?thesis using p' s by simp
  next
    case 3
    then have L: "0 < vlength (t - position p)" using vlength_pos by simp
    have "vlength (position p' - position p) = \<bar>dt * speed p\<bar> / vlength (t - position p) * vlength (t - position p)"
      using p' 3 by (simp add: abs_divide)
    also have "\<dots> = speed p * dt" using L s by simp
    finally show ?thesis by simp
  qed
qed

subsection \<open>The invariant\<close>

lemma paddle_ok_new [simp]: "paddle_ok (new_paddle v)"
  by (simp add: paddle_ok_def new_paddle_def)

lemma paddle_ok_key_pressed: "paddle_ok p \<Longrightarrow> paddle_ok (paddle_on_key_pressed k p)"
  by (auto simp: paddle_ok_def paddle_on_key_pressed_def split: option.splits)

lemma paddle_ok_key_released: "paddle_ok p \<Longrightarrow> paddle_ok (paddle_on_key_released k p)"
  by (auto simp: paddle_ok_def paddle_on_key_released_def split: option.splits)

lemma paddle_ok_mouse_motion: "paddle_ok (paddle_on_mouse_motion v p)"
  by (simp add: paddle_ok_def paddle_on_mouse_motion_def)

lemma paddle_ok_keyboard_move: "paddle_ok p \<Longrightarrow> paddle_ok (keyboard_move dt p)"
  by (simp add: paddle_ok_def split: option.splits)

lemma paddle_update_ok:
  assumes "paddle_ok p"
  shows "\<exists>p'. paddle_on_update dt p = Inr p' \<and> paddle_ok p' \<and> vy (position p') = vy (position p)"
proof -
  let ?q = "if control_scheme p = Some KEYBOARD_CONTROLS then keyboard_move dt p else p"
  have q: "paddle_ok ?q" "vy (position ?q) = vy (position p)" "control_scheme ?q = control_scheme p"
    using assms paddle_ok_keyboard_move by auto
  show ?thesis
  proof (cases "control_scheme p = Some MOUSE_CONTROLS")
    case True
    with q obtain t where t: "mouse_vector ?q = Some t" "vy t = vy (position ?q)"
      by (auto simp: paddle_ok_def)
    obtain r where r: "mouse_move dt ?q = Inr r" using mouse_move_Some [OF t(1)] by blast
    moreover have "vy (position r) = vy (position ?q)" using mouse_move_vy [OF t r] .
    moreover have "mouse_vector r = mouse_vector ?q" "control_scheme r = control_scheme ?q"
      using mouse_move_fields [OF r] by simp_all
    ultimately show ?thesis using True q t
      by (auto simp: paddle_on_update_def Let_def paddle_ok_def)
  next
    case False
    then show ?thesis using q by (simp add: paddle_on_update_def Let_def)
  qed
qed

subsection \<open>Properties of the paddle motion\<close>

text \<open>One mouse step, and what it keeps: everything but the position.\<close>

lemma mouse_step:
  assumes "control_scheme p = Some MOUSE_CONTROLS" and "mouse_vector p = Some t"
    and "0 \<le> dt" and "0 \<le> speed p"
  shows "\<exists>p'. paddle_on_update dt p = Inr p' \<and> p' = p\<lparr>position := position p'\<rparr> \<and>
              vlength (t - position p') = max 0 (vlength (t - position p) - speed p * dt)"
proof -
  let ?L = "vlength (t - position p)" and ?s = "dt * speed p"
  have s: "0 \<le> ?s" "\<bar>?s\<bar> = ?s" using assms(3,4) by simp_all
  have upd: "paddle_on_update dt p = mouse_move dt p"
    using assms(1) by (simp add: paddle_on_update_def)
  have "vlength (t - position (the (Some (p\<lparr>position :=
              (if t = position p then position p else if ?s > ?L then t
               else position p + vscale (?s / ?L) (t - position p))\<rparr>))))
        = max 0 (?L - speed p * dt)"
  proof (cases "t = position p")
    case True
    then show ?thesis using s by (simp add: vlength_def dot_def mult.commute)
  next
    case False
    then have L: "0 < ?L" using vlength_pos by simp
    show ?thesis
    proof (cases "?s > ?L")
      case True
      then show ?thesis using False by (simp add: vlength_def dot_def mult.commute)
    next
      case near: False
      then have "0 \<le> 1 - ?s / ?L" using L by (simp add: field_simps)
      then have "vlength (vscale (1 - ?s / ?L) (t - position p)) = ?L - ?s"
        using L by (simp add: algebra_simps)
      then show ?thesis using False near by (simp add: towards_target mult.commute)
    qed
  qed
  then show ?thesis using upd mouse_move_Some [OF assms(2), of dt] s by simp
qed

text \<open>C15: under the mouse scheme one tick never overshoots the target: with
  \<open>dt \<ge> 0\<close> and \<open>speed \<ge> 0\<close> the update succeeds and the distance to the target
  becomes exactly \<open>max 0 (d - speed * dt)\<close>, where \<open>d\<close> is the distance before
  (spec sections 4.5 and 8).\<close>

theorem mouse_update_distance:
  assumes "control_scheme p = Some MOUSE_CONTROLS" and "mouse_vector p = Some t"
    and "0 \<le> dt" and "0 \<le> speed p"
  shows "\<exists>p'. paddle_on_update dt p = Inr p' \<and>
              vlength (t - position p') = max 0 (vlength (t - position p) - speed p * dt)"
  using mouse_step [OF assms] by blast

theorem mouse_update_distance_witness:
  "paddle_on_update 1 ((new_paddle (Vector 0 0))\<lparr>control_scheme := Some MOUSE_CONTROLS,
                          mouse_vector := Some (Vector 25 0)\<rparr>) =
     Inr ((new_paddle (Vector 10 0))\<lparr>control_scheme := Some MOUSE_CONTROLS,
                          mouse_vector := Some (Vector 25 0)\<rparr>)
   \<and> (\<exists>p'. paddle_on_update 1 ((new_paddle (Vector 0 0))\<lparr>control_scheme := Some MOUSE_CONTROLS,
                          mouse_vector := Some (Vector 25 0)\<rparr>) = Inr p' \<and>
          vlength (Vector 25 0 - position p') = 15)"
proof -
  let ?p = "(new_paddle (Vector 0 0))\<lparr>control_scheme := Some MOUSE_CONTROLS,
                          mouse_vector := Some (Vector 25 0)\<rparr>"
  have "\<exists>p'. paddle_on_update 1 ?p = Inr p' \<and>
          vlength (Vector 25 0 - position p') = max 0 (vlength (Vector 25 0 - position ?p) - speed ?p * 1)"
    by (rule mouse_update_distance) (simp_all add: new_paddle_def)
  moreover have "vlength (Vector 25 0 - position ?p) = 25"
    by (simp add: new_paddle_def vlength_def Vector_ops)
  moreover have "paddle_on_update 1 ?p =
     Inr ((new_paddle (Vector 10 0))\<lparr>control_scheme := Some MOUSE_CONTROLS,
                          mouse_vector := Some (Vector 25 0)\<rparr>)"
    by (simp add: paddle_on_update_def mouse_move_Some new_paddle_def vlength_def Vector_ops)
  ultimately show ?thesis by (simp add: new_paddle_def)
qed

text \<open>C16: under the mouse scheme the paddle reaches its target and stays on it:
  with a positive time step and speed, after any number \<open>n\<close> of ticks with
  \<open>n * speed * dt\<close> at least the distance to the target, every update succeeds
  and the paddle is on the target (spec sections 4.5 and 8).\<close>

theorem mouse_reaches_target:
  assumes "control_scheme p = Some MOUSE_CONTROLS" and "mouse_vector p = Some t"
    and "0 < dt" and "0 < speed p" and "vlength (t - position p) \<le> real n * (speed p * dt)"
  shows "\<exists>p'. paddle_ticks n dt p = Inr p' \<and> position p' = t"
  using assms
proof (induction n arbitrary: p)
  case 0
  then have "vlength (t - position p) = 0" using vlength_nonneg [of "t - position p"] by simp
  then have "t = position p" using vlength_pos [of "t - position p"] by (cases "t = position p") auto
  then show ?case by simp
next
  case (Suc n)
  obtain p1 where p1: "paddle_on_update dt p = Inr p1" "p1 = p\<lparr>position := position p1\<rparr>"
    "vlength (t - position p1) = max 0 (vlength (t - position p) - speed p * dt)"
    using mouse_step [OF Suc.prems(1,2) less_imp_le [OF Suc.prems(3)] less_imp_le [OF Suc.prems(4)]]
    by blast
  have "control_scheme p1 = Some MOUSE_CONTROLS" "mouse_vector p1 = Some t" "speed p1 = speed p"
    using arg_cong [OF p1(2), of control_scheme] arg_cong [OF p1(2), of mouse_vector]
      arg_cong [OF p1(2), of speed] Suc.prems(1,2) by simp_all
  moreover have "vlength (t - position p1) \<le> real n * (speed p * dt)"
    using p1(3) Suc.prems(3,4,5) by (simp add: algebra_simps)
  ultimately obtain p' where "paddle_ticks n dt p1 = Inr p'" "position p' = t"
    using Suc.IH [of p1] Suc.prems(3,4) by auto
  then show ?case using p1(1) by simp
qed

theorem mouse_reaches_target_witness:
  "\<exists>p'. paddle_ticks 3 1 ((new_paddle (Vector 0 0))\<lparr>control_scheme := Some MOUSE_CONTROLS,
                                 mouse_vector := Some (Vector 25 0)\<rparr>) = Inr p' \<and>
        position p' = Vector 25 0"
  by (rule mouse_reaches_target) (simp_all add: new_paddle_def vlength_def Vector_ops)

text \<open>C17: under the keyboard scheme one tick moves the paddle along \<open>x\<close> by
  \<open>speed * dt\<close> to the right when only Right is held, to the left when only
  Left is held, and not at all when both or neither are; nothing else
  changes.\<close>

theorem keyboard_update_displacement:
  assumes "control_scheme p = Some KEYBOARD_CONTROLS"
  shows "paddle_on_update dt p =
           Inr (p\<lparr>position := position p +
                  Vector ((if control_right p \<and> \<not> control_left p then 1
                           else if control_left p \<and> \<not> control_right p then -1 else 0)
                          * speed p * dt) 0\<rparr>)"
proof -
  have "keyboard_move dt p = p\<lparr>position := position (keyboard_move dt p)\<rparr>"
    by (simp add: keyboard_move_def Let_def)
  then show ?thesis using assms
    by (simp add: paddle_on_update_def keyboard_move_position)
qed

theorem keyboard_update_displacement_witness:
  "paddle_on_update (1 / 2) (paddle_on_key_pressed KeyRight (new_paddle (Vector 0 (-14)))) =
     Inr ((paddle_on_key_pressed KeyRight (new_paddle (Vector 0 (-14))))\<lparr>position := Vector 5 (-14)\<rparr>)"
  using keyboard_update_displacement [of "paddle_on_key_pressed KeyRight (new_paddle (Vector 0 (-14)))" "1 / 2"]
  by (simp add: paddle_on_key_pressed_def new_paddle_def Vector_ops)

text \<open>C18: the two control schemes are never combined: after a mouse motion the next
  update only follows the mouse, whatever keys are still held, and after a
  press of Left or Right it only applies the keyboard, whatever mouse target
  is recorded (spec section 4.5).\<close>

theorem last_input_selects_scheme:
  "paddle_on_update dt (paddle_on_mouse_motion v p) = mouse_move dt (paddle_on_mouse_motion v p) \<and>
   paddle_on_update dt (paddle_on_key_pressed KeyLeft p) = Inr (keyboard_move dt (paddle_on_key_pressed KeyLeft p)) \<and>
   paddle_on_update dt (paddle_on_key_pressed KeyRight p) = Inr (keyboard_move dt (paddle_on_key_pressed KeyRight p))"
  by (simp add: paddle_on_update_def paddle_on_mouse_motion_def paddle_on_key_pressed_def)

text \<open>C19: one update of a paddle in a sound control state, with \<open>dt \<ge> 0\<close> and
  \<open>speed \<ge> 0\<close>, never raises, changes nothing but the position, keeps the
  paddle at its height, and moves it by at most \<open>speed * dt\<close>, under either
  scheme (the keyboard moves it by exactly that or not at all; the mouse by
  that or less when the target is nearer).\<close>

theorem paddle_step_bounded:
  assumes "paddle_ok p" and "0 \<le> dt" and "0 \<le> speed p"
  shows "\<exists>p'. paddle_on_update dt p = Inr p' \<and> p' = p\<lparr>position := position p'\<rparr> \<and>
              vy (position p') = vy (position p) \<and> vlength (position p' - position p) \<le> speed p * dt"
proof -
  obtain p' where p': "paddle_on_update dt p = Inr p'" "vy (position p') = vy (position p)"
    using paddle_update_ok [OF assms(1), of dt] by blast
  have "vlength (position p' - position p) \<le> speed p * dt"
  proof (cases "control_scheme p")
    case None
    then show ?thesis using p'(1) assms(2,3) by (simp add: paddle_on_update_def)
  next
    case (Some c)
    show ?thesis
    proof (cases c)
      case MOUSE_CONTROLS
      then obtain t where "mouse_vector p = Some t" using assms(1) Some by (auto simp: paddle_ok_def)
      moreover have "mouse_move dt p = Inr p'" using p'(1) Some MOUSE_CONTROLS by (simp add: paddle_on_update_def)
      ultimately show ?thesis using mouse_step_bound assms(2,3) by blast
    next
      case KEYBOARD_CONTROLS
      then have "p' = keyboard_move dt p" using p'(1) Some by (simp add: paddle_on_update_def)
      then show ?thesis using keyboard_step_bound assms(2,3) by simp
    qed
  qed
  then show ?thesis using p' paddle_update_frame [OF p'(1)] by blast
qed

theorem paddle_step_bounded_witness:
  "\<exists>p'. paddle_on_update (1 / 2) (paddle_on_key_pressed KeyRight (new_paddle (Vector 0 (-14)))) = Inr p' \<and>
        vlength (position p' - Vector 0 (-14)) \<le> 5"
proof -
  let ?p = "paddle_on_key_pressed KeyRight (new_paddle (Vector 0 (-14)))"
  have ok: "paddle_ok ?p" by (rule paddle_ok_key_pressed) simp
  have sp: "speed ?p = 10" "position ?p = Vector 0 (-14)"
    by (simp_all add: paddle_on_key_pressed_def new_paddle_def)
  show ?thesis using paddle_step_bounded [OF ok, of "1 / 2"] sp by auto
qed

end
