(* ===== verification/Ball.thy ===== *)
theory Ball
  imports Brick Paddle
begin

text \<open>
  The ball and the walls, and the ball's per-tick update, the core of the
  simulation (\<open>class Ball\<close> and \<open>class Wall\<close>). The repository's variants of
  \<open>Ball.on_update\<close> are modelled one definition each, from the same building
  blocks:
  \<^item> \<open>ball_on_update_v31\<close>: src/3.1-a-ball/breakout.py, position only;
  \<^item> \<open>ball_on_update_v32\<close>: src/3.2-the-walls/brickbreaker.py, bounce off walls
    (\<open>bounce_walls\<close>);
  \<^item> \<open>ball_on_update_v33\<close>: src/3.3-the-paddle/paddle.py, walls, then the paddle
    with the angle-interpolated normal \<open>paddle_bounce_normal\<close>;
  \<^item> \<open>ball_on_update\<close>: src/3.4-the-blocks/bricks.py, walls with the deadly
    wall's \<open>ReplaceScene(EndScreen)\<close> signal (\<open>ball_walls\<close>), the paddle with the
    fixed normal \<open>Up\<close> (\<open>ball_paddle\<close>), then the bricks with the centre-to-centre
    normal and a \<open>BrickStruck\<close> signal per brick hit (\<open>ball_bricks\<close>).
  A handler returns the updated ball and the events it signalled, in order.
  \<open>next(event.scene.get(kind=Paddle))\<close> raises \<open>StopIteration\<close> in a scene
  without a paddle; the angled normal divides by the paddle's width and raises
  \<open>ZeroDivisionError\<close> for a paddle of width 0. Both are error values here.
\<close>

record ball = sprite +
  velocity :: vector

text \<open>\<open>Ball()\<close> of src/3.4-the-blocks/bricks.py: the default sprite size 1,
  \<open>position = ppb.Vector(-3, -12)\<close>, \<open>velocity = DownAndRight * 13\<close>.\<close>

definition new_ball :: ball where
  "new_ball = \<lparr>position = Vector (-3) (-12), width = 1, height = 1,
               velocity = vscale 13 DownAndRight\<rparr>"

record wall = sprite +
  normal :: vector
  deadly :: bool

text \<open>\<open>Wall(width, height, position, normal, deadly)\<close>; the keyword defaults
  (\<open>width=1\<close>, \<open>height=1\<close>, \<open>normal = Down\<close>, \<open>deadly = False\<close>) are filled in
  at the call sites.\<close>

definition new_wall :: "real \<Rightarrow> real \<Rightarrow> vector \<Rightarrow> vector \<Rightarrow> bool \<Rightarrow> wall" where
  "new_wall w h p n d = \<lparr>position = p, width = w, height = h, normal = n, deadly = d\<rparr>"

text \<open>\<open>self.position += self.velocity * event.time_delta\<close>.\<close>

definition ball_move :: "real \<Rightarrow> 'a ball_scheme \<Rightarrow> 'a ball_scheme" where
  "ball_move dt b = b\<lparr>position := position b + vscale dt (velocity b)\<rparr>"

text \<open>The wall loop of the 3.2 and 3.3 variants.\<close>

fun bounce_walls :: "ball \<Rightarrow> wall list \<Rightarrow> ball" where
  "bounce_walls b [] = b"
| "bounce_walls b (w # ws) =
     bounce_walls (if collides b w then b\<lparr>velocity := reflect (velocity b) (normal w)\<rparr> else b) ws"

text \<open>The wall loop of the 3.4 variant, which also signals the end of the game
  when the wall hit is deadly.\<close>

fun ball_walls :: "ball \<Rightarrow> wall list \<Rightarrow> ball \<times> event list" where
  "ball_walls b [] = (b, [])"
| "ball_walls b (w # ws) =
     (let (b, sig) = (if collides b w
                      then (b\<lparr>velocity := reflect (velocity b) (normal w)\<rparr>,
                            if deadly w then [ReplaceScene EndScreen] else [])
                      else (b, []));
          (b, sigs) = ball_walls b ws
      in (b, sig @ sigs))"

text \<open>\<open>paddle = next(event.scene.get(kind=Paddle))\<close> and the fixed bounce of 3.4.\<close>

definition ball_paddle :: "ball \<Rightarrow> paddle list \<Rightarrow> ball result" where
  "ball_paddle b ps =
     (case ps of
        [] \<Rightarrow> Inl StopIteration
      | paddle # _ \<Rightarrow>
          Inr (if collides b paddle then b\<lparr>velocity := reflect (velocity b) Up\<rparr> else b))"

text \<open>The brick loop: reflect about the centre-to-centre direction and signal
  \<open>BrickStruck\<close> to the brick.\<close>

fun ball_bricks :: "ball \<Rightarrow> brick list \<Rightarrow> ball \<times> event list" where
  "ball_bricks b [] = (b, [])"
| "ball_bricks b (k # ks) =
     (let (b, sig) = (if collides b k
                      then (b\<lparr>velocity := reflect (velocity b) (normalize (position b - position k))\<rparr>,
                            [BrickStruck (brick_id k)])
                      else (b, []));
          (b, sigs) = ball_bricks b ks
      in (b, sig @ sigs))"

text \<open>\<open>Ball.on_update\<close> of src/3.4-the-blocks/bricks.py.\<close>

definition ball_on_update ::
  "real \<Rightarrow> wall list \<Rightarrow> paddle list \<Rightarrow> brick list \<Rightarrow> ball \<Rightarrow> (ball \<times> event list) result" where
  "ball_on_update dt walls paddles bricks b =
     (let b = ball_move dt b;
          (b, sigs_walls) = ball_walls b walls
      in case ball_paddle b paddles of
           Inl e \<Rightarrow> Inl e
         | Inr b \<Rightarrow> (let (b, sigs_bricks) = ball_bricks b bricks in Inr (b, sigs_walls @ sigs_bricks)))"

subsection \<open>The earlier variants\<close>

definition ball_on_update_v31 :: "real \<Rightarrow> ball \<Rightarrow> ball" where
  "ball_on_update_v31 dt b = ball_move dt b"

definition ball_on_update_v32 :: "real \<Rightarrow> wall list \<Rightarrow> ball \<Rightarrow> ball" where
  "ball_on_update_v32 dt walls b = bounce_walls (ball_move dt b) walls"

text \<open>The angle-interpolated normal of src/3.3-the-paddle/paddle.py: the ball's
  \<open>x\<close> clamped to the paddle, as a fraction from its left edge, picks a normal
  between \<open>UpAndLeft\<close> and \<open>UpAndRight\<close>.\<close>

definition paddle_bounce_normal :: "ball \<Rightarrow> paddle \<Rightarrow> vector result" where
  "paddle_bounce_normal b paddle =
     (let ball_x = vx (position b);
          min_range = sprite_left paddle;
          max_range = sprite_right paddle
      in if max_range - min_range = 0 then Inl ZeroDivisionError
         else
           (let percent_from_left =
                  (max (min ball_x max_range) min_range - min_range) / (max_range - min_range);
                left_normal = UpAndLeft;
                right_normal = UpAndRight;
                vector = vscale percent_from_left right_normal
                         + vscale (1 - percent_from_left) left_normal
            in Inr (normalize vector)))"

definition ball_on_update_v33 :: "real \<Rightarrow> wall list \<Rightarrow> paddle list \<Rightarrow> ball \<Rightarrow> ball result" where
  "ball_on_update_v33 dt walls paddles b =
     (let b = bounce_walls (ball_move dt b) walls
      in case paddles of
           [] \<Rightarrow> Inl StopIteration
         | paddle # _ \<Rightarrow>
             (if collides b paddle
              then (case paddle_bounce_normal b paddle of
                      Inl e \<Rightarrow> Inl e
                    | Inr n \<Rightarrow> Inr (b\<lparr>velocity := reflect (velocity b) n\<rparr>))
              else Inr b))"

text \<open>The four walls of \<open>Game.__init__\<close> (bricks.py 157-160): top and bottom
  26 wide at \<open>y = \<plusminus>16.5\<close>, the bottom one deadly, and the sides 34 high at
  \<open>x = \<plusminus>12\<close>, each with its normal pointing into the field.\<close>

definition field_walls :: "wall list" where
  "field_walls =
     [new_wall 26 1 (Vector 0 (33 / 2)) Down False,
      new_wall 26 1 (Vector 0 (- 33 / 2)) Up True,
      new_wall 1 34 (Vector 12 0) Left False,
      new_wall 1 34 (Vector (-12) 0) Right False]"

text \<open>The walls whose normals have length 1, as \<open>reflect\<close> requires.\<close>

definition unit_normals :: "wall list \<Rightarrow> bool" where
  "unit_normals ws \<longleftrightarrow> (\<forall>w \<in> set ws. dot (normal w) (normal w) = 1)"

subsection \<open>The loops\<close>

text \<open>Changing the velocity does not move the ball, so the collision tests of one
  update all see the position reached by \<open>ball_move\<close>.\<close>

lemma collides_velocity_update [simp]:
  "collides (b\<lparr>velocity := v\<rparr>) x = collides b x" "collides x (b\<lparr>velocity := v\<rparr>) = collides x b"
  by (simp_all add: collides_axes)

lemma bounce_walls_sprite [simp]:
  "position (bounce_walls b ws) = position b" "width (bounce_walls b ws) = width b"
  "height (bounce_walls b ws) = height b"
  by (induction b ws rule: bounce_walls.induct) simp_all

lemma bounce_walls_frame: "\<exists>v. bounce_walls b ws = b\<lparr>velocity := v\<rparr>"
proof (induction ws arbitrary: b)
  case Nil
  show ?case by (intro exI [of _ "velocity b"]) simp
next
  case (Cons w ws)
  obtain v where "bounce_walls (if collides b w then b\<lparr>velocity := reflect (velocity b) (normal w)\<rparr> else b) ws
    = (if collides b w then b\<lparr>velocity := reflect (velocity b) (normal w)\<rparr> else b)\<lparr>velocity := v\<rparr>"
    using Cons.IH by blast
  then show ?case by (cases "collides b w") auto
qed

text \<open>The 3.4 wall loop is the 3.2 wall loop together with one
  \<open>ReplaceScene(EndScreen)\<close> per deadly wall the ball overlaps.\<close>

lemma ball_walls_eq:
  "ball_walls b ws = (bounce_walls b ws, [ReplaceScene EndScreen. w \<leftarrow> ws, collides b w \<and> deadly w])"
  by (induction b ws rule: ball_walls.induct) (simp_all add: Let_def)

declare ball_bricks.simps(2) [simp del]

lemma ball_bricks_hit:
  "collides b k \<Longrightarrow>
   ball_bricks b (k # ks) =
     (let b' = b\<lparr>velocity := reflect (velocity b) (normalize (position b - position k))\<rparr>
      in (fst (ball_bricks b' ks), BrickStruck (brick_id k) # snd (ball_bricks b' ks)))"
  by (simp add: ball_bricks.simps Let_def split: prod.split)

lemma ball_bricks_miss: "\<not> collides b k \<Longrightarrow> ball_bricks b (k # ks) = ball_bricks b ks"
  by (simp add: ball_bricks.simps Let_def split: prod.split)

lemma ball_bricks_frame:
  "\<exists>v. fst (ball_bricks b ks) = b\<lparr>velocity := v\<rparr> \<and>
       snd (ball_bricks b ks) = [BrickStruck (brick_id k). k \<leftarrow> ks, collides b k]"
proof (induction ks arbitrary: b)
  case Nil
  have "b = b\<lparr>velocity := velocity b\<rparr>" by simp
  then show ?case by (intro exI [of _ "velocity b"]) simp
next
  case (Cons k ks)
  show ?case
  proof (cases "collides b k")
    case True
    let ?b' = "b\<lparr>velocity := reflect (velocity b) (normalize (position b - position k))\<rparr>"
    from Cons.IH [of ?b'] obtain v where
      "fst (ball_bricks ?b' ks) = ?b'\<lparr>velocity := v\<rparr>"
      "snd (ball_bricks ?b' ks) = [BrickStruck (brick_id k'). k' \<leftarrow> ks, collides ?b' k']"
      by blast
    with True show ?thesis by (simp add: ball_bricks_hit Let_def) blast
  next
    case False
    with Cons.IH [of b] show ?thesis by (simp add: ball_bricks_miss)
  qed
qed

subsection \<open>Speed\<close>

lemma bounce_walls_speed:
  "unit_normals ws \<Longrightarrow> vlength (velocity (bounce_walls b ws)) = vlength (velocity b)"
  by (induction b ws rule: bounce_walls.induct) (auto simp: unit_normals_def vlength_reflect)

lemma ball_bricks_speed: "vlength (velocity (fst (ball_bricks b ks))) = vlength (velocity b)"
proof (induction ks arbitrary: b)
  case (Cons k ks)
  show ?case
  proof (cases "collides b k")
    case True
    let ?b' = "b\<lparr>velocity := reflect (velocity b) (normalize (position b - position k))\<rparr>"
    have "vlength (velocity ?b') = vlength (velocity b)"
      by (simp add: vlength_reflect_normalize)
    with True Cons.IH [of ?b'] show ?thesis by (simp add: ball_bricks_hit Let_def)
  next
    case False
    with Cons.IH [of b] show ?thesis by (simp add: ball_bricks_miss)
  qed
qed simp

lemma ball_paddle_speed:
  "ball_paddle b ps = Inr b' \<Longrightarrow> vlength (velocity b') = vlength (velocity b)"
  by (auto simp: ball_paddle_def vlength_reflect unit_directions split: list.splits if_splits)

lemma paddle_bounce_normal_unit_or_zero:
  "paddle_bounce_normal b p = Inr n \<Longrightarrow> \<exists>d. n = normalize d"
  by (auto simp: paddle_bounce_normal_def Let_def split: if_splits)

lemma ball_update_v33_speed:
  assumes "unit_normals ws" and "ball_on_update_v33 dt ws ps b = Inr b'"
  shows "vlength (velocity b') = vlength (velocity b)"
proof -
  let ?b1 = "bounce_walls (ball_move dt b) ws"
  have v1: "vlength (velocity ?b1) = vlength (velocity b)"
    using bounce_walls_speed [OF assms(1)] by (simp add: ball_move_def)
  show ?thesis
  proof (cases ps)
    case (Cons p ps')
    show ?thesis
    proof (cases "collides ?b1 p")
      case True
      then obtain n where "paddle_bounce_normal ?b1 p = Inr n" "b' = ?b1\<lparr>velocity := reflect (velocity ?b1) n\<rparr>"
        using assms(2) Cons by (auto simp: ball_on_update_v33_def Let_def split: sum.splits)
      moreover obtain d where "n = normalize d"
        using paddle_bounce_normal_unit_or_zero [OF calculation(1)] by blast
      ultimately show ?thesis using v1 by (simp add: vlength_reflect_normalize)
    next
      case False
      then show ?thesis using assms(2) Cons v1 by (simp add: ball_on_update_v33_def Let_def)
    qed
  qed (use assms(2) in \<open>simp add: ball_on_update_v33_def Let_def\<close>)
qed

lemma ball_paddle_Cons:
  "ball_paddle b (p # ps) = Inr (if collides b p then b\<lparr>velocity := reflect (velocity b) Up\<rparr> else b)"
  by (simp add: ball_paddle_def)

text \<open>The update in terms of its three stages.\<close>

lemma ball_on_update_Cons:
  "ball_on_update dt ws (p # ps) ks b =
     (let b1 = bounce_walls (ball_move dt b) ws;
          b2 = (if collides b1 p then b1\<lparr>velocity := reflect (velocity b1) Up\<rparr> else b1)
      in Inr (fst (ball_bricks b2 ks),
              [ReplaceScene EndScreen. w \<leftarrow> ws, collides (ball_move dt b) w \<and> deadly w]
              @ snd (ball_bricks b2 ks)))"
  by (simp add: ball_on_update_def ball_walls_eq ball_paddle_Cons Let_def case_prod_beta)

lemma ball_move_sprite [simp]:
  "velocity (ball_move dt b) = velocity b" "width (ball_move dt b) = width b"
  "height (ball_move dt b) = height b" "position (ball_move dt b) = position b + vscale dt (velocity b)"
  by (simp_all add: ball_move_def)

text \<open>After the wall stage and the paddle stage the ball differs from the moved
  ball only in its velocity.\<close>

lemma update_stages_frame:
  "\<exists>v. (let b1 = bounce_walls (ball_move dt b) ws
        in if collides b1 p then b1\<lparr>velocity := reflect (velocity b1) Up\<rparr> else b1)
       = (ball_move dt b)\<lparr>velocity := v\<rparr>"
proof -
  obtain v where v: "bounce_walls (ball_move dt b) ws = (ball_move dt b)\<lparr>velocity := v\<rparr>"
    using bounce_walls_frame by blast
  show ?thesis
    by (cases "collides ((ball_move dt b)\<lparr>velocity := v\<rparr>) p") (auto simp: v Let_def)
qed

text \<open>What one update does, in one statement: with a paddle present it returns,
  the ball has moved and kept its extent, the signals are those of the deadly
  walls and the bricks the moved ball overlaps, and with unit wall normals the
  speed is kept.\<close>

lemma ball_on_update_shape:
  "\<exists>b'. ball_on_update dt ws (p # ps) ks b =
          Inr (b', [ReplaceScene EndScreen. w \<leftarrow> ws, collides (ball_move dt b) w \<and> deadly w]
                   @ [BrickStruck (brick_id k). k \<leftarrow> ks, collides (ball_move dt b) k]) \<and>
        position b' = position b + vscale dt (velocity b) \<and>
        width b' = width b \<and> height b' = height b \<and>
        (unit_normals ws \<longrightarrow> vlength (velocity b') = vlength (velocity b))"
proof -
  let ?b1 = "bounce_walls (ball_move dt b) ws"
  let ?b2 = "if collides ?b1 p then ?b1\<lparr>velocity := reflect (velocity ?b1) Up\<rparr> else ?b1"
  obtain v where v: "?b2 = (ball_move dt b)\<lparr>velocity := v\<rparr>"
    using update_stages_frame [of dt b ws p] by (auto simp: Let_def)
  obtain v' where v':
    "fst (ball_bricks ((ball_move dt b)\<lparr>velocity := v\<rparr>) ks) = (ball_move dt b)\<lparr>velocity := v, velocity := v'\<rparr>"
    "snd (ball_bricks ((ball_move dt b)\<lparr>velocity := v\<rparr>) ks) =
       [BrickStruck (brick_id k). k \<leftarrow> ks, collides ((ball_move dt b)\<lparr>velocity := v\<rparr>) k]"
    using ball_bricks_frame by blast
  have speed: "unit_normals ws \<longrightarrow> vlength (velocity (fst (ball_bricks ?b2 ks))) = vlength (velocity b)"
  proof
    assume "unit_normals ws"
    then have "vlength (velocity ?b1) = vlength (velocity b)"
      using bounce_walls_speed by simp
    then have "vlength (velocity ?b2) = vlength (velocity b)"
      by (simp add: vlength_reflect unit_directions)
    then show "vlength (velocity (fst (ball_bricks ?b2 ks))) = vlength (velocity b)"
      by (simp add: ball_bricks_speed)
  qed
  have "ball_on_update dt ws (p # ps) ks b =
          Inr (fst (ball_bricks ?b2 ks),
               [ReplaceScene EndScreen. w \<leftarrow> ws, collides (ball_move dt b) w \<and> deadly w]
               @ snd (ball_bricks ?b2 ks))"
    by (simp add: ball_on_update_Cons Let_def)
  then show ?thesis
    using v v' speed by (simp del: ball_move_sprite) (simp add: ball_move_def)
qed

subsection \<open>Properties of the ball update\<close>

text \<open>C5: with a paddle in the scene, \<open>Ball.on_update\<close> returns: the ball has
  moved by \<open>velocity * dt\<close>, and the signals are one \<open>ReplaceScene(EndScreen)\<close> per
  deadly wall the moved ball overlaps, in wall order, followed by one
  \<open>BrickStruck\<close> per brick it overlaps, in brick order, each targeted at that
  brick (spec section 4.3).\<close>

theorem ball_update_signals:
  "\<exists>b'. ball_on_update dt ws (p # ps) ks b =
          Inr (b', [ReplaceScene EndScreen. w \<leftarrow> ws, collides (ball_move dt b) w \<and> deadly w]
                   @ [BrickStruck (brick_id k). k \<leftarrow> ks, collides (ball_move dt b) k]) \<and>
        position b' = position b + vscale dt (velocity b)"
  using ball_on_update_shape by blast

text \<open>C6: with a paddle in the scene and every wall's normal of length 1, the
  update returns and keeps the ball's
  speed: reflections about the walls' normals, about \<open>Up\<close> and about the
  normalised centre-to-centre direction of a brick (the zero vector when the
  centres coincide, which leaves the velocity as it is) all preserve length.\<close>

theorem ball_update_speed:
  assumes "unit_normals ws"
  shows "\<exists>b' sigs. ball_on_update dt ws (p # ps) ks b = Inr (b', sigs) \<and>
                   vlength (velocity b') = vlength (velocity b)"
  using ball_on_update_shape [of dt ws p ps ks b] assms by blast

theorem ball_update_speed_witness:
  "\<exists>b' sigs. ball_on_update (1 / 240) field_walls [new_paddle (Vector 0 (-14))] [] new_ball
      = Inr (b', sigs) \<and> vlength (velocity b') = vlength (velocity new_ball)"
proof -
  have "unit_normals field_walls"
    by (simp add: unit_normals_def field_walls_def new_wall_def unit_directions)
  then show ?thesis by (rule ball_update_speed)
qed

text \<open>C29: in a scene without a paddle, \<open>next(event.scene.get(kind=Paddle))\<close>
  raises: the update is the error \<open>StopIteration\<close>, whatever the walls and
  bricks (spec section 7).\<close>

theorem ball_update_no_paddle: "ball_on_update dt ws [] ks b = Inl StopIteration"
  by (simp add: ball_on_update_def ball_paddle_def case_prod_beta)

text \<open>C20: the 3.4 paddle bounce ignores the ball's direction: when the moved ball
  overlaps the paddle and nothing else, its vertical velocity is negated, so a
  ball that is already moving up (e.g. caught by the side of a moving paddle) is
  sent down towards the deadly wall.\<close>

theorem paddle_bounce_flips_vertical:
  assumes "\<forall>w \<in> set ws. \<not> collides (ball_move dt b) w"
    and "\<forall>k \<in> set ks. \<not> collides (ball_move dt b) k"
    and "collides (ball_move dt b) p"
  shows "ball_on_update dt ws (p # ps) ks b =
           Inr ((ball_move dt b)\<lparr>velocity := Vector (vx (velocity b)) (- vy (velocity b))\<rparr>, [])"
proof -
  have w: "bounce_walls (ball_move dt b) ws = ball_move dt b"
    using assms(1) by (induction ws) auto
  have k: "ball_bricks c ks = (c, [])" if "\<forall>k \<in> set ks. \<not> collides c k" for c :: ball
    using that by (induction ks) (simp_all add: ball_bricks_miss)
  have "[ReplaceScene EndScreen. w \<leftarrow> ws, collides (ball_move dt b) w \<and> deadly w] = []"
    using assms(1) by (induction ws) auto
  then show ?thesis
    using assms(2,3) k [of "(ball_move dt b)\<lparr>velocity := reflect (velocity b) Up\<rparr>"]
    by (simp add: ball_on_update_Cons w Let_def reflect_axis)
qed

theorem paddle_bounce_flips_vertical_witness:
  "ball_on_update 0 [] [new_paddle (Vector 0 (-14))] []
     \<lparr>position = Vector 0 (-27 / 2), width = 1, height = 1, velocity = Vector 0 5\<rparr>
   = Inr (\<lparr>position = Vector 0 (-27 / 2), width = 1, height = 1, velocity = Vector 0 (-5)\<rparr>, [])"
proof -
  have "collides (ball_move 0 \<lparr>position = Vector 0 (-27 / 2), width = 1, height = 1, velocity = Vector 0 5\<rparr>)
          (new_paddle (Vector 0 (-14)))"
    by (simp add: collides_def ball_move_def new_paddle_def sprite_extents Vector_ops)
  from paddle_bounce_flips_vertical [of "[]" 0 _ "[]", OF _ _ this]
  show ?thesis by (simp add: ball_move_def Vector_ops)
qed

lemma diagonal_blend:
  "vscale a UpAndRight + vscale (1 - a) UpAndLeft = Vector ((2 * a - 1) / sqrt 2) (1 / sqrt 2)"
  by (simp add: diagonal_directions vector_eq_iff diff_divide_distrib add_divide_distrib algebra_simps)

text \<open>The fraction of the 3.3 code lies left of one half exactly when the
  ball is left of the paddle's centre.\<close>

lemma percent_sign:
  assumes "0 < (w::real)"
  shows "sgn (2 * ((max (min x (c + w / 2)) (c - w / 2) - (c - w / 2))
                   / ((c + w / 2) - (c - w / 2))) - 1) = sgn (x - c)"
proof -
  let ?m = "max (min x (c + w / 2)) (c - w / 2) - c"
  have e: "2 * ((max (min x (c + w / 2)) (c - w / 2) - (c - w / 2)) / ((c + w / 2) - (c - w / 2))) - 1
           = ?m * (2 / w)"
    using assms by (simp add: field_simps)
  have "sgn (?m * (2 / w)) = sgn ?m * sgn (2 / w)" by (rule sgn_mult)
  moreover have "sgn (2 / w) = 1" using assms by simp
  moreover have "sgn ?m = sgn (x - c)" using assms by (auto simp: sgn_if max_def min_def)
  ultimately show ?thesis by (simp only: e mult_1_right)
qed

lemma paddle_bounce_normal_eq:
  "0 < width p \<Longrightarrow>
   paddle_bounce_normal b p =
     Inr (normalize (Vector ((2 * ((max (min (vx (position b)) (vx (position p) + width p / 2))
                                          (vx (position p) - width p / 2) - (vx (position p) - width p / 2))
                                   / ((vx (position p) + width p / 2) - (vx (position p) - width p / 2))) - 1)
                             / sqrt 2) (1 / sqrt 2)))"
  unfolding paddle_bounce_normal_def sprite_extents Let_def diagonal_blend by simp

lemma normalize_tilted:
  assumes "v = Vector (e / sqrt 2) (1 / sqrt 2)"
  shows "dot (normalize v) (normalize v) = 1 \<and> 0 < vy (normalize v) \<and> sgn (vx (normalize v)) = sgn e"
proof -
  have nz: "v \<noteq> 0" using assms by (simp add: Vector_ops)
  have L: "0 < vlength v" using vlength_pos [OF nz] .
  have "vx (normalize v) = e / sqrt 2 / vlength v" "vy (normalize v) = 1 / sqrt 2 / vlength v"
    using nz assms by (simp_all add: normalize_def)
  moreover have "sgn (e / sqrt 2 / vlength v) = sgn e" using L by (simp add: sgn_divide)
  ultimately show ?thesis using dot_normalize [OF nz] L by simp
qed

text \<open>C30: the angled paddle normal of the 3.3 variant is a unit vector pointing
  up, tilted to the side of the paddle's centre the ball is on (straight up at
  the centre).\<close>

theorem angled_normal_upward:
  assumes "0 < width p"
  shows "\<exists>n. paddle_bounce_normal b p = Inr n \<and> dot n n = 1 \<and> 0 < vy n \<and>
             sgn (vx n) = sgn (vx (position b) - vx (position p))"
  using paddle_bounce_normal_eq [OF assms, of b] normalize_tilted [OF refl]
        percent_sign [OF assms, of "vx (position b)" "vx (position p)"]
  by auto

theorem angled_normal_upward_witness:
  "paddle_bounce_normal \<lparr>position = Vector 0 (-27 / 2), width = 1, height = 1, velocity = Vector 1 (-1)\<rparr>
      (new_paddle (Vector 0 (-14))) = Inr Up"
proof -
  let ?b = "\<lparr>position = Vector 0 (-27 / 2), width = 1, height = 1, velocity = Vector 1 (-1)\<rparr>"
  have "0 < width (new_paddle (Vector 0 (-14)))" by (simp add: new_paddle_def)
  from angled_normal_upward [OF this, of ?b] obtain n where
    n: "paddle_bounce_normal ?b (new_paddle (Vector 0 (-14))) = Inr n" "dot n n = 1" "0 < vy n"
       "sgn (vx n) = sgn (vx (position ?b) - vx (position (new_paddle (Vector 0 (-14)))))"
    by blast
  then have x: "vx n = 0" by (simp add: new_paddle_def sgn_0_0)
  with n(2) have "vy n * vy n = 1" by (simp add: dot_def)
  with n(3) have "vy n = 1" by (metis abs_of_pos abs_square_eq_1 power2_eq_square)
  with x have "n = Up" by (simp add: Up_def vector_eq_iff)
  with n(1) show ?thesis by simp
qed

text \<open>C31: the 3.4 update extends the 3.2 one: with no bricks, no deadly wall and
  no paddle contact, \<open>ball_on_update\<close> computes exactly the ball of
  \<open>ball_on_update_v32\<close> and signals nothing.\<close>

theorem update_v34_extends_v32:
  assumes "\<forall>w \<in> set ws. \<not> deadly w" and "\<not> collides (ball_move dt b) p"
  shows "ball_on_update dt ws (p # ps) [] b = Inr (ball_on_update_v32 dt ws b, [])"
proof -
  obtain v where v: "bounce_walls (ball_move dt b) ws = (ball_move dt b)\<lparr>velocity := v\<rparr>"
    using bounce_walls_frame by blast
  have "[ReplaceScene EndScreen. w \<leftarrow> ws, collides (ball_move dt b) w \<and> deadly w] = []"
    using assms(1) by (induction ws) auto
  then show ?thesis
    using assms(2) v by (simp add: ball_on_update_Cons ball_on_update_v32_def Let_def ball_bricks.simps(1))
qed

theorem update_v34_extends_v32_witness:
  "ball_on_update (1 / 4) [new_wall 1 34 (Vector 12 0) Left False] [new_paddle (Vector 0 (-14))] []
     \<lparr>position = Vector (-3) (-12), width = 1, height = 1, velocity = Vector 1 (-1)\<rparr>
   = Inr (ball_on_update_v32 (1 / 4) [new_wall 1 34 (Vector 12 0) Left False]
            \<lparr>position = Vector (-3) (-12), width = 1, height = 1, velocity = Vector 1 (-1)\<rparr>, [])"
proof (rule update_v34_extends_v32)
  show "\<not> collides (ball_move (1 / 4)
          \<lparr>position = Vector (-3) (-12), width = 1, height = 1, velocity = Vector 1 (-1)\<rparr>)
          (new_paddle (Vector 0 (-14)))"
    by (simp add: collides_def ball_move_def new_paddle_def sprite_extents Vector_ops)
qed (simp add: new_wall_def)


end
