(* ===== verification/Game.thy ===== *)
theory Game
  imports Ball
begin

text \<open>
  The Game scene and its per-tick pipeline (\<open>class Game\<close>,
  src/3.4-the-blocks/bricks.py lines 151-163, and the handlers of its children).
  The scene's entities are kept per kind, each list in insertion order: the
  ball, the four walls, the paddle, the brick grid. \<open>game_init\<close> is
  \<open>Game.__init__\<close>: the brick grid is \<open>product(range(-9, 12, 3), range(-4, 15, 2))\<close>,
  each brick numbered by its place in that order (its identity).
  \<open>game_handle\<close> is the dispatch of one event to the scene's children, in
  insertion order: on \<open>Update\<close> the ball, then the paddle; on \<open>PreRender\<close> every
  brick; key and mouse events go to the paddle; a targeted \<open>BrickStruck\<close> goes
  to its brick. The Game scene of 3.4 has no handler of its own, so a key or
  button release does not end the game (see theory \<open>Scenes\<close> for the earlier
  variants, where it does).

  The lemmas show what \<open>Game.__init__\<close> builds (70 bricks at the lattice
  points, pairwise disjoint, all inside the walls) and that the scene invariant
  \<open>game_ok\<close> (one paddle with its invariant, bricks with distinct identities and
  1 to 3 hits, unit wall normals) holds initially and after every event, so that
  no event raises; every event keeps the ball's speed, only wears the bricks
  (\<open>game_handle_wears\<close>), and the only signals are
  \<open>ReplaceScene(EndScreen)\<close> and \<open>BrickStruck\<close> for bricks of the scene.
\<close>

record game =
  game_ball :: ball
  game_walls :: "wall list"
  game_paddles :: "paddle list"
  game_bricks :: "brick list"

text \<open>\<open>for x, y in product(range(-9, 12, 3), range(-4, 15, 2)):
  self.add(Brick(position=ppb.Vector(x, y)))\<close>\<close>

definition brick_grid :: "brick list" where
  "brick_grid =
     map (\<lambda>(i, (x, y)). new_brick i (Vector (of_int x) (of_int y)))
         (enumerate 0 (List.product (py_range (-9) 12 3) (py_range (-4) 15 2)))"

definition game_init :: game where
  "game_init =
     \<lparr>game_ball = new_ball, game_walls = field_walls,
      game_paddles = [new_paddle (Vector 0 (-14))], game_bricks = brick_grid\<rparr>"

text \<open>\<open>Update\<close>: \<open>Ball.on_update\<close>, then \<open>Paddle.on_update\<close>.\<close>

definition game_on_update :: "real \<Rightarrow> game \<Rightarrow> (game \<times> event list) result" where
  "game_on_update dt g =
     (case ball_on_update dt (game_walls g) (game_paddles g) (game_bricks g) (game_ball g) of
        Inl e \<Rightarrow> Inl e
      | Inr (b, sigs) \<Rightarrow>
          (case map_result (paddle_on_update dt) (game_paddles g) of
             Inl e \<Rightarrow> Inl e
           | Inr ps \<Rightarrow> Inr (g\<lparr>game_ball := b, game_paddles := ps\<rparr>, sigs)))"

fun game_handle :: "event \<Rightarrow> game \<Rightarrow> (game \<times> event list) result" where
  "game_handle (Update dt) g = game_on_update dt g"
| "game_handle PreRender g =
     (case map_result on_pre_render (game_bricks g) of
        Inl e \<Rightarrow> Inl e
      | Inr bs \<Rightarrow> Inr (g\<lparr>game_bricks := bs\<rparr>, []))"
| "game_handle (KeyPressed k) g =
     Inr (g\<lparr>game_paddles := map (paddle_on_key_pressed k) (game_paddles g)\<rparr>, [])"
| "game_handle (KeyReleased k) g =
     Inr (g\<lparr>game_paddles := map (paddle_on_key_released k) (game_paddles g)\<rparr>, [])"
| "game_handle (MouseMotion v) g =
     Inr (g\<lparr>game_paddles := map (paddle_on_mouse_motion v) (game_paddles g)\<rparr>, [])"
| "game_handle (BrickStruck bid) g =
     Inr (g\<lparr>game_bricks := deliver_brick_struck bid (game_bricks g)\<rparr>, [])"
| "game_handle _ g = Inr (g, [])"

text \<open>The scene invariant.\<close>

definition game_ok :: "game \<Rightarrow> bool" where
  "game_ok g \<longleftrightarrow>
     (\<exists>p. game_paddles g = [p] \<and> paddle_ok p) \<and> bricks_ok (game_bricks g) \<and>
     unit_normals (game_walls g)"

subsection \<open>The brick grid\<close>

abbreviation grid_cells :: "(int \<times> int) list" where
  "grid_cells \<equiv> List.product (py_range (-9) 12 3) (py_range (-4) 15 2)"

lemma grid_ranges:
  "py_range (-9) 12 3 = [-9, -6, -3, 0, 3, 6, 9]"
  "py_range (-4) 15 2 = [-4, -2, 0, 2, 4, 6, 8, 10, 12, 14]"
  by (simp_all add: py_range_cons)

lemma length_grid_cells: "length grid_cells = 70"
  by (simp add: grid_ranges)

lemma distinct_grid_cells: "distinct grid_cells"
  by (simp add: distinct_product distinct_py_range)

lemma grid_x_bounds: "x \<in> set (py_range (-9) 12 3) \<Longrightarrow> -9 \<le> x \<and> x \<le> 9 \<and> 3 dvd (x + 9)"
  by (auto simp: grid_ranges)

lemma grid_y_bounds: "y \<in> set (py_range (-4) 15 2) \<Longrightarrow> -4 \<le> y \<and> y \<le> 14 \<and> 2 dvd (y + 4)"
  by (auto simp: grid_ranges)

lemma brick_grid_zip:
  "brick_grid = map (\<lambda>(i, (x, y)). new_brick i (Vector (of_int x) (of_int y))) (zip [0..<70] grid_cells)"
  by (simp add: brick_grid_def enumerate_eq_zip length_grid_cells del: length_product)

lemma length_brick_grid: "length brick_grid = 70"
  by (simp add: brick_grid_zip length_grid_cells del: length_product)

lemma brick_grid_ids: "map brick_id brick_grid = [0..<70]"
proof -
  have "map brick_id brick_grid = map fst (zip [0..<70] grid_cells)"
    by (simp add: brick_grid_zip new_brick_def case_prod_beta)
  also have "\<dots> = [0..<70]" by (simp add: length_grid_cells del: length_product)
  finally show ?thesis .
qed

lemma brick_grid_brick:
  assumes "b \<in> set brick_grid"
  obtains i x y where "(i, (x, y)) \<in> set (zip [0..<70] grid_cells)"
    "b = new_brick i (Vector (of_int x) (of_int y))"
  using assms by (auto simp: brick_grid_zip)

lemma brick_grid_fields:
  assumes "b \<in> set brick_grid"
  shows "hits b = 3 \<and> width b = 2 \<and> height b = 1 \<and>
     -9 \<le> vx (position b) \<and> vx (position b) \<le> 9 \<and> -4 \<le> vy (position b) \<and> vy (position b) \<le> 14"
proof -
  obtain i x y where c: "(i, (x, y)) \<in> set (zip [0..<70] grid_cells)"
    and b: "b = new_brick i (Vector (of_int x) (of_int y))"
    using assms by (rule brick_grid_brick)
  from set_zip_rightD [OF c] have "x \<in> set (py_range (-9) 12 3)" "y \<in> set (py_range (-4) 15 2)"
    by auto
  then have "-9 \<le> x" "x \<le> 9" "-4 \<le> y" "y \<le> 14" using grid_x_bounds grid_y_bounds by auto
  then have "(-9::real) \<le> of_int x" "of_int x \<le> (9::real)" "(-4::real) \<le> of_int y" "of_int y \<le> (14::real)"
    by linarith+
  then show ?thesis using b by (simp add: new_brick_def)
qed

lemma bricks_ok_grid: "bricks_ok brick_grid"
  using brick_grid_fields by (auto simp: bricks_ok_def brick_grid_ids)

subsection \<open>The scene invariant is kept by every event\<close>

lemma on_pre_render_ok:
  "0 < hits b \<Longrightarrow> hits b \<le> 3 \<Longrightarrow> on_pre_render b = Inr (b\<lparr>image := brick_colors ! nat (hits b - 1)\<rparr>)"
  by (simp add: on_pre_render_def py_get_def brick_colors_def)

lemma pre_render_all:
  "bricks_ok bs \<Longrightarrow>
   map_result on_pre_render bs = Inr (map (\<lambda>b. b\<lparr>image := brick_colors ! nat (hits b - 1)\<rparr>) bs)"
proof (induction bs)
  case (Cons b bs)
  then have "bricks_ok bs" "0 < hits b" "hits b \<le> 3" by (auto simp: bricks_ok_def)
  with Cons.IH show ?case by (simp add: on_pre_render_ok)
qed simp

lemma bricks_ok_image: "bricks_ok (map (\<lambda>b. b\<lparr>image := f b\<rparr>) bs) = bricks_ok bs"
  by (simp add: bricks_ok_def comp_def)

lemma game_update_ok:
  assumes "game_ok g"
  shows "\<exists>g' sigs. game_on_update dt g = Inr (g', sigs) \<and> game_ok g' \<and>
           game_walls g' = game_walls g \<and> game_bricks g' = game_bricks g \<and>
           vlength (velocity (game_ball g')) = vlength (velocity (game_ball g))"
proof -
  from assms obtain p where p: "game_paddles g = [p]" "paddle_ok p"
    and u: "unit_normals (game_walls g)" by (auto simp: game_ok_def)
  obtain b' sigs where b': "ball_on_update dt (game_walls g) [p] (game_bricks g) (game_ball g) = Inr (b', sigs)"
    "vlength (velocity b') = vlength (velocity (game_ball g))"
    using ball_on_update_shape [of dt "game_walls g" p "[]" "game_bricks g" "game_ball g"] u by blast
  obtain p' where p': "paddle_on_update dt p = Inr p'" "paddle_ok p'"
    using paddle_update_ok [OF p(2), of dt] by blast
  show ?thesis using assms p b' p'
    by (simp add: game_on_update_def game_ok_def)
qed

lemma game_handle_ok:
  assumes "game_ok g"
  shows "\<exists>g' sigs. game_handle e g = Inr (g', sigs) \<and> game_ok g' \<and> game_walls g' = game_walls g \<and>
           vlength (velocity (game_ball g')) = vlength (velocity (game_ball g))"
proof (cases e)
  case (Update dt)
  then show ?thesis using game_update_ok [OF assms, of dt] by auto
next
  case PreRender
  then show ?thesis using assms by (simp add: game_ok_def pre_render_all bricks_ok_image)
next
  case (KeyPressed k)
  then show ?thesis using assms by (auto simp: game_ok_def paddle_ok_key_pressed)
next
  case (KeyReleased k)
  then show ?thesis using assms by (auto simp: game_ok_def paddle_ok_key_released)
next
  case (MouseMotion v)
  then show ?thesis using assms by (auto simp: game_ok_def paddle_ok_mouse_motion)
next
  case (BrickStruck bid)
  then show ?thesis using assms by (simp add: game_ok_def bricks_ok_deliver)
qed (simp_all add: assms)

text \<open>Whatever the state of the scene, the only signals it sends are the end of
  the game and strikes of its own bricks; in particular it never sends an input
  event.\<close>

lemma game_handle_signals:
  "game_handle e g = Inr (g', sigs) \<Longrightarrow>
   set sigs \<subseteq> {ReplaceScene EndScreen} \<union> BrickStruck ` brick_id ` set (game_bricks g)"
proof (cases e)
  case (Update dt)
  assume r: "game_handle e g = Inr (g', sigs)"
  show ?thesis
  proof (cases "game_paddles g")
    case Nil
    then show ?thesis using r Update by (simp add: game_on_update_def ball_on_update_def ball_paddle_def case_prod_beta)
  next
    case (Cons p ps)
    obtain b' where "ball_on_update dt (game_walls g) (p # ps) (game_bricks g) (game_ball g) =
        Inr (b', [ReplaceScene EndScreen. w \<leftarrow> game_walls g, collides (ball_move dt (game_ball g)) w \<and> deadly w]
                 @ [BrickStruck (brick_id k). k \<leftarrow> game_bricks g, collides (ball_move dt (game_ball g)) k])"
      using ball_on_update_shape by blast
    then show ?thesis using r Update Cons
      by (auto simp: game_on_update_def split: sum.splits if_splits)
  qed
qed (auto split: sum.splits)

text \<open>Every event only wears the scene's bricks: the ball's update leaves them to
  the strikes it signals, a strike wears one, \<open>PreRender\<close> changes colours only.\<close>

lemma game_handle_wears:
  "game_handle e g = Inr (g', sigs) \<Longrightarrow> list_emb brick_wears (game_bricks g') (game_bricks g)"
proof (cases e)
  case (Update dt)
  then show "game_handle e g = Inr (g', sigs) \<Longrightarrow> ?thesis"
    by (auto simp: game_on_update_def split: sum.splits)
next
  case PreRender
  then show "game_handle e g = Inr (g', sigs) \<Longrightarrow> ?thesis"
    by (auto simp: pre_render_wears split: sum.splits)
qed (auto simp: deliver_wears)

subsection \<open>Properties of the Game scene\<close>

lemma game_update_signals_eq:
  assumes "game_handle (Update dt) g = Inr (g', sigs)" and "game_paddles g \<noteq> []"
  shows "sigs = [ReplaceScene EndScreen. w \<leftarrow> game_walls g, collides (ball_move dt (game_ball g)) w \<and> deadly w]
               @ map BrickStruck (map brick_id (filter (collides (ball_move dt (game_ball g))) (game_bricks g)))"
proof -
  obtain p ps where p: "game_paddles g = p # ps" using assms(2) by (cases "game_paddles g") auto
  obtain b' where "ball_on_update dt (game_walls g) (p # ps) (game_bricks g) (game_ball g) =
      Inr (b', [ReplaceScene EndScreen. w \<leftarrow> game_walls g, collides (ball_move dt (game_ball g)) w \<and> deadly w]
               @ [BrickStruck (brick_id k). k \<leftarrow> game_bricks g, collides (ball_move dt (game_ball g)) k])"
    using ball_on_update_shape by blast
  then show ?thesis
    using assms(1) p by (auto simp: game_on_update_def comp_def split: sum.splits)
qed

lemma game_update_end_signal:
  assumes "game_handle (Update dt) g = Inr (g', sigs)" and "game_paddles g \<noteq> []"
  shows "ReplaceScene EndScreen \<in> set sigs \<longleftrightarrow>
           (\<exists>w \<in> set (game_walls g). deadly w \<and> collides (ball_move dt (game_ball g)) w)"
  using game_update_signals_eq [OF assms] by auto

lemma game_init_ok: "game_ok game_init"
  by (simp add: game_ok_def game_init_def bricks_ok_grid unit_normals_def field_walls_def
      new_wall_def unit_directions)

lemma new_ball_speed: "vlength (velocity new_ball) = 13"
proof -
  have "dot DownAndRight DownAndRight = 1"
    using normalize_unit_or_zero [of "Vector 1 (-1)"]
    by (auto simp: DownAndRight_def normalize_def vector_eq_iff vlength_def dot_def)
  then show ?thesis by (simp add: new_ball_def vlength_unit_iff [symmetric])
qed


lemma grid_cell_of_brick:
  assumes "(i, (x, y)) \<in> set (zip [0..<70] grid_cells)"
  shows "i < 70 \<and> grid_cells ! i = (x, y) \<and> 3 dvd (x + 9) \<and> 2 dvd (y + 4)"
proof -
  from assms have "i < 70 \<and> grid_cells ! i = (x, y)"
    by (auto simp: in_set_zip length_grid_cells simp del: length_product)
  moreover from set_zip_rightD [OF assms]
  have "x \<in> set (py_range (-9) 12 3)" "y \<in> set (py_range (-4) 15 2)" by auto
  ultimately show ?thesis using grid_x_bounds grid_y_bounds by blast
qed

text \<open>C25: no two distinct bricks of the grid built by \<open>Game.__init__\<close> overlap:
  bricks are 2 by 1 on a lattice of pitch 3 by 2.\<close>

theorem brick_grid_disjoint:
  assumes "b \<in> set brick_grid" and "b' \<in> set brick_grid" and "collides b b'"
  shows "b = b'"
proof -
  obtain i x y where c: "(i, (x, y)) \<in> set (zip [0..<70] grid_cells)"
    and b: "b = new_brick i (Vector (of_int x) (of_int y))"
    using assms(1) by (rule brick_grid_brick)
  obtain j x' y' where c': "(j, (x', y')) \<in> set (zip [0..<70] grid_cells)"
    and b': "b' = new_brick j (Vector (of_int x') (of_int y'))"
    using assms(2) by (rule brick_grid_brick)
  have close: "2 * \<bar>real_of_int x - real_of_int x'\<bar> < real_of_int 4"
              "2 * \<bar>real_of_int y - real_of_int y'\<bar> < real_of_int 2"
    using collides_close [OF _ _ _ _ assms(3)] b b' by (simp_all add: new_brick_def)
  have d: "3 dvd (x + 9)" "3 dvd (x' + 9)" "2 dvd (y + 4)" "2 dvd (y' + 4)"
    using grid_cell_of_brick [OF c] grid_cell_of_brick [OF c'] by blast+
  have "x = x'" using int_close [OF close(1)] d(1,2) by presburger
  moreover have "y = y'" using int_close [OF close(2)] d(3,4) by presburger
  ultimately have "grid_cells ! i = grid_cells ! j"
    using grid_cell_of_brick [OF c] grid_cell_of_brick [OF c'] by simp
  moreover have "i < length grid_cells" "j < length grid_cells"
    using grid_cell_of_brick [OF c] grid_cell_of_brick [OF c'] length_grid_cells by simp_all
  ultimately have "i = j"
    using nth_eq_iff_index_eq [OF distinct_grid_cells] by blast
  then show ?thesis using b b' \<open>x = x'\<close> \<open>y = y'\<close> by simp
qed

theorem brick_grid_disjoint_witness:
  "brick_grid ! 0 = brick_grid ! 0 \<and> collides (brick_grid ! 0) (brick_grid ! 0)"
proof -
  have m: "brick_grid ! 0 \<in> set brick_grid" using length_brick_grid by simp
  have "collides (brick_grid ! 0) (brick_grid ! 0)"
    using brick_grid_fields [OF m] by (simp add: collides_axes span_below_def)
  with brick_grid_disjoint [OF m m] show ?thesis by simp
qed

text \<open>C26: the scene built by \<open>Game.__init__\<close> satisfies the scene invariant,
  numbers its bricks 0 to 69, and no brick starts with 3 hits less or overlaps
  the ball, a wall or the paddle.\<close>

theorem game_init_wellformed:
  "game_ok game_init \<and> map brick_id (game_bricks game_init) = [0..<70] \<and>
   (\<forall>b \<in> set (game_bricks game_init).
      hits b = 3 \<and> \<not> collides b (game_ball game_init) \<and>
      (\<forall>w \<in> set (game_walls game_init). \<not> collides b w) \<and>
      (\<forall>p \<in> set (game_paddles game_init). \<not> collides b p))"
proof -
  have "\<forall>b \<in> set brick_grid. \<not> collides b new_ball \<and>
          (\<forall>w \<in> set field_walls. \<not> collides b w) \<and> \<not> collides b (new_paddle (Vector 0 (-14)))"
  proof
    fix b assume "b \<in> set brick_grid"
    note f = brick_grid_fields [OF this]
    have "\<not> collides b (new_wall 26 1 (Vector 0 (33 / 2)) Down False)"
      "\<not> collides b (new_wall 26 1 (Vector 0 (- 33 / 2)) Up True)"
      "\<not> collides b new_ball" "\<not> collides b (new_paddle (Vector 0 (-14)))"
      by (rule no_collision_far_y; use f in \<open>simp add: new_wall_def new_ball_def new_paddle_def\<close>)+
    moreover have "\<not> collides b (new_wall 1 34 (Vector 12 0) Left False)"
      "\<not> collides b (new_wall 1 34 (Vector (-12) 0) Right False)"
      by (rule no_collision_far_x; use f in \<open>simp add: new_wall_def\<close>)+
    ultimately show "\<not> collides b new_ball \<and>
          (\<forall>w \<in> set field_walls. \<not> collides b w) \<and> \<not> collides b (new_paddle (Vector 0 (-14)))"
      by (simp add: field_walls_def)
  qed
  then show ?thesis
    using game_init_ok brick_grid_fields by (simp add: game_init_def brick_grid_ids)
qed

theorem game_init_wellformed_witness:
  "hits (brick_grid ! 0) = 3 \<and> \<not> collides (brick_grid ! 0) new_ball"
proof -
  have "brick_grid ! 0 \<in> set (game_bricks game_init)"
    using length_brick_grid by (simp add: game_init_def)
  with game_init_wellformed show ?thesis by (simp add: game_init_def)
qed

text \<open>C14: every event keeps the Game scene's invariant and never raises in a scene
  that satisfies it; it never moves a wall, keeps the ball's speed, and the only
  signals are \<open>ReplaceScene(EndScreen)\<close> and \<open>BrickStruck\<close> targeted at bricks of
  the scene.\<close>

theorem game_handle_invariant:
  assumes "game_ok g"
  shows "\<exists>g' sigs. game_handle e g = Inr (g', sigs) \<and> game_ok g' \<and> game_walls g' = game_walls g \<and>
           vlength (velocity (game_ball g')) = vlength (velocity (game_ball g)) \<and>
           set sigs \<subseteq> {ReplaceScene EndScreen} \<union> BrickStruck ` brick_id ` set (game_bricks g)"
  using game_handle_ok [OF assms, of e] game_handle_signals by blast

theorem game_handle_invariant_witness:
  "\<exists>g' sigs. game_handle (Update (1 / 240)) game_init = Inr (g', sigs) \<and> game_ok g' \<and>
     vlength (velocity (game_ball g')) = vlength (velocity new_ball)"
  using game_handle_invariant [OF game_init_ok, of "Update (1 / 240)"]
  by (auto simp: game_init_def)


end
