(* ===== verification/Scenes.thy ===== *)
theory Scenes
  imports Game
begin

text \<open>
  The three scenes and their handlers. In src/3.4-the-blocks/bricks.py the
  TitleScreen (lines 130-148) starts a Game on any key or button release, the
  Game (lines 151-163) has no handler of its own and passes events to its
  entities (theory \<open>Game\<close>), and the EndScreen (lines 166-173) stops itself on
  any release. A running scene is a value of \<open>scene\<close>; \<open>scene_of\<close> builds the
  scene of a class, as the engine does when it starts one, so a Game is always
  built afresh by \<open>Game.__init__\<close>. The title text sprite and the background
  colours are drawing only and are not modelled.

  The earlier variants (src/2.1-setting-up-program-flow/breakout.py, and the
  same classes in 2.2 to 3.3) end the game on any release instead:
  \<open>scene_handle_v21\<close> is the whole program of 2.1, whose scenes hold no
  entities, so its scene is just its class.
\<close>

datatype scene = TitleScene | GameScene game | EndScene

definition scene_of :: "scene_class \<Rightarrow> scene" where
  "scene_of c = (case c of TitleScreen \<Rightarrow> TitleScene | Game \<Rightarrow> GameScene game_init | EndScreen \<Rightarrow> EndScene)"

text \<open>\<open>TitleScreen.on_key_released\<close> and \<open>on_button_released\<close>:
  \<open>signal(ppb.events.StartScene(Game))\<close> (the debug \<open>print\<close> is output only).\<close>

fun title_handle :: "event \<Rightarrow> event list" where
  "title_handle (KeyReleased _) = [StartScene Game]"
| "title_handle ButtonReleased = [StartScene Game]"
| "title_handle _ = []"

text \<open>\<open>EndScreen.on_key_released\<close> and \<open>on_button_released\<close>:
  \<open>signal(ppb.events.StopScene())\<close>.\<close>

fun end_handle :: "event \<Rightarrow> event list" where
  "end_handle (KeyReleased _) = [StopScene]"
| "end_handle ButtonReleased = [StopScene]"
| "end_handle _ = []"

text \<open>Dispatch of one event to the running scene of the 3.4 program.\<close>

fun scene_handle :: "event \<Rightarrow> scene \<Rightarrow> (scene \<times> event list) result" where
  "scene_handle ev TitleScene = Inr (TitleScene, title_handle ev)"
| "scene_handle ev (GameScene g) =
     (case game_handle ev g of Inl e \<Rightarrow> Inl e | Inr (g', sigs) \<Rightarrow> Inr (GameScene g', sigs))"
| "scene_handle ev EndScene = Inr (EndScene, end_handle ev)"

text \<open>The program of src/2.1-setting-up-program-flow/breakout.py: every scene
  reacts to a key or button release only, the Game by
  \<open>signal(ppb.events.ReplaceScene(EndScreen))\<close>.\<close>

fun release_signal_v21 :: "scene_class \<Rightarrow> event" where
  "release_signal_v21 TitleScreen = StartScene Game"
| "release_signal_v21 Game = ReplaceScene EndScreen"
| "release_signal_v21 EndScreen = StopScene"

fun scene_handle_v21 :: "event \<Rightarrow> scene_class \<Rightarrow> (scene_class \<times> event list) result" where
  "scene_handle_v21 (KeyReleased _) c = Inr (c, [release_signal_v21 c])"
| "scene_handle_v21 ButtonReleased c = Inr (c, [release_signal_v21 c])"
| "scene_handle_v21 _ c = Inr (c, [])"

text \<open>Signals of the scenes: never an input event, and none at all in answer to a
  signal.\<close>

lemma scene_handle_signals:
  assumes "scene_handle ev s = Inr (s', sigs)"
  shows "(\<forall>x \<in> set sigs. \<not> is_input x) \<and> (\<not> is_input ev \<longrightarrow> sigs = [])"
proof (cases s)
  case TitleScene
  then show ?thesis using assms by (cases ev) auto
next
  case EndScene
  then show ?thesis using assms by (cases ev) auto
next
  case (GameScene g)
  then obtain g' where r: "game_handle ev g = Inr (g', sigs)"
    using assms by (auto split: sum.splits)
  have "\<forall>x \<in> set sigs. \<not> is_input x" using game_handle_signals [OF r] by auto
  moreover have "\<not> is_input ev \<longrightarrow> sigs = []" using r by (cases ev) auto
  ultimately show ?thesis by blast
qed

lemma scene_handle_v21_signals:
  assumes "scene_handle_v21 ev c = Inr (c', sigs)"
  shows "(\<forall>x \<in> set sigs. \<not> is_input x) \<and> (\<not> is_input ev \<longrightarrow> sigs = [])"
proof -
  have "\<not> is_input (release_signal_v21 c)" by (cases c) simp_all
  then show ?thesis using assms by (cases ev) auto
qed

end
