(* ===== verification/Engine.thy ===== *)
theory Engine
  imports Scenes "HOL-Library.Product_Lexorder"
begin

text \<open>
  The host engine, \<open>ppb.GameEngine\<close>, as far as the program depends on it. The
  engine is a library, not code of this repository; it is modelled from spec
  sections 4.6, 5 and 6 and from ppb's documented scene-stack semantics:
  \<^item> the engine keeps a stack of scenes, the running one on top (head of
    \<open>scenes\<close>); \<open>StartScene(c)\<close> pushes a new scene of class \<open>c\<close>,
    \<open>ReplaceScene(c)\<close> pops the running scene and pushes a new one,
    \<open>StopScene()\<close> pops it; when the stack becomes empty the engine quits
    (\<open>running\<close> becomes false); a pop from an empty stack raises
    \<open>IndexError\<close>;
  \<^item> events wait in one FIFO queue; the engine takes the first, handles it (the
    three scene requests itself, any other event by the running scene) and
    appends the signals sent while handling it to the end of the queue; a frame
    ends when the queue is empty (\<open>drain\<close>);
  \<^item> the engine empties the queue before it changes scenes: the events still
    queued behind a scene request (\<open>is_request\<close>) are dropped, so of the
    commits queued in one frame the first one wins (spec 4.6).
  The engine is generic in the type of scenes and in their handler, so that the
  same engine runs the 3.4 program (\<open>scene_handle\<close>, \<open>scene_of\<close>) and the 2.1
  program (\<open>scene_handle_v21\<close>, scenes being their classes). For an arbitrary
  handler the queue need not empty (a handler could keep signalling input
  events), so \<open>drain\<close> is a \<open>partial_function (option)\<close>, \<open>None\<close> standing for a
  loop that never ends; \<open>drain_total\<close> proves that it always returns when the
  handler sends no input events and nothing in answer to a signal, with the
  measure (input events in the queue, length of the queue) ordered
  lexicographically.
\<close>

record 's engine =
  scenes :: "'s list"
  running :: bool

type_synonym 's handler = "event \<Rightarrow> 's \<Rightarrow> ('s \<times> event list) result"

definition engine_dispatch ::
  "'s handler \<Rightarrow> (scene_class \<Rightarrow> 's) \<Rightarrow> event \<Rightarrow> 's engine \<Rightarrow> ('s engine \<times> event list) result" where
  "engine_dispatch h spawn ev e =
     (case ev of
        StartScene c \<Rightarrow> Inr (e\<lparr>scenes := spawn c # scenes e\<rparr>, [])
      | ReplaceScene c \<Rightarrow>
          (case scenes e of
             [] \<Rightarrow> Inl IndexError
           | _ # ss \<Rightarrow> Inr (e\<lparr>scenes := spawn c # ss\<rparr>, []))
      | StopScene \<Rightarrow>
          (case scenes e of
             [] \<Rightarrow> Inl IndexError
           | _ # ss \<Rightarrow> Inr (e\<lparr>scenes := ss, running := (running e \<and> ss \<noteq> [])\<rparr>, []))
      | _ \<Rightarrow>
          (case scenes e of
             [] \<Rightarrow> Inr (e, [])
           | s # ss \<Rightarrow>
               (case h ev s of
                  Inl err \<Rightarrow> Inl err
                | Inr (s', sigs) \<Rightarrow> Inr (e\<lparr>scenes := s' # ss\<rparr>, sigs))))"

text \<open>The scene requests. The engine empties its event queue before it changes
  scenes, so the events still queued behind a request are dropped: of several
  commits queued in one frame the first wins (spec 4.6).\<close>

fun is_request :: "event \<Rightarrow> bool" where
  "is_request (StartScene _) = True"
| "is_request (ReplaceScene _) = True"
| "is_request StopScene = True"
| "is_request _ = False"

partial_function (option) drain ::
  "'s handler \<Rightarrow> (scene_class \<Rightarrow> 's) \<Rightarrow> 's engine \<Rightarrow> event list \<Rightarrow> 's engine result option" where
  "drain h spawn e q =
     (case q of
        [] \<Rightarrow> Some (Inr e)
      | ev # q' \<Rightarrow>
          (case engine_dispatch h spawn ev e of
             Inl err \<Rightarrow> Some (Inl err)
           | Inr (e', sigs) \<Rightarrow> drain h spawn e' ((if is_request ev then [] else q') @ sigs)))"

text \<open>A handler is \<open>quiet\<close> when it never signals an input event and signals
  nothing in answer to a signal.\<close>

definition quiet :: "'s handler \<Rightarrow> bool" where
  "quiet h \<longleftrightarrow>
     (\<forall>ev s s' sigs. h ev s = Inr (s', sigs) \<longrightarrow>
        (\<forall>x \<in> set sigs. \<not> is_input x) \<and> (\<not> is_input ev \<longrightarrow> sigs = []))"

text \<open>An engine seen through an abstraction of its scenes.\<close>

definition abs_engine :: "('s \<Rightarrow> 't) \<Rightarrow> 's engine \<Rightarrow> 't engine" where
  "abs_engine \<alpha> e = \<lparr>scenes = map \<alpha> (scenes e), running = running e\<rparr>"

text \<open>The commit events of spec 4.6: a released key or a released mouse button.\<close>

fun is_commit :: "event \<Rightarrow> bool" where
  "is_commit (KeyReleased _) = True"
| "is_commit ButtonReleased = True"
| "is_commit _ = False"

text \<open>The handling of a frame's input events by one scene, in order, threading its
  state and collecting the signals it sends.\<close>

fun run_inputs :: "'s handler \<Rightarrow> event list \<Rightarrow> 's \<Rightarrow> ('s \<times> event list) result" where
  "run_inputs h [] s = Inr (s, [])"
| "run_inputs h (ev # evs) s =
     (case h ev s of
        Inl err \<Rightarrow> Inl err
      | Inr (s1, sigs1) \<Rightarrow>
          (case run_inputs h evs s1 of Inl err \<Rightarrow> Inl err | Inr (s2, sigs2) \<Rightarrow> Inr (s2, sigs1 @ sigs2)))"

subsection \<open>Evaluation rules\<close>

lemma drain_Nil [simp]: "drain h spawn e [] = Some (Inr e)"
  by (simp add: drain.simps)

lemma drain_Cons:
  "drain h spawn e (ev # q) =
     (case engine_dispatch h spawn ev e of
        Inl err \<Rightarrow> Some (Inl err)
      | Inr (e', sigs) \<Rightarrow> drain h spawn e' ((if is_request ev then [] else q) @ sigs))"
  by (subst drain.simps) simp

lemma dispatch_requests [simp]:
  "engine_dispatch h spawn (StartScene c) e = Inr (e\<lparr>scenes := spawn c # scenes e\<rparr>, [])"
  "engine_dispatch h spawn (ReplaceScene c) (e\<lparr>scenes := s # ss\<rparr>) =
     Inr (e\<lparr>scenes := spawn c # ss\<rparr>, [])"
  "engine_dispatch h spawn StopScene (e\<lparr>scenes := s # ss\<rparr>) =
     Inr (e\<lparr>scenes := ss, running := (running e \<and> ss \<noteq> [])\<rparr>, [])"
  by (simp_all add: engine_dispatch_def)

lemma dispatch_to_scene:
  "is_input ev \<or> (\<exists>bid. ev = BrickStruck bid) \<Longrightarrow>
   engine_dispatch h spawn ev \<lparr>scenes = s # ss, running = r\<rparr> =
     (case h ev s of Inl err \<Rightarrow> Inl err | Inr (s', sigs) \<Rightarrow> Inr (\<lparr>scenes = s' # ss, running = r\<rparr>, sigs))"
  by (cases ev) (auto simp: engine_dispatch_def split: sum.splits)

subsection \<open>The queue empties\<close>

lemma dispatch_quiet:
  assumes "quiet h" and "engine_dispatch h spawn ev e = Inr (e', sigs)"
  shows "(\<forall>x \<in> set sigs. \<not> is_input x) \<and> (\<not> is_input ev \<longrightarrow> sigs = [])"
  using assms
  by (cases ev) (auto simp: engine_dispatch_def quiet_def split: list.splits sum.splits prod.splits)

text \<open>One step of the loop lowers the measure: the events it queues are not
  inputs, and it queues none unless it handled an input; the queue behind a
  request is dropped.\<close>

lemma queue_decreases:
  assumes "(\<forall>x \<in> set sigs. \<not> is_input x) \<and> (\<not> is_input ev \<longrightarrow> sigs = [])"
  shows "(length (filter is_input ((if b then [] else q') @ sigs)), length ((if b then [] else q') @ sigs)) <
         (length (filter is_input (ev # q')), length (ev # q'))"
proof (cases "is_input ev")
  case True
  have "length (filter is_input (if b then [] else q')) \<le> length (filter is_input q')" by simp
  then show ?thesis using True assms by (simp add: filter_empty_conv)
next
  case False
  have "length (filter is_input (if b then [] else q')) \<le> length (filter is_input q')"
       "length (if b then [] else q') \<le> length q'" by simp_all
  then show ?thesis using False assms by (auto simp: less_prod_def le_less)
qed

lemma drain_total:
  assumes "quiet h"
  shows "\<exists>r. drain h spawn e q = Some r"
proof (induction "(length (filter is_input q), length q)" arbitrary: e q rule: less_induct)
  case less
  show ?case
  proof (cases q)
    case Nil
    then show ?thesis by simp
  next
    case (Cons ev q')
    show ?thesis
    proof (cases "engine_dispatch h spawn ev e")
      case (Inl err)
      then show ?thesis using Cons by (simp add: drain_Cons)
    next
      case (Inr r)
      obtain e' sigs where r: "r = (e', sigs)" by (cases r)
      have sigs: "(\<forall>x \<in> set sigs. \<not> is_input x) \<and> (\<not> is_input ev \<longrightarrow> sigs = [])"
        using dispatch_quiet [OF assms] Inr r by simp
      let ?q = "(if is_request ev then [] else q') @ sigs"
      have "(length (filter is_input ?q), length ?q) < (length (filter is_input q), length q)"
        using queue_decreases [OF sigs] Cons by blast
      then obtain x where "drain h spawn e' ?q = Some x" using less by blast
      then show ?thesis using Cons Inr r by (simp add: drain_Cons)
    qed
  qed
qed

lemma quiet_scene_handle: "quiet scene_handle"
  using scene_handle_signals by (simp add: quiet_def)

lemma quiet_scene_handle_v21: "quiet scene_handle_v21"
  using scene_handle_v21_signals by (simp add: quiet_def)

subsection \<open>Simulation through an abstraction of scenes\<close>

text \<open>When an abstraction of scenes commutes with the handlers and the spawning
  of scenes, it commutes with the whole frame loop: two programs whose scenes
  agree under the abstraction run the same sessions.\<close>

lemma dispatch_abs:
  assumes "\<And>ev s. h2 ev (\<alpha> s) = map_sum id (\<lambda>(s', sigs). (\<alpha> s', sigs)) (h1 ev s)"
    and "\<And>c. spawn2 c = \<alpha> (spawn1 c)"
  shows "engine_dispatch h2 spawn2 ev (abs_engine \<alpha> e) =
           map_sum id (\<lambda>(e', sigs). (abs_engine \<alpha> e', sigs)) (engine_dispatch h1 spawn1 ev e)"
  using assms
  by (cases ev; cases "scenes e")
     (auto simp: engine_dispatch_def abs_engine_def split: sum.splits prod.splits)

lemma drain_abs:
  assumes "quiet h1"
    and "\<And>ev s. h2 ev (\<alpha> s) = map_sum id (\<lambda>(s', sigs). (\<alpha> s', sigs)) (h1 ev s)"
    and "\<And>c. spawn2 c = \<alpha> (spawn1 c)"
  shows "drain h2 spawn2 (abs_engine \<alpha> e) q = map_option (map_sum id (abs_engine \<alpha>)) (drain h1 spawn1 e q)"
proof (induction "(length (filter is_input q), length q)" arbitrary: e q rule: less_induct)
  case less
  show ?case
  proof (cases q)
    case Nil
    then show ?thesis by simp
  next
    case (Cons ev q')
    have d: "engine_dispatch h2 spawn2 ev (abs_engine \<alpha> e) =
             map_sum id (\<lambda>(e', sigs). (abs_engine \<alpha> e', sigs)) (engine_dispatch h1 spawn1 ev e)"
      using dispatch_abs [of h2 \<alpha> h1 spawn2 spawn1 ev e] assms(2,3) by blast
    show ?thesis
    proof (cases "engine_dispatch h1 spawn1 ev e")
      case (Inl err)
      then show ?thesis using Cons d by (simp add: drain_Cons)
    next
      case (Inr res)
      obtain e' sigs where res: "res = (e', sigs)" by (cases res)
      have sigs: "(\<forall>x \<in> set sigs. \<not> is_input x) \<and> (\<not> is_input ev \<longrightarrow> sigs = [])"
        using dispatch_quiet [OF assms(1)] Inr res by simp
      let ?q = "(if is_request ev then [] else q') @ sigs"
      have "(length (filter is_input ?q), length ?q) < (length (filter is_input q), length q)"
        using queue_decreases [OF sigs] Cons by blast
      then show ?thesis using less [of ?q e'] Cons d Inr res by (simp add: drain_Cons)
    qed
  qed
qed
subsection \<open>Frames\<close>

lemma input_not_request [simp]: "is_input ev \<Longrightarrow> \<not> is_request ev"
  by (cases ev) simp_all

lemma drain_step:
  "\<not> is_request ev \<Longrightarrow> engine_dispatch h spawn ev e = Inr (e', sigs) \<Longrightarrow>
   drain h spawn e (ev # q) = drain h spawn e' (q @ sigs)"
  by (simp add: drain_Cons)

lemma drain_request:
  "is_request ev \<Longrightarrow> engine_dispatch h spawn ev e = Inr (e', sigs) \<Longrightarrow>
   drain h spawn e (ev # q) = Some (Inr e')"
  by (cases ev) (auto simp: drain_Cons engine_dispatch_def split: list.splits)

lemma engine_eq: "(e :: 's engine) = \<lparr>scenes = scenes e, running = running e\<rparr>"
  by simp

lemma drain_scene:
  "is_input ev \<or> (\<exists>bid. ev = BrickStruck bid) \<Longrightarrow> h ev s = Inr (s', sigs) \<Longrightarrow>
   drain h spawn \<lparr>scenes = s # ss, running = r\<rparr> (ev # q) =
   drain h spawn \<lparr>scenes = s' # ss, running = r\<rparr> (q @ sigs)"
  by (auto simp: drain_step dispatch_to_scene)

text \<open>A frame's input events are all handled, in order, by the scene running
  when the frame starts; the scene requests they cause take effect after them.\<close>

lemma drain_inputs:
  assumes "\<forall>ev \<in> set evs. is_input ev"
  shows "drain h spawn \<lparr>scenes = s # ss, running = r\<rparr> (evs @ acc) =
           (case run_inputs h evs s of
              Inl err \<Rightarrow> Some (Inl err)
            | Inr (s', sigs) \<Rightarrow> drain h spawn \<lparr>scenes = s' # ss, running = r\<rparr> (acc @ sigs))"
  using assms
proof (induction evs arbitrary: s acc)
  case Nil
  then show ?case by simp
next
  case (Cons ev evs)
  show ?case
  proof (cases "h ev s")
    case (Inl err)
    then show ?thesis using Cons.prems by (simp add: drain_Cons dispatch_to_scene)
  next
    case (Inr res)
    obtain s1 sigs1 where res: "res = (s1, sigs1)" by (cases res)
    have "drain h spawn \<lparr>scenes = s # ss, running = r\<rparr> ((ev # evs) @ acc) =
          drain h spawn \<lparr>scenes = s1 # ss, running = r\<rparr> (evs @ (acc @ sigs1))"
      using Cons.prems Inr res by (simp add: drain_step dispatch_to_scene)
    then show ?thesis using Cons.IH [of s1 "acc @ sigs1"] Cons.prems Inr res
      by (simp split: sum.splits prod.splits)
  qed
qed

lemma title_commit: "title_handle ev = (if is_commit ev then [StartScene Game] else [])"
  by (cases ev) simp_all

lemma end_commit: "end_handle ev = (if is_commit ev then [StopScene] else [])"
  by (cases ev) simp_all

lemmas commit_handlers = title_commit end_commit

end
