(* ===== verification/Session.thy ===== *)
theory Session
  imports Engine
begin

text \<open>
  The sessions of the 3.4 program on the engine: \<open>ppb.run(starting_scene=TitleScreen)\<close>
  (\<open>engine_init\<close>) followed by frames, each a batch of the host's input events
  drained by the engine (\<open>session_reachable\<close>). \<open>stack_ok\<close> lists the scene
  stacks such a session goes through; \<open>session_frame\<close> shows that every frame,
  however many commits it holds, keeps them and never raises, from the frame lemma
  \<open>drain_inputs\<close> of theory \<open>Engine\<close> and the handlers' lemmas of theory
  \<open>Game\<close>. \<open>flow\<close> is the abstract scene flow of spec 4.6 as the program
  realises it, which \<open>session_step\<close> shows each one-event frame follows.
\<close>

text \<open>The start of a session: \<open>ppb.run(starting_scene=TitleScreen)\<close>.\<close>

definition engine_init :: "scene engine" where
  "engine_init = \<lparr>scenes = [TitleScene], running = True\<rparr>"

text \<open>The scene stacks a session of the 3.4 program goes through when each frame
  brings a batch of the host's input events: the title
  alone, or a well-formed Game whose ball keeps the speed 13 of \<open>Ball()\<close>, or
  the end screen, each of the latter two above the title.\<close>

fun stack_ok :: "scene list \<Rightarrow> bool" where
  "stack_ok [TitleScene] = True"
| "stack_ok [GameScene g, TitleScene] = (game_ok g \<and> vlength (velocity (game_ball g)) = 13)"
| "stack_ok [EndScene, TitleScene] = True"
| "stack_ok _ = False"

definition session_ok :: "scene engine \<Rightarrow> bool" where
  "session_ok e \<longleftrightarrow> running e \<and> stack_ok (scenes e)"

inductive session_reachable :: "scene engine \<Rightarrow> bool" where
  start: "session_reachable engine_init"
| frame: "session_reachable e \<Longrightarrow> \<forall>ev \<in> set evs. is_input ev \<Longrightarrow>
          drain scene_handle scene_of e evs = Some (Inr e') \<Longrightarrow> session_reachable e'"

text \<open>The scene flow the program realises, one frame with one input event: the
  title starts a Game on a release (key or button), a Game ends when its
  ball moves onto a deadly wall, the end screen returns to the title on a
  release, and every other event leaves the running scene's class as it is.\<close>

fun class_of :: "scene \<Rightarrow> scene_class" where
  "class_of TitleScene = TitleScreen"
| "class_of (GameScene _) = Game"
| "class_of EndScene = EndScreen"

fun game_ends :: "event \<Rightarrow> game \<Rightarrow> bool" where
  "game_ends (Update dt) g = list_ex (\<lambda>w. deadly w \<and> collides (ball_move dt (game_ball g)) w) (game_walls g)"
| "game_ends _ g = False"

fun flow :: "event \<Rightarrow> scene \<Rightarrow> scene_class" where
  "flow ev TitleScene = (if is_commit ev then Game else TitleScreen)"
| "flow ev (GameScene g) = (if game_ends ev g then EndScreen else Game)"
| "flow ev EndScene = (if is_commit ev then TitleScreen else EndScreen)"

subsection \<open>Frames of the 3.4 program\<close>

text \<open>The signals of the Game scene, handled after its event: the end of the game
  leaves the end screen above the title, strikes of bricks keep the scene
  well-formed and its ball as it is.\<close>

lemma drain_game_signals:
  assumes "s = EndScene \<or> (\<exists>g. s = GameScene g \<and> game_ok g)"
    and "\<forall>x \<in> set sigs. x = ReplaceScene EndScreen \<or> (\<exists>bid. x = BrickStruck bid)"
  shows "\<exists>s'. drain scene_handle scene_of \<lparr>scenes = [s, TitleScene], running = True\<rparr> sigs =
                Some (Inr \<lparr>scenes = [s', TitleScene], running = True\<rparr>) \<and>
              (if s = EndScene \<or> ReplaceScene EndScreen \<in> set sigs then s' = EndScene
               else \<exists>g g'. s = GameScene g \<and> s' = GameScene g' \<and> game_ok g' \<and>
                          game_ball g' = game_ball g \<and>
                          list_emb brick_wears (game_bricks g') (game_bricks g))"
  using assms
proof (induction sigs arbitrary: s)
  case Nil
  then show ?case by auto
next
  case (Cons x xs)
  from Cons.prems(2) consider "x = ReplaceScene EndScreen" | bid where "x = BrickStruck bid" by auto
  then show ?case
  proof cases
    case 1
    have "engine_dispatch scene_handle scene_of x \<lparr>scenes = [s, TitleScene], running = True\<rparr> =
          Inr (\<lparr>scenes = [EndScene, TitleScene], running = True\<rparr>, [])"
      using 1 by (simp add: engine_dispatch_def scene_of_def)
    then show ?thesis using 1 by (simp add: drain_request)
  next
    case 2
    show ?thesis
    proof (cases s)
      case (GameScene g)
      let ?g' = "g\<lparr>game_bricks := deliver_brick_struck bid (game_bricks g)\<rparr>"
      have ok: "game_ok ?g'" using Cons.prems(1) GameScene by (simp add: game_ok_def bricks_ok_deliver)
      have "engine_dispatch scene_handle scene_of x \<lparr>scenes = [s, TitleScene], running = True\<rparr> =
            Inr (\<lparr>scenes = [GameScene ?g', TitleScene], running = True\<rparr>, [])"
        using 2 GameScene by (simp add: dispatch_to_scene)
      moreover obtain s' where
        "drain scene_handle scene_of \<lparr>scenes = [GameScene ?g', TitleScene], running = True\<rparr> xs =
           Some (Inr \<lparr>scenes = [s', TitleScene], running = True\<rparr>)"
        "if ReplaceScene EndScreen \<in> set xs then s' = EndScene
         else \<exists>g'. s' = GameScene g' \<and> game_ok g' \<and> game_ball g' = game_ball g \<and>
                    list_emb brick_wears (game_bricks g') (deliver_brick_struck bid (game_bricks g))"
        using Cons.IH [of "GameScene ?g'"] ok Cons.prems(2) by (auto split: if_splits)
      ultimately show ?thesis using 2 GameScene bricks_wear_trans [OF _ deliver_wears]
        by (auto simp: drain_step)
    next
      case EndScene
      have "engine_dispatch scene_handle scene_of x \<lparr>scenes = [s, TitleScene], running = True\<rparr> =
            Inr (\<lparr>scenes = [EndScene, TitleScene], running = True\<rparr>, [])"
        using 2 EndScene by (simp add: dispatch_to_scene)
      with Cons.IH [of EndScene] Cons.prems(2) 2 EndScene show ?thesis by (simp add: drain_step)
    qed (use Cons.prems(1) in auto)
  qed
qed

text \<open>The strikes signalled by a Game's update, handled after it, are delivered
  to the Game's bricks in the order they were signalled.\<close>

lemma drain_brick_signals:
  "drain scene_handle scene_of \<lparr>scenes = [GameScene g, TitleScene], running = True\<rparr> (map BrickStruck ids) =
   Some (Inr \<lparr>scenes = [GameScene (g\<lparr>game_bricks := fold deliver_brick_struck ids (game_bricks g)\<rparr>),
                       TitleScene], running = True\<rparr>)"
proof (induction ids arbitrary: g)
  case Nil
  then show ?case by simp
next
  case (Cons bid ids)
  have "drain scene_handle scene_of \<lparr>scenes = [GameScene g, TitleScene], running = True\<rparr> (map BrickStruck (bid # ids)) =
        drain scene_handle scene_of
          \<lparr>scenes = [GameScene (g\<lparr>game_bricks := deliver_brick_struck bid (game_bricks g)\<rparr>), TitleScene],
           running = True\<rparr> (map BrickStruck ids)"
    by (simp add: drain_step dispatch_to_scene)
  then show ?case using Cons.IH by simp
qed

lemma stack_ok_iff:
  "stack_ok ss \<longleftrightarrow>
     ss = [TitleScene] \<or> ss = [EndScene, TitleScene] \<or>
     (\<exists>g. ss = [GameScene g, TitleScene] \<and> game_ok g \<and> vlength (velocity (game_ball g)) = 13)"
  by (cases ss rule: stack_ok.cases) auto

lemma release_cases:
  obtains "title_handle ev = [StartScene Game]" "end_handle ev = [StopScene]" "is_commit ev"
  | "title_handle ev = []" "end_handle ev = []" "\<not> is_commit ev"
  by (cases ev) auto

lemma game_end_signal_iff:
  assumes "game_handle ev g = Inr (g', sigs)" and "game_ok g"
  shows "ReplaceScene EndScreen \<in> set sigs \<longleftrightarrow> game_ends ev g"
proof (cases ev)
  case (Update dt)
  have "game_paddles g \<noteq> []" using assms(2) by (auto simp: game_ok_def)
  then show ?thesis using game_update_end_signal [of dt g g' sigs] assms(1) Update
    by (simp add: list_ex_iff)
qed (use assms(1) in \<open>auto split: sum.splits\<close>)

text \<open>A frame of a well-formed Game whose ball reaches no deadly wall: the Game
  handles \<open>Update\<close>, then its strikes are delivered to its bricks.\<close>

lemma game_frame:
  assumes "game_ok g" and "\<not> game_ends (Update dt) g" and "game_handle (Update dt) g = Inr (g1, sigs)"
  shows "drain scene_handle scene_of \<lparr>scenes = [GameScene g, TitleScene], running = True\<rparr> [Update dt] =
           Some (Inr \<lparr>scenes = [GameScene (g1\<lparr>game_bricks := fold deliver_brick_struck
                          (map brick_id (filter (collides (ball_move dt (game_ball g))) (game_bricks g)))
                          (game_bricks g1)\<rparr>), TitleScene], running = True\<rparr>)"
proof -
  let ?ids = "map brick_id (filter (collides (ball_move dt (game_ball g))) (game_bricks g))"
  have "game_paddles g \<noteq> []" using assms(1) by (auto simp: game_ok_def)
  then have "sigs = map BrickStruck ?ids"
    using game_update_signals_eq [OF assms(3)] assms(2) by (auto simp: list_ex_iff filter_empty_conv)
  then show ?thesis
    using drain_scene [of "Update dt" scene_handle "GameScene g" "GameScene g1" sigs] assms(3)
      drain_brick_signals [of g1 ?ids] by simp
qed

text \<open>One frame with one input event, from a session in a known state, returns a
  session in a known state.\<close>

lemma session_step:
  assumes "session_ok e" and "is_input ev"
  shows "\<exists>e'. drain scene_handle scene_of e [ev] = Some (Inr e') \<and> session_ok e' \<and>
              class_of (hd (scenes e')) = flow ev (hd (scenes e))"
proof -
  have e: "e = \<lparr>scenes = scenes e, running = True\<rparr>" and st: "stack_ok (scenes e)"
    using assms(1) engine_eq [of e] by (simp_all add: session_ok_def)
  have inp: "is_input ev \<or> (\<exists>bid. ev = BrickStruck bid)" using assms(2) by simp
  from st consider "scenes e = [TitleScene]" | "scenes e = [EndScene, TitleScene]"
    | g where "scenes e = [GameScene g, TitleScene]" "game_ok g" "vlength (velocity (game_ball g)) = 13"
    by (auto simp: stack_ok_iff)
  then show ?thesis
  proof cases
    case 1
    have d: "drain scene_handle scene_of e [ev] =
             drain scene_handle scene_of \<lparr>scenes = [TitleScene], running = True\<rparr> (title_handle ev)"
      using 1 e drain_scene [OF inp, of scene_handle TitleScene] by (metis scene_handle.simps(1) append_Nil)
    show ?thesis
    proof (cases ev rule: release_cases)
      case 1
      have "session_ok \<lparr>scenes = [GameScene game_init, TitleScene], running = True\<rparr>"
        using game_init_ok new_ball_speed by (simp add: session_ok_def game_init_def)
      with d 1 \<open>scenes e = [TitleScene]\<close> show ?thesis by (simp add: drain_Cons engine_dispatch_def scene_of_def)
    next
      case 2
      with d \<open>scenes e = [TitleScene]\<close> show ?thesis by (simp add: session_ok_def)
    qed
  next
    case 2
    have d: "drain scene_handle scene_of e [ev] =
             drain scene_handle scene_of \<lparr>scenes = [EndScene, TitleScene], running = True\<rparr> (end_handle ev)"
      using 2 e drain_scene [OF inp, of scene_handle EndScene] by (metis scene_handle.simps(3) append_Nil)
    show ?thesis
    proof (cases ev rule: release_cases)
      case 1
      with d \<open>scenes e = [EndScene, TitleScene]\<close> show ?thesis
        by (simp add: drain_Cons engine_dispatch_def session_ok_def)
    next
      case 2
      with d \<open>scenes e = [EndScene, TitleScene]\<close> show ?thesis by (simp add: session_ok_def)
    qed
  next
    case 3
    obtain g' sigs where g': "game_handle ev g = Inr (g', sigs)" "game_ok g'"
      "vlength (velocity (game_ball g')) = 13"
      using game_handle_ok [OF 3(2), of ev] 3(3) by auto
    have sigs: "\<forall>x \<in> set sigs. x = ReplaceScene EndScreen \<or> (\<exists>bid. x = BrickStruck bid)"
      using game_handle_signals [OF g'(1)] by auto
    have "drain scene_handle scene_of e [ev] =
          drain scene_handle scene_of \<lparr>scenes = [GameScene g', TitleScene], running = True\<rparr> sigs"
      using 3(1) e g'(1) drain_scene [OF inp, of scene_handle "GameScene g" "GameScene g'" sigs]
      by (metis scene_handle.simps(2) sum.simps(6) prod.case append_Nil)
    moreover obtain s' where
      "drain scene_handle scene_of \<lparr>scenes = [GameScene g', TitleScene], running = True\<rparr> sigs =
         Some (Inr \<lparr>scenes = [s', TitleScene], running = True\<rparr>)"
      "if game_ends ev g then s' = EndScene
       else \<exists>g''. s' = GameScene g'' \<and> game_ok g'' \<and> game_ball g'' = game_ball g'"
      using drain_game_signals [OF _ sigs, of "GameScene g'"] g'(2)
        game_end_signal_iff [OF g'(1) 3(2)] by auto
    ultimately show ?thesis using g'(3) 3(1) by (auto simp: session_ok_def split: if_splits)
  qed
qed

lemma run_title: "run_inputs scene_handle evs TitleScene = Inr (TitleScene, map (\<lambda>_. StartScene Game) (filter is_commit evs))"
  by (induction evs) (simp_all add: commit_handlers)

lemma run_end: "run_inputs scene_handle evs EndScene = Inr (EndScene, map (\<lambda>_. StopScene) (filter is_commit evs))"
  by (induction evs) (simp_all add: commit_handlers)

lemma run_game:
  assumes "game_ok g" and "vlength (velocity (game_ball g)) = 13"
  shows "\<exists>g' sigs. run_inputs scene_handle evs (GameScene g) = Inr (GameScene g', sigs) \<and>
           game_ok g' \<and> vlength (velocity (game_ball g')) = 13 \<and>
           list_emb brick_wears (game_bricks g') (game_bricks g) \<and>
           (\<forall>x \<in> set sigs. x = ReplaceScene EndScreen \<or> (\<exists>bid. x = BrickStruck bid))"
  using assms
proof (induction evs arbitrary: g)
  case Nil
  then show ?case by simp
next
  case (Cons ev evs)
  obtain g1 sigs1 where g1: "game_handle ev g = Inr (g1, sigs1)" "game_ok g1"
    "vlength (velocity (game_ball g1)) = 13"
    using game_handle_ok [OF Cons.prems(1), of ev] Cons.prems(2) by auto
  have s1: "\<forall>x \<in> set sigs1. x = ReplaceScene EndScreen \<or> (\<exists>bid. x = BrickStruck bid)"
    using game_handle_signals [OF g1(1)] by auto
  obtain g2 sigs2 where "run_inputs scene_handle evs (GameScene g1) = Inr (GameScene g2, sigs2)"
    "game_ok g2" "vlength (velocity (game_ball g2)) = 13"
    "list_emb brick_wears (game_bricks g2) (game_bricks g1)"
    "\<forall>x \<in> set sigs2. x = ReplaceScene EndScreen \<or> (\<exists>bid. x = BrickStruck bid)"
    using Cons.IH [OF g1(2,3)] by blast
  then show ?case using g1(1) s1 bricks_wear_trans [OF _ game_handle_wears [OF g1(1)]] by auto
qed

text \<open>The requests a frame's commits send: the first is carried out, the queue
  behind it dropped.\<close>

lemma drain_same_requests:
  "is_request r \<Longrightarrow>
   drain h spawn e (map (\<lambda>_. r) xs) = (if xs = [] then Some (Inr e) else drain h spawn e [r])"
  by (cases xs) (simp_all add: drain_Cons split: sum.splits prod.splits)

text \<open>A frame of input events, from a session in a known state, returns a session in a known state.\<close>

lemma session_frame:
  assumes "session_ok e" and "\<forall>ev \<in> set evs. is_input ev"
  shows "\<exists>e'. drain scene_handle scene_of e evs = Some (Inr e') \<and> session_ok e'"
proof -
  have e: "e = \<lparr>scenes = scenes e, running = True\<rparr>" and st: "stack_ok (scenes e)"
    using assms(1) engine_eq [of e] by (simp_all add: session_ok_def)
  have d: "drain scene_handle scene_of \<lparr>scenes = s # ss, running = True\<rparr> evs =
           (case run_inputs scene_handle evs s of
              Inl err \<Rightarrow> Some (Inl err)
            | Inr (s', sigs) \<Rightarrow> drain scene_handle scene_of \<lparr>scenes = s' # ss, running = True\<rparr> sigs)" for s ss
    using drain_inputs [OF assms(2), of scene_handle scene_of s ss True "[]"] by (simp split: sum.splits)
  from st consider "scenes e = [TitleScene]" | "scenes e = [EndScene, TitleScene]"
    | g where "scenes e = [GameScene g, TitleScene]" "game_ok g" "vlength (velocity (game_ball g)) = 13"
    by (auto simp: stack_ok_iff)
  then show ?thesis
  proof cases
    case 1
    have "session_ok \<lparr>scenes = [GameScene game_init, TitleScene], running = True\<rparr>"
      using game_init_ok new_ball_speed by (simp add: session_ok_def game_init_def)
    then show ?thesis
      using d [of TitleScene "[]"] 1 e assms(1)
      by (auto simp: run_title drain_same_requests drain_Cons engine_dispatch_def scene_of_def)
  next
    case 2
    then show ?thesis
      using d [of EndScene "[TitleScene]"] e assms(1)
      by (auto simp: run_end drain_same_requests drain_Cons engine_dispatch_def session_ok_def)
  next
    case 3
    obtain g' sigs where g': "run_inputs scene_handle evs (GameScene g) = Inr (GameScene g', sigs)"
      "game_ok g'" "vlength (velocity (game_ball g')) = 13"
      "\<forall>x \<in> set sigs. x = ReplaceScene EndScreen \<or> (\<exists>bid. x = BrickStruck bid)"
      using run_game [OF 3(2,3)] by blast
    obtain s' where
      "drain scene_handle scene_of \<lparr>scenes = [GameScene g', TitleScene], running = True\<rparr> sigs =
         Some (Inr \<lparr>scenes = [s', TitleScene], running = True\<rparr>)"
      "s' = EndScene \<or> (\<exists>g''. s' = GameScene g'' \<and> game_ok g'' \<and> game_ball g'' = game_ball g')"
      using drain_game_signals [OF _ g'(4), of "GameScene g'"] g'(2) by (auto split: if_splits)
    then show ?thesis using d [of "GameScene g" "[TitleScene]"] 3(1) e g'(1,3)
      by (auto simp: session_ok_def)
  qed
qed

lemma session_reachable_ok: "session_reachable e \<Longrightarrow> session_ok e"
proof (induction rule: session_reachable.induct)
  case start
  then show ?case by (simp add: session_ok_def engine_init_def)
next
  case (frame e evs e')
  then show ?case using session_frame by fastforce
qed
text \<open>The definitions a concrete frame of the Game unfolds, for computing
  scenarios.\<close>

lemmas frame_eval = game_init_def game_on_update_def ball_on_update_def field_walls_def new_wall_def
  collides_def sprite_extents ball_move_def Vector_ops vscale_def ball_paddle_def new_paddle_def
  new_brick_def ball_bricks_hit paddle_on_update_def Let_def normalize_def reflect_def dot_def


end
