(* ===== verification/Variants.thy ===== *)
theory Variants
  imports Engine
begin

text \<open>
  The programs of src/3.1-a-ball/breakout.py, src/3.2-the-walls/brickbreaker.py
  and src/3.3-the-paddle/paddle.py as whole programs on the engine of theory
  \<open>Engine\<close>. Their TitleScreen and EndScreen are those of 3.4 (\<open>title_handle\<close>,
  \<open>end_handle\<close>); their Game scenes differ:
  \<^item> 3.1: a ball (\<open>Up * 15\<close> from \<open>(0, -14)\<close>) that only moves; any release
    ends the game (\<open>ReplaceScene(EndScreen)\<close>);
  \<^item> 3.2: the same ball, now \<open>UpAndRight * 15\<close>, bouncing off four walls none
    of which is deadly; any release ends the game;
  \<^item> 3.3: the 3.4 ball, the four walls and a paddle (height 0.5, speed 7) with
    the angled bounce; the Game has no release handler and no deadly wall.
  The program of src/2.2-the-title-screen/breakout.py is modelled the same way,
  its Game scene holding nothing (\<open>game_handle_v22\<close>).
  \<open>vscene\<close> is a running scene of such a program, parameterised by the state
  of its Game scene; \<open>vscene_handle\<close> dispatches an event to it. Through the
  class of each scene (\<open>vscene_class\<close>) the programs 2.2, 3.1 and 3.2 run
  exactly the sessions of 2.1 (\<open>flows_refine_v21\<close>, from the engine's
  simulation lemma \<open>drain_abs\<close>); 3.3 does not, its Game being never left.
\<close>

datatype 'g vscene = VTitle | VGame 'g | VEnd

definition vscene_of :: "'g \<Rightarrow> scene_class \<Rightarrow> 'g vscene" where
  "vscene_of init c = (case c of TitleScreen \<Rightarrow> VTitle | Game \<Rightarrow> VGame init | EndScreen \<Rightarrow> VEnd)"

fun vscene_handle :: "'g handler \<Rightarrow> 'g vscene handler" where
  "vscene_handle gh ev VTitle = Inr (VTitle, title_handle ev)"
| "vscene_handle gh ev (VGame g) =
     (case gh ev g of Inl e \<Rightarrow> Inl e | Inr (g', sigs) \<Rightarrow> Inr (VGame g', sigs))"
| "vscene_handle gh ev VEnd = Inr (VEnd, end_handle ev)"

subsection \<open>3.1 and 3.2\<close>

definition new_ball_v31 :: ball where
  "new_ball_v31 = \<lparr>position = Vector 0 (-14), width = 1, height = 1, velocity = vscale 15 Up\<rparr>"

definition new_ball_v32 :: ball where
  "new_ball_v32 = \<lparr>position = Vector 0 (-14), width = 1, height = 1, velocity = vscale 15 UpAndRight\<rparr>"

text \<open>The walls of \<open>Game.__init__\<close> in 3.2 and 3.3: those of 3.4, none deadly
  (the 3.2 and 3.3 \<open>Wall\<close> has no \<open>deadly\<close> attribute).\<close>

definition field_walls_v32 :: "wall list" where
  "field_walls_v32 =
     [new_wall 26 1 (Vector 0 (33 / 2)) Down False,
      new_wall 26 1 (Vector 0 (- 33 / 2)) Up False,
      new_wall 1 34 (Vector 12 0) Left False,
      new_wall 1 34 (Vector (-12) 0) Right False]"

text \<open>The Game scene of 3.1 (its state is its ball): \<open>Update\<close> goes to the ball,
  a release to the scene's own handlers.\<close>

fun game_handle_v31 :: "ball handler" where
  "game_handle_v31 (Update dt) b = Inr (ball_on_update_v31 dt b, [])"
| "game_handle_v31 (KeyReleased _) b = Inr (b, [ReplaceScene EndScreen])"
| "game_handle_v31 ButtonReleased b = Inr (b, [ReplaceScene EndScreen])"
| "game_handle_v31 _ b = Inr (b, [])"

fun game_handle_v32 :: "ball handler" where
  "game_handle_v32 (Update dt) b = Inr (ball_on_update_v32 dt field_walls_v32 b, [])"
| "game_handle_v32 (KeyReleased _) b = Inr (b, [ReplaceScene EndScreen])"
| "game_handle_v32 ButtonReleased b = Inr (b, [ReplaceScene EndScreen])"
| "game_handle_v32 _ b = Inr (b, [])"

text \<open>The program of src/2.2-the-title-screen/breakout.py: its Game scene holds no
  entity and ends on any release; its TitleScreen adds only the title text
  (drawing) to that of 2.1, so its running scenes are \<open>unit vscene\<close>.\<close>

fun game_handle_v22 :: "unit handler" where
  "game_handle_v22 (KeyReleased _) u = Inr (u, [ReplaceScene EndScreen])"
| "game_handle_v22 ButtonReleased u = Inr (u, [ReplaceScene EndScreen])"
| "game_handle_v22 _ u = Inr (u, [])"

text \<open>The class of a running scene: the abstraction under which these programs
  are compared with the 2.1 program, whose scenes are their classes.\<close>

fun vscene_class :: "'g vscene \<Rightarrow> scene_class" where
  "vscene_class VTitle = TitleScreen"
| "vscene_class (VGame _) = Game"
| "vscene_class VEnd = EndScreen"

subsection \<open>3.3\<close>

record game33 =
  ball33 :: ball
  paddle33 :: paddle

definition new_paddle_v33 :: "vector \<Rightarrow> paddle" where
  "new_paddle_v33 p = (new_paddle p)\<lparr>height := 1 / 2, speed := 7\<rparr>"

definition game33_init :: game33 where
  "game33_init = \<lparr>ball33 = new_ball, paddle33 = new_paddle_v33 (Vector 0 (-14))\<rparr>"

text \<open>The Game scene of 3.3: \<open>Update\<close> goes to the ball, then to the paddle
  (insertion order); key and mouse events to the paddle; the scene itself
  handles nothing.\<close>

fun game_handle_v33 :: "game33 handler" where
  "game_handle_v33 (Update dt) g =
     (case ball_on_update_v33 dt field_walls_v32 [paddle33 g] (ball33 g) of
        Inl e \<Rightarrow> Inl e
      | Inr b \<Rightarrow>
          (case paddle_on_update dt (paddle33 g) of
             Inl e \<Rightarrow> Inl e
           | Inr p \<Rightarrow> Inr (\<lparr>ball33 = b, paddle33 = p\<rparr>, [])))"
| "game_handle_v33 (KeyPressed k) g = Inr (g\<lparr>paddle33 := paddle_on_key_pressed k (paddle33 g)\<rparr>, [])"
| "game_handle_v33 (KeyReleased k) g = Inr (g\<lparr>paddle33 := paddle_on_key_released k (paddle33 g)\<rparr>, [])"
| "game_handle_v33 (MouseMotion v) g = Inr (g\<lparr>paddle33 := paddle_on_mouse_motion v (paddle33 g)\<rparr>, [])"
| "game_handle_v33 _ g = Inr (g, [])"

definition game33_ok :: "game33 \<Rightarrow> bool" where
  "game33_ok g \<longleftrightarrow> paddle_ok (paddle33 g) \<and> width (paddle33 g) = 3"

subsection \<open>Lemmas\<close>

lemma paddle_update_width: "paddle_on_update dt p = Inr p' \<Longrightarrow> width p' = width p"
  using paddle_update_extent by blast

lemma paddle_handlers_width [simp]:
  "width (paddle_on_key_pressed k p) = width p"
  "width (paddle_on_key_released k p) = width p"
  "width (paddle_on_mouse_motion v p) = width p"
  by (simp_all add: paddle_on_key_pressed_def paddle_on_key_released_def paddle_on_mouse_motion_def)

lemma paddle_bounce_normal_ok: "width p \<noteq> 0 \<Longrightarrow> \<exists>n. paddle_bounce_normal b p = Inr n"
  by (simp add: paddle_bounce_normal_def Let_def sprite_extents)

lemma ball_update_v33_ok: "width p \<noteq> 0 \<Longrightarrow> \<exists>b'. ball_on_update_v33 dt ws [p] b = Inr b'"
proof -
  assume "width p \<noteq> 0"
  then obtain n where "paddle_bounce_normal (bounce_walls (ball_move dt b) ws) p = Inr n"
    using paddle_bounce_normal_ok by blast
  then show ?thesis by (simp add: ball_on_update_v33_def Let_def)
qed

text \<open>A Game scene that answers exactly the commit events with
  \<open>ReplaceScene(EndScreen)\<close> and never raises: under \<open>vscene_class\<close> its program
  is the 2.1 program.\<close>

lemma v21_abs:
  assumes "\<And>ev g. \<exists>g'. gh ev g = Inr (g', if is_commit ev then [ReplaceScene EndScreen] else [])"
  shows "scene_handle_v21 ev (vscene_class s) =
           map_sum id (\<lambda>(s', sigs). (vscene_class s', sigs)) (vscene_handle gh ev s)"
proof (cases s)
  case (VGame g)
  obtain g' where "gh ev g = Inr (g', if is_commit ev then [ReplaceScene EndScreen] else [])"
    using assms by blast
  then show ?thesis using VGame by (cases ev) simp_all
qed (cases ev; simp; fail)+

lemma quiet_vscene:
  assumes "\<And>ev g. \<exists>g'. gh ev g = Inr (g', if is_commit ev then [ReplaceScene EndScreen] else [])"
  shows "quiet (vscene_handle gh)"
proof -
  have "(\<forall>x \<in> set sigs. \<not> is_input x) \<and> (\<not> is_input ev \<longrightarrow> sigs = [])"
    if h: "vscene_handle gh ev s = Inr (s', sigs)" for ev s s' sigs
  proof (cases s)
    case (VGame g)
    obtain g' where "gh ev g = Inr (g', if is_commit ev then [ReplaceScene EndScreen] else [])"
      using assms by blast
    then show ?thesis using h VGame by (cases ev) auto
  qed (use h in \<open>cases ev; auto\<close>)+
  then show ?thesis by (simp add: quiet_def)
qed

lemma commit_games:
  "\<exists>u'. game_handle_v22 ev u = Inr (u', if is_commit ev then [ReplaceScene EndScreen] else [])"
  "\<exists>b'. game_handle_v31 ev b = Inr (b', if is_commit ev then [ReplaceScene EndScreen] else [])"
  "\<exists>b'. game_handle_v32 ev b = Inr (b', if is_commit ev then [ReplaceScene EndScreen] else [])"
  by (cases ev; simp; fail)+

lemma spawn_abs: "id c = vscene_class (vscene_of init c)"
  by (cases c) (simp_all add: vscene_of_def)

lemma flow_abs:
  assumes "\<And>ev g. \<exists>g'. gh ev g = Inr (g', if is_commit ev then [ReplaceScene EndScreen] else [])"
  shows "drain scene_handle_v21 id (abs_engine vscene_class e) q =
           map_option (map_sum id (abs_engine vscene_class)) (drain (vscene_handle gh) (vscene_of init) e q)"
  by (rule drain_abs [OF quiet_vscene [OF assms] v21_abs [OF assms] spawn_abs])

text \<open>Every event keeps a 3.3 Game well-formed, never raises there and signals
  nothing.\<close>

lemma game_handle_v33_ok:
  assumes "game33_ok g"
  shows "\<exists>g'. game_handle_v33 ev g = Inr (g', []) \<and> game33_ok g'"
proof (cases ev)
  case (Update dt)
  obtain b' where b': "ball_on_update_v33 dt field_walls_v32 [paddle33 g] (ball33 g) = Inr b'"
    using ball_update_v33_ok assms by (fastforce simp: game33_ok_def)
  obtain p' where p': "paddle_on_update dt (paddle33 g) = Inr p'" "paddle_ok p'"
    using paddle_update_ok assms by (fastforce simp: game33_ok_def)
  have "width p' = 3" using paddle_update_width [OF p'(1)] assms by (simp add: game33_ok_def)
  then show ?thesis using Update b' p' by (simp add: game33_ok_def)
next
  case (KeyPressed k)
  then show ?thesis using assms by (simp add: game33_ok_def paddle_ok_key_pressed)
next
  case (KeyReleased k)
  then show ?thesis using assms by (simp add: game33_ok_def paddle_ok_key_released)
next
  case (MouseMotion v)
  then show ?thesis using assms by (simp add: game33_ok_def paddle_ok_mouse_motion)
qed (simp_all add: assms)

lemma unit_normals_v32: "unit_normals field_walls_v32"
  by (simp add: unit_normals_def field_walls_v32_def new_wall_def unit_directions)

lemma game_handle_v33_speed:
  assumes "game_handle_v33 ev g = Inr (g', sigs)"
  shows "vlength (velocity (ball33 g')) = vlength (velocity (ball33 g))"
proof (cases ev)
  case (Update dt)
  then show ?thesis
    using assms ball_update_v33_speed [OF unit_normals_v32, of dt "[paddle33 g]" "ball33 g"]
    by (auto split: sum.splits)
qed (use assms in auto)

lemma v33_frame:
  assumes "game33_ok g" and "\<forall>ev \<in> set evs. is_input ev"
  shows "\<exists>g'. drain (vscene_handle game_handle_v33) (vscene_of game33_init)
                \<lparr>scenes = [VGame g, VTitle], running = True\<rparr> evs =
              Some (Inr \<lparr>scenes = [VGame g', VTitle], running = True\<rparr>) \<and> game33_ok g' \<and>
              vlength (velocity (ball33 g')) = vlength (velocity (ball33 g))"
  using assms
proof (induction evs arbitrary: g)
  case Nil
  then show ?case by auto
next
  case (Cons ev evs)
  obtain g' where g': "game_handle_v33 ev g = Inr (g', [])" "game33_ok g'"
    using game_handle_v33_ok [OF Cons.prems(1)] by blast
  have "drain (vscene_handle game_handle_v33) (vscene_of game33_init)
          \<lparr>scenes = [VGame g, VTitle], running = True\<rparr> (ev # evs) =
        drain (vscene_handle game_handle_v33) (vscene_of game33_init)
          \<lparr>scenes = [VGame g', VTitle], running = True\<rparr> evs"
    using drain_scene [of ev "vscene_handle game_handle_v33" "VGame g" "VGame g'" "[]"] g'(1) Cons.prems(2)
    by simp
  then show ?case using Cons.IH [OF g'(2)] Cons.prems(2) game_handle_v33_speed [OF g'(1)] by simp
qed

subsection \<open>Properties of the earlier programs\<close>

text \<open>C23: once a 3.3 Game is running above the title, no frame of input events,
  however many and whichever, leaves it: the scene never raises (the paddle is 3
  wide, so the angled bounce never divides by zero) and signals nothing, since
  the 3.3 Game has no release handler and no deadly wall.\<close>

theorem v33_game_never_ends:
  assumes "game33_ok g" and "\<forall>ev \<in> set evs. is_input ev"
  shows "\<exists>g'. drain (vscene_handle game_handle_v33) (vscene_of game33_init)
                \<lparr>scenes = [VGame g, VTitle], running = True\<rparr> evs =
              Some (Inr \<lparr>scenes = [VGame g', VTitle], running = True\<rparr>) \<and> game33_ok g'"
  using v33_frame [OF assms] by blast

theorem v33_game_never_ends_witness:
  "\<exists>g'. drain (vscene_handle game_handle_v33) (vscene_of game33_init)
          \<lparr>scenes = [VGame game33_init, VTitle], running = True\<rparr>
          [KeyReleased KeyLeft, ButtonReleased, Update (1 / 60)] =
        Some (Inr \<lparr>scenes = [VGame g', VTitle], running = True\<rparr>) \<and> game33_ok g'"
proof (rule v33_game_never_ends)
  show "game33_ok game33_init"
    by (simp add: game33_ok_def game33_init_def new_paddle_v33_def new_paddle_def paddle_ok_def)
qed simp

text \<open>C24: a 3.3 Game keeps its ball's speed through any frame of input events:
  the walls reflect about unit normals and the angled paddle normal is
  normalised before the reflection.\<close>

theorem v33_ball_keeps_speed:
  assumes "game33_ok g" and "\<forall>ev \<in> set evs. is_input ev"
  shows "\<exists>g'. drain (vscene_handle game_handle_v33) (vscene_of game33_init)
                \<lparr>scenes = [VGame g, VTitle], running = True\<rparr> evs =
              Some (Inr \<lparr>scenes = [VGame g', VTitle], running = True\<rparr>) \<and>
              vlength (velocity (ball33 g')) = vlength (velocity (ball33 g))"
  using v33_frame [OF assms] by blast

theorem v33_ball_keeps_speed_witness:
  "\<exists>g'. drain (vscene_handle game_handle_v33) (vscene_of game33_init)
          \<lparr>scenes = [VGame game33_init, VTitle], running = True\<rparr>
          [MouseMotion (Vector 1 (-14)), Update (1 / 60), KeyPressed KeyLeft, Update (1 / 60)] =
        Some (Inr \<lparr>scenes = [VGame g', VTitle], running = True\<rparr>) \<and>
        vlength (velocity (ball33 g')) = 13"
proof -
  have ok: "game33_ok game33_init"
    by (simp add: game33_ok_def game33_init_def new_paddle_v33_def new_paddle_def paddle_ok_def)
  have "vlength (velocity (ball33 game33_init)) = 13"
    using new_ball_speed by (simp add: game33_init_def)
  then show ?thesis
    using v33_ball_keeps_speed [OF ok, of "[MouseMotion (Vector 1 (-14)), Update (1 / 60), KeyPressed KeyLeft, Update (1 / 60)]"]
    by simp
qed

text \<open>C32: the scene flow of the programs 2.2, 3.1 and 3.2 is that of 2.1: for any
  session state and any queue of events, the frame loop of each of them, seen
  through the class of each running scene, computes exactly what the frame
  loop of the 2.1 program computes from the abstracted state (the same errors,
  the same stacks of classes, the same running flag). The 3.3 program is not
  among them: its Game has no release handler.\<close>

theorem flows_refine_v21:
  "drain scene_handle_v21 id (abs_engine vscene_class e1) q =
     map_option (map_sum id (abs_engine vscene_class)) (drain (vscene_handle game_handle_v22) (vscene_of ()) e1 q) \<and>
   drain scene_handle_v21 id (abs_engine vscene_class e2) q =
     map_option (map_sum id (abs_engine vscene_class)) (drain (vscene_handle game_handle_v31) (vscene_of new_ball_v31) e2 q) \<and>
   drain scene_handle_v21 id (abs_engine vscene_class e3) q =
     map_option (map_sum id (abs_engine vscene_class)) (drain (vscene_handle game_handle_v32) (vscene_of new_ball_v32) e3 q)"
  by (intro conjI; rule flow_abs, rule commit_games)

end
