(* ===== verification/Spec2Isabelle.thy ===== *)
theory Spec2Isabelle
  imports Session Variants
begin

text \<open>
  \<^bold>\<open>A verification development of the ppb brick-breaker tutorial.\<close>

  The repository builds a brick breaker on the ppb engine in six steps, one
  program per directory of src/: 2.1 (scene flow), 2.2 (title text), 3.1 (a
  moving ball), 3.2 (walls), 3.3 (a paddle with an angled bounce) and 3.4 (the
  full game with bricks, a deadly bottom wall and a fixed paddle bounce). The
  development models the full program of src/3.4-the-blocks/bricks.py, and the
  parts of the earlier programs that differ from it, as HOL functions over
  reals (Python floats without rounding).

  \<^bold>\<open>The parts and how they interact.\<close> The host engine (ppb) keeps a stack
  of scenes and a queue of events. Each frame it delivers input events
  (\<open>Update\<close> with the time step, key, mouse and button events, \<open>PreRender\<close>)
  to the running scene, which passes them to its sprites; handlers answer with
  signals (\<open>StartScene\<close>, \<open>ReplaceScene\<close>, \<open>StopScene\<close>, the program's own
  \<open>BrickStruck\<close>) that the engine queues after the events of the frame.
  \<^item> \<open>Prelude\<close>: Python's errors (\<open>error + 'a\<close> results), list indexing
    \<open>py_get\<close> with negative indices, \<open>range\<close> as \<open>py_range\<close>, and a fallible
    map \<open>map_result\<close>.
  \<^item> \<open>Vector\<close>: \<open>ppb.Vector\<close> and \<open>ppb.directions\<close> (library code, modelled
    from spec 4.1): sum, scaling, dot product, length, \<open>normalize\<close> (zero for
    the zero vector, as spec 4.1 has it, where ppb's own \<open>Vector\<close> raises; the
    program reaches it only when the ball's centre is exactly a brick's),
    \<open>reflect\<close>; reflection is an involution and keeps
    length about a unit normal.
  \<^item> \<open>Sprite\<close>: the extents of \<open>ppb.Sprite\<close> and \<open>Ball.collides\<close>
    (bricks.py 40-45); it is symmetric, refines the abstract overlap of two
    boxes.
  \<^item> \<open>Events\<close>: the events and signals, keys and scene classes.
  \<^item> \<open>Brick\<close>: \<open>Brick\<close> (bricks.py 111-127) as a record with an identity;
    \<open>BrickStruck\<close> delivered to its target by identity
    (\<open>deliver_brick_struck\<close>); a brick is removed after exactly its hits;
    \<open>on_pre_render\<close> picks the colour tier with Python indexing, raising
    \<open>IndexError\<close> only outside -2..3.
  \<^item> \<open>Paddle\<close>: \<open>Paddle\<close> (bricks.py 57-108) and its four handlers; the
    keyboard scheme moves by \<open>speed * dt\<close>, the mouse scheme never overshoots,
    and under either scheme one step changes only the position, by at most
    \<open>speed * dt\<close>.
  \<^item> \<open>Ball\<close>: \<open>Ball\<close>, \<open>Wall\<close> and \<open>Ball.on_update\<close> of 3.4 as the composition
    of its stages (move, wall loop, paddle bounce, brick loop), and the updates
    of 3.1, 3.2 and 3.3; the update keeps the ball's speed, signals the deadly
    walls and bricks it overlaps, and extends the 3.2 update.
  \<^item> \<open>Game\<close>: the Game scene (bricks.py 151-163): its entities, the 70-brick
    grid of \<open>Game.__init__\<close>, and the dispatch of each event to its entities
    in insertion order (ball before paddle); \<open>game_ok\<close> (one paddle in a sound
    control state, distinct brick identities with 1 to 3 hits, unit wall
    normals) holds initially and after every event, every event only wears the
    scene's bricks (\<open>brick_wears\<close>), and the grid's bricks are pairwise
    disjoint.
  \<^item> \<open>Scenes\<close>: TitleScreen, Game and EndScreen of 3.4 (lines 130-173) and the
    scene flow of 2.1.
  \<^item> \<open>Engine\<close>: \<open>ppb.GameEngine\<close> (library code, modelled from spec 4.6, 5
    and 6): the scene stack, the three scene requests, before which the queue
    is emptied (\<open>is_request\<close>), and \<open>drain\<close>, the loop that
    empties the event queue of a frame, a \<open>partial_function (option)\<close> because
    for an arbitrary handler it need not end; \<open>drain_inputs\<close> shows that all
    the inputs of a frame go to the scene running at its start, and
    \<open>drain_abs\<close> that an abstraction of scenes commuting with the handlers
    commutes with the whole loop.
  \<^item> \<open>Session\<close>: the sessions of the 3.4 program, \<open>session_reachable\<close>
    states: frames of input events, any number of them commits, from
    \<open>ppb.run(starting_scene=TitleScreen)\<close>; their stacks (\<open>stack_ok\<close>) and the
    abstract scene flow \<open>flow\<close>.
  \<^item> \<open>Variants\<close>: the programs 2.2, 3.1, 3.2 and 3.3 as whole programs on
    the same engine (\<open>vscene_handle\<close> over the Game state of each: nothing,
    its ball, or its ball and paddle), sharing the title and end screens of
    3.4; 2.2, 3.1 and 3.2 are shown to run the sessions of 2.1 under the
    abstraction of scenes to their classes (\<open>abs_engine\<close>, \<open>drain_abs\<close>).
  This theory holds the properties of whole sessions, among them the
  refinement of each frame by \<open>flow\<close>, the abstract scene flow of spec 4.6 as
  the program realises it.

  \<^bold>\<open>Termination.\<close> No fuel is used. \<open>drain\<close> is shown to return for every
  handler that never signals an input event and signals nothing in answer to a
  signal, by induction on the number of input events in the queue and then its
  length; the 3.4 and 2.1 handlers are such handlers. \<open>py_range\<close> terminates by
  the measure \<open>stop - start\<close>; all other functions are structurally recursive.

  \<^bold>\<open>What the session properties show.\<close> Reachable sessions stay in three
  shapes and never raise; a release at the title starts a fresh game; a deadly
  wall ends it. They also show where the program and spec 4.6 part: the end
  screen returns to the title instead of ending the session. Since the engine
  empties its queue before a scene change, the first commit of a frame wins, at
  the title and at the end screen. Across components, the strikes a
  frame's update signals come back through the engine's queue to exactly the
  bricks the ball overlaps; since nothing checks that a contact is new, a ball
  grazing a brick strikes it in every frame of the contact. A frame of a
  running Game only wears its bricks (\<open>brick_wears\<close>, embedded in order with
  \<open>list_emb\<close> of HOL-Library.Sublist): none is added or comes back, their
  insertion order is kept, and the hits left never increase. In the 3.3 program
  a started game can never be left, and its ball keeps its speed through every
  frame, the angled paddle normal being normalised.

  \<^bold>\<open>Not modelled.\<close> Drawing (images, \<open>ppb.Text\<close> and fonts, colours of
  scenes and walls, the camera), the debug \<open>print\<close> calls, the timing of
  \<open>ppb.run\<close> (a frame's time step is the argument of \<open>Update\<close>), and float
  rounding. The Paddle of src/3.3-the-paddle/paddle.py (lines 64-97) is the
  code of the 3.4 Paddle with other class attributes, so the 3.3 program uses
  the 3.4 definitions with \<open>new_paddle_v33\<close>'s height and speed, and those
  lines are not mapped a second time; so are \<open>collides\<close> and \<open>Wall\<close> of
  3.2 and 3.3 and the release handlers of the 2.2 and 3.3 title and end
  screens, each the text of its 3.4 counterpart. The title text of 2.2
  (\<open>ppb.Text\<close>, lines 10-17) is drawing only. The order of events within a
  frame is the host's: sessions take any batch of inputs per frame, handled in
  the order given, before the scene requests they cause.
\<close>

section \<open>Sessions of the program\<close>

text \<open>C4: the engine's frame loop always returns on the 3.4 program: whatever the
  scene stack and the queued events, draining the queue ends, in a state or an
  error, because no scene signals an input event or answers a signal.\<close>

theorem drain_terminates: "\<exists>r. drain scene_handle scene_of e q = Some r"
  using drain_total [OF quiet_scene_handle] .

text \<open>C1: in every session reachable from \<open>ppb.run(starting_scene=TitleScreen)\<close>
  by frames of input events, any number of them commits (key or button
  releases), the engine is running and its stack is the title, a well-formed Game
  whose ball has speed 13 above the title, or the end screen above the title.\<close>

theorem session_invariant: "session_reachable e \<Longrightarrow> session_ok e"
  by (rule session_reachable_ok)

theorem session_invariant_witness:
  "session_ok engine_init"
  using session_invariant [OF session_reachable.start] .

text \<open>C2: in a reachable session every frame of input events, however many
  commits it holds, is handled without an error and the engine keeps running:
  the program never raises and never stops the engine by itself.\<close>

theorem session_progress:
  assumes "session_reachable e" and "\<forall>ev \<in> set evs. is_input ev"
  shows "\<exists>e'. drain scene_handle scene_of e evs = Some (Inr e') \<and> running e' \<and> session_reachable e'"
proof -
  obtain e' where "drain scene_handle scene_of e evs = Some (Inr e')" "session_ok e'"
    using session_frame [OF session_reachable_ok [OF assms(1)] assms(2)] by blast
  then show ?thesis using session_reachable.frame [OF assms] by (auto simp: session_ok_def)
qed

theorem session_progress_witness:
  "\<exists>e'. drain scene_handle scene_of engine_init [MouseMotion (Vector 1 2), KeyReleased KeyLeft, ButtonReleased, Update (1 / 60)] =
          Some (Inr e') \<and> running e'"
  using session_progress [OF session_reachable.start,
                          of "[MouseMotion (Vector 1 2), KeyReleased KeyLeft, ButtonReleased, Update (1 / 60)]"] by auto

text \<open>C3: every frame of a reachable session refines the scene flow \<open>flow\<close>:
  the class of the running scene after the frame is the one the flow prescribes
  for the event and the scene before it (release at the title: Game; ball onto a
  deadly wall: EndScreen; release at the end screen: TitleScreen; otherwise
  unchanged), and the title stays at the bottom of the stack.\<close>

theorem session_refines_flow:
  assumes "session_reachable e" and "is_input ev"
  shows "\<exists>e'. drain scene_handle scene_of e [ev] = Some (Inr e') \<and>
              class_of (hd (scenes e')) = flow ev (hd (scenes e)) \<and> last (scenes e') = TitleScene"
proof -
  obtain e' where "drain scene_handle scene_of e [ev] = Some (Inr e')" "session_ok e'"
      "class_of (hd (scenes e')) = flow ev (hd (scenes e))"
    using session_step [OF session_reachable_ok [OF assms(1)] assms(2)] by blast
  then show ?thesis by (auto simp: session_ok_def stack_ok_iff)
qed

theorem session_refines_flow_witness:
  "\<exists>e'. drain scene_handle scene_of engine_init [KeyReleased KeyLeft] = Some (Inr e') \<and>
        class_of (hd (scenes e')) = Game"
  using session_refines_flow [OF session_reachable.start, of "KeyReleased KeyLeft"]
  by (auto simp: engine_init_def)


text \<open>C10: the scenario of spec section 8: when the ball of a well-formed Game
  moves onto a deadly wall, the frame ends with the end screen above the title.\<close>

theorem deadly_wall_ends_game:
  assumes "game_ok g" and "w \<in> set (game_walls g)" and "deadly w"
    and "collides (ball_move dt (game_ball g)) w"
  shows "drain scene_handle scene_of \<lparr>scenes = [GameScene g, TitleScene], running = True\<rparr> [Update dt] =
           Some (Inr \<lparr>scenes = [EndScene, TitleScene], running = True\<rparr>)"
proof -
  obtain g' sigs where g': "game_handle (Update dt) g = Inr (g', sigs)" "game_ok g'"
    using game_handle_ok [OF assms(1), of "Update dt"] by auto
  have "game_paddles g \<noteq> []" using assms(1) by (auto simp: game_ok_def)
  then have end_sig: "ReplaceScene EndScreen \<in> set sigs"
    using game_update_end_signal [OF g'(1)] assms(2-4) by blast
  have sigs: "\<forall>x \<in> set sigs. x = ReplaceScene EndScreen \<or> (\<exists>bid. x = BrickStruck bid)"
    using game_handle_signals [OF g'(1)] by auto
  have "drain scene_handle scene_of \<lparr>scenes = [GameScene g, TitleScene], running = True\<rparr> [Update dt] =
        drain scene_handle scene_of \<lparr>scenes = [GameScene g', TitleScene], running = True\<rparr> sigs"
    using drain_scene [of "Update dt" scene_handle "GameScene g" "GameScene g'" sigs] g'(1) by simp
  then show ?thesis
    using drain_game_signals [OF _ sigs, of "GameScene g'"] g'(2) end_sig by auto
qed

theorem deadly_wall_ends_game_witness:
  "drain scene_handle scene_of
     \<lparr>scenes = [GameScene (game_init\<lparr>game_ball := \<lparr>position = Vector 0 (-16), width = 1, height = 1,
                                                   velocity = Vector 0 (-12)\<rparr>\<rparr>), TitleScene],
      running = True\<rparr> [Update (1 / 60)] =
   Some (Inr \<lparr>scenes = [EndScene, TitleScene], running = True\<rparr>)"
proof (rule deadly_wall_ends_game)
  show "game_ok (game_init\<lparr>game_ball := \<lparr>position = Vector 0 (-16), width = 1, height = 1,
                                            velocity = Vector 0 (-12)\<rparr>\<rparr>)"
    using game_init_ok by (simp add: game_ok_def game_init_def)
  show "new_wall 26 1 (Vector 0 (- 33 / 2)) Up True \<in> set (game_walls (game_init\<lparr>game_ball :=
          \<lparr>position = Vector 0 (-16), width = 1, height = 1, velocity = Vector 0 (-12)\<rparr>\<rparr>))"
    by (simp add: game_init_def field_walls_def)
qed (simp_all add: new_wall_def collides_def sprite_extents ball_move_def Vector_ops vscale_def)

text \<open>C11: a frame in which the ball of a well-formed Game does not reach a
  deadly wall keeps the Game running, and the bricks the moved ball overlaps,
  each told by its own targeted \<open>BrickStruck\<close>, lose one hit each (or leave the
  scene), in the order of the scene's bricks, so the hits left to clear drop by
  the number of bricks overlapped; the Game stays well-formed.\<close>

theorem frame_strikes_bricks:
  assumes "game_ok g" and "\<not> game_ends (Update dt) g"
  shows "\<exists>g'. drain scene_handle scene_of \<lparr>scenes = [GameScene g, TitleScene], running = True\<rparr> [Update dt] =
                Some (Inr \<lparr>scenes = [GameScene g', TitleScene], running = True\<rparr>) \<and>
              game_bricks g' =
                fold deliver_brick_struck
                  (map brick_id (filter (collides (ball_move dt (game_ball g))) (game_bricks g)))
                  (game_bricks g) \<and>
              remaining_hits (game_bricks g') =
                remaining_hits (game_bricks g) -
                  int (length (filter (collides (ball_move dt (game_ball g))) (game_bricks g))) \<and>
              game_ok g'"
proof -
  let ?ks = "filter (collides (ball_move dt (game_ball g))) (game_bricks g)"
  obtain g1 sigs where g1: "game_handle (Update dt) g = Inr (g1, sigs)" "game_ok g1"
    "game_bricks g1 = game_bricks g"
    using game_update_ok [OF assms(1), of dt] by auto
  have ok: "bricks_ok (game_bricks g)" using assms(1) by (simp add: game_ok_def)
  then have dist: "distinct (map brick_id ?ks)" by (simp add: bricks_ok_def distinct_map_filter)
  have "remaining_hits (fold deliver_brick_struck (map brick_id ?ks) (game_bricks g)) =
             remaining_hits (game_bricks g) - int (length ?ks)"
    using remaining_hits_fold_deliver [OF ok dist] by auto
  then show ?thesis
    using game_frame [OF assms g1(1)] g1 by (auto simp: game_ok_def bricks_ok_fold_deliver)
qed

theorem frame_strikes_bricks_witness:
  "\<exists>g'. drain scene_handle scene_of
          \<lparr>scenes = [GameScene (game_init\<lparr>game_ball := \<lparr>position = Vector 0 (-1), width = 1, height = 1,
                                                         velocity = Vector 0 12\<rparr>,
                                        game_bricks := [new_brick 0 (Vector 0 0), new_brick 1 (Vector 3 0)]\<rparr>),
                     TitleScene], running = True\<rparr> [Update (1 / 60)] =
          Some (Inr \<lparr>scenes = [GameScene g', TitleScene], running = True\<rparr>) \<and>
        game_bricks g' = [(new_brick 0 (Vector 0 0))\<lparr>hits := 2\<rparr>, new_brick 1 (Vector 3 0)] \<and>
        remaining_hits (game_bricks g') = 5"
proof -
  let ?g = "game_init\<lparr>game_ball := \<lparr>position = Vector 0 (-1), width = 1, height = 1, velocity = Vector 0 12\<rparr>,
                      game_bricks := [new_brick 0 (Vector 0 0), new_brick 1 (Vector 3 0)]\<rparr>"
  have ok: "game_ok ?g"
    using game_init_ok by (simp add: game_ok_def game_init_def bricks_ok_def new_brick_def)
  have ends: "\<not> game_ends (Update (1 / 60)) ?g"
    by (simp add: game_init_def field_walls_def new_wall_def collides_def sprite_extents ball_move_def
        Vector_ops vscale_def)
  have "map brick_id (filter (collides (ball_move (1 / 60) (game_ball ?g))) (game_bricks ?g)) = [0]"
    by (simp add: new_brick_def collides_def sprite_extents ball_move_def Vector_ops vscale_def)
  moreover have "fold deliver_brick_struck [0] (game_bricks ?g) =
                 [(new_brick 0 (Vector 0 0))\<lparr>hits := 2\<rparr>, new_brick 1 (Vector 3 0)]"
    by (simp add: new_brick_def brick_struck_def)
  moreover have "remaining_hits (game_bricks ?g) = 6" by (simp add: remaining_hits_def new_brick_def)
  ultimately show ?thesis using frame_strikes_bricks [OF ok ends] by (auto simp: length_map [symmetric])
qed

text \<open>C13: in a reachable session, a frame of input events that finds a Game
  running and leaves one running only wears its bricks: the bricks after the
  frame embed, in their insertion order, in those before, each keeping its
  identity, place and extent with no more hits, so no brick is added or comes
  back and the order the update loops follow is kept (spec section 5); the hits
  left to clear never increase.\<close>

theorem frame_bricks_wear:
  assumes "session_reachable e" and "scenes e = [GameScene g, TitleScene]"
    and "\<forall>ev \<in> set evs. is_input ev"
    and "drain scene_handle scene_of e evs = Some (Inr e')" and "scenes e' = [GameScene g', TitleScene]"
  shows "list_emb brick_wears (game_bricks g') (game_bricks g) \<and>
         remaining_hits (game_bricks g') \<le> remaining_hits (game_bricks g)"
proof -
  have ok: "session_ok e" using session_reachable_ok [OF assms(1)] .
  then have e: "e = \<lparr>scenes = [GameScene g, TitleScene], running = True\<rparr>"
    using engine_eq [of e] assms(2) by (simp add: session_ok_def)
  have g: "game_ok g" "vlength (velocity (game_ball g)) = 13"
    using ok assms(2) by (simp_all add: session_ok_def)
  obtain g1 sigs where g1: "run_inputs scene_handle evs (GameScene g) = Inr (GameScene g1, sigs)"
    "game_ok g1" "list_emb brick_wears (game_bricks g1) (game_bricks g)"
    "\<forall>x \<in> set sigs. x = ReplaceScene EndScreen \<or> (\<exists>bid. x = BrickStruck bid)"
    using run_game [OF g] by blast
  obtain s' where s': "drain scene_handle scene_of \<lparr>scenes = [GameScene g1, TitleScene], running = True\<rparr> sigs =
      Some (Inr \<lparr>scenes = [s', TitleScene], running = True\<rparr>)"
    "if ReplaceScene EndScreen \<in> set sigs then s' = EndScene
     else \<exists>g2. s' = GameScene g2 \<and> list_emb brick_wears (game_bricks g2) (game_bricks g1)"
    using drain_game_signals [OF _ g1(4), of "GameScene g1"] g1(2) by (auto split: if_splits)
  have "drain scene_handle scene_of e evs = Some (Inr \<lparr>scenes = [s', TitleScene], running = True\<rparr>)"
    using drain_inputs [OF assms(3), of scene_handle scene_of "GameScene g" "[TitleScene]" True "[]"] e g1(1) s'(1)
    by simp
  then have "s' = GameScene g'" using assms(4,5) by simp
  then have w: "list_emb brick_wears (game_bricks g') (game_bricks g)"
    using s'(2) g1(3) bricks_wear_trans by (auto split: if_splits)
  moreover have "\<forall>b \<in> set (game_bricks g). 0 \<le> hits b"
    using g(1) by (auto simp: game_ok_def bricks_ok_def less_imp_le)
  ultimately show ?thesis using wears_remaining_hits by blast
qed

theorem frame_bricks_wear_witness:
  "list_emb brick_wears
     (game_bricks (game_init\<lparr>game_paddles := map (paddle_on_key_pressed KeyLeft) (game_paddles game_init)\<rparr>))
     (game_bricks game_init) \<and>
   remaining_hits
     (game_bricks (game_init\<lparr>game_paddles := map (paddle_on_key_pressed KeyLeft) (game_paddles game_init)\<rparr>))
   \<le> remaining_hits (game_bricks game_init)"
proof -
  have r: "session_reachable \<lparr>scenes = [GameScene game_init, TitleScene], running = True\<rparr>"
    by (rule session_reachable.frame [OF session_reachable.start, of "[KeyReleased KeyLeft]"])
       (simp_all add: drain_Cons engine_dispatch_def engine_init_def scene_of_def)
  have d: "drain scene_handle scene_of \<lparr>scenes = [GameScene game_init, TitleScene], running = True\<rparr>
             [KeyPressed KeyLeft] =
           Some (Inr \<lparr>scenes = [GameScene (game_init\<lparr>game_paddles :=
                    map (paddle_on_key_pressed KeyLeft) (game_paddles game_init)\<rparr>), TitleScene],
                      running = True\<rparr>)"
    by (simp add: drain_Cons engine_dispatch_def)
  show ?thesis using frame_bricks_wear [OF r _ _ d] by simp
qed

text \<open>C12: a ball that grazes the side of a brick, moving parallel to it, is struck
  back along the centre-to-centre direction, which is perpendicular to its
  velocity, so it is not deflected; it still overlaps the brick in the next frame
  and strikes it again: one contact costs the brick a hit in every frame it
  lasts (here two frames: three hits down to one).\<close>

theorem grazing_ball_strikes_each_frame:
  "\<exists>g1 g2.
     drain scene_handle scene_of
       \<lparr>scenes = [GameScene (game_init\<lparr>game_ball := \<lparr>position = Vector (-7/5) (-1/5), width = 1, height = 1,
                                                   velocity = Vector 0 12\<rparr>,
                                     game_bricks := [new_brick 0 (Vector 0 0)]\<rparr>), TitleScene],
        running = True\<rparr> [Update (1 / 60)] =
       Some (Inr \<lparr>scenes = [GameScene g1, TitleScene], running = True\<rparr>) \<and>
     position (game_ball g1) = Vector (-7/5) 0 \<and> velocity (game_ball g1) = Vector 0 12 \<and>
     map hits (game_bricks g1) = [2] \<and>
     drain scene_handle scene_of \<lparr>scenes = [GameScene g1, TitleScene], running = True\<rparr> [Update (1 / 60)] =
       Some (Inr \<lparr>scenes = [GameScene g2, TitleScene], running = True\<rparr>) \<and>
     map hits (game_bricks g2) = [1]"
proof -
  let ?b0 = "\<lparr>position = Vector (-7/5) (-1/5), width = 1, height = 1, velocity = Vector 0 12\<rparr>"
  let ?b1 = "\<lparr>position = Vector (-7/5) 0, width = 1, height = 1, velocity = Vector 0 12\<rparr>"
  let ?g0 = "game_init\<lparr>game_ball := ?b0, game_bricks := [new_brick 0 (Vector 0 0)]\<rparr>"
  let ?g1 = "game_init\<lparr>game_ball := ?b1, game_bricks := [(new_brick 0 (Vector 0 0))\<lparr>hits := 2\<rparr>]\<rparr>"
  have ok0: "game_ok ?g0"
    using game_init_ok by (simp add: game_ok_def game_init_def bricks_ok_def new_brick_def)
  have ends0: "\<not> game_ends (Update (1 / 60)) ?g0"
    by (simp add: frame_eval)
  have h1: "game_handle (Update (1 / 60)) ?g0 =
            Inr (game_init\<lparr>game_ball := ?b1, game_bricks := [new_brick 0 (Vector 0 0)]\<rparr>, [BrickStruck 0])"
    by (simp add: frame_eval)
  have f1: "drain scene_handle scene_of \<lparr>scenes = [GameScene ?g0, TitleScene], running = True\<rparr> [Update (1 / 60)] =
            Some (Inr \<lparr>scenes = [GameScene ?g1, TitleScene], running = True\<rparr>)"
    using game_frame [OF ok0 ends0 h1] by (simp add: frame_eval brick_struck_def)
  have ok1: "game_ok ?g1"
    using game_init_ok by (simp add: game_ok_def game_init_def bricks_ok_def new_brick_def)
  have ends1: "\<not> game_ends (Update (1 / 60)) ?g1"
    by (simp add: frame_eval)
  obtain g2' sigs where h2: "game_handle (Update (1 / 60)) ?g1 = Inr (g2', sigs)"
    "game_bricks g2' = game_bricks ?g1"
    using game_update_ok [OF ok1, of "1 / 60"] by auto
  have f2: "drain scene_handle scene_of \<lparr>scenes = [GameScene ?g1, TitleScene], running = True\<rparr> [Update (1 / 60)] =
            Some (Inr \<lparr>scenes = [GameScene (g2'\<lparr>game_bricks := [(new_brick 0 (Vector 0 0))\<lparr>hits := 1\<rparr>]\<rparr>),
                                 TitleScene], running = True\<rparr>)"
    using game_frame [OF ok1 ends1 h2(1)] h2(2) by (simp add: frame_eval brick_struck_def)
  show ?thesis
    apply (rule exI [of _ ?g1], rule exI [of _ "g2'\<lparr>game_bricks := [(new_brick 0 (Vector 0 0))\<lparr>hits := 1\<rparr>]\<rparr>"])
    using f1 f2 by (simp add: new_brick_def)
qed


text \<open>C21: at the end screen, a frame of input events returns the session to the
  title screen, the engine still running, exactly when it holds a commit: the
  first release sends \<open>StopScene\<close>, which uncovers the title, and the engine
  drops the requests queued behind it; a frame without a commit leaves the end
  screen as it is. Spec section 4.6 says instead that this transition ends the
  session.\<close>

theorem end_frame_returns_to_title:
  assumes "\<forall>ev \<in> set evs. is_input ev"
  shows "drain scene_handle scene_of \<lparr>scenes = [EndScene, TitleScene], running = True\<rparr> evs =
           Some (Inr (if list_ex is_commit evs then engine_init
                      else \<lparr>scenes = [EndScene, TitleScene], running = True\<rparr>))"
  using drain_inputs [OF assms, of scene_handle scene_of EndScene "[TitleScene]" True "[]"]
  by (simp add: run_end drain_same_requests drain_Cons engine_dispatch_def engine_init_def
      filter_empty_conv list_ex_iff)

theorem end_frame_returns_to_title_witness:
  "drain scene_handle scene_of \<lparr>scenes = [EndScene, TitleScene], running = True\<rparr>
     [KeyPressed KeyLeft, KeyReleased KeyLeft, ButtonReleased, Update (1 / 60)] = Some (Inr engine_init)"
  using end_frame_returns_to_title [of "[KeyPressed KeyLeft, KeyReleased KeyLeft, ButtonReleased, Update (1 / 60)]"]
  by simp

text \<open>C22: at the title, the first commit of a frame wins (spec 4.6): a frame of input
  events with a commit among them, whatever the other inputs and their order,
  leaves exactly one freshly built Game above the title, the engine dropping the
  requests of the later commits; a frame without a commit leaves the title as it
  is.\<close>

theorem title_frame_first_commit_wins:
  assumes "\<forall>ev \<in> set evs. is_input ev"
  shows "drain scene_handle scene_of engine_init evs =
           Some (Inr (if list_ex is_commit evs
                      then \<lparr>scenes = [GameScene game_init, TitleScene], running = True\<rparr>
                      else engine_init))"
  using drain_inputs [OF assms, of scene_handle scene_of TitleScene "[]" True "[]"]
  by (simp add: engine_init_def run_title drain_same_requests drain_Cons scene_of_def
      filter_empty_conv list_ex_iff)

theorem title_frame_first_commit_wins_witness:
  "drain scene_handle scene_of engine_init
     [KeyPressed KeyRight, KeyReleased KeyLeft, ButtonReleased, Update (1 / 60)] =
   Some (Inr \<lparr>scenes = [GameScene game_init, TitleScene], running = True\<rparr>)"
  using title_frame_first_commit_wins [of "[KeyPressed KeyRight, KeyReleased KeyLeft, ButtonReleased, Update (1 / 60)]"]
  by simp

end
